(* ===== verification/GoPrelude.thy ===== *)
theory GoPrelude
  imports Main "HOL-Library.AList"
begin

text \<open>
  Prelude of the development: Go errors, the functions of Go's package strings that the backend
  uses, decimal printing, and the lemmas about them that the component theories share.

  A Go string is a sequence of bytes, and so is an Isabelle \<^typ>\<open>string\<close> (a \<^typ>\<open>char\<close> is one
  byte), so lengths and positions here are byte lengths and byte positions, as in Go.
  The collection \<open>go_simps\<close> holds the rewrite rules that evaluate string functions;
  \<open>go_intros\<close> holds introduction rules.
\<close>

named_theorems go_simps \<open>evaluation of the Go string functions\<close>
named_theorems go_intros \<open>introduction rules for the Go string predicates\<close>

section \<open>Errors\<close>

text \<open>
  An error value: the two \<^verbatim>\<open>ErrNotFound\<close> sentinels (localdb and webdavstore each declare one, and
  they are different values), a fresh error with its text, and \<^verbatim>\<open>fmt.Errorf("...: %w", err)\<close>,
  which keeps the wrapped error reachable for \<^verbatim>\<open>errors.Is\<close>.
\<close>

datatype go_error =
    DbNotFound
  | StoreNotFound
  | Msg string
  | Wrap string go_error

type_synonym 'a result = "go_error + 'a"

fun error_text :: "go_error \<Rightarrow> string" where
  "error_text DbNotFound = ''not found''"
| "error_text StoreNotFound = ''not found''"
| "error_text (Msg s) = s"
| "error_text (Wrap s e) = s @ '': '' @ error_text e"

text \<open>\<^verbatim>\<open>errors.Is(err, target)\<close> walks the chain of wrapped errors.\<close>

fun errors_is :: "go_error \<Rightarrow> go_error \<Rightarrow> bool" where
  "errors_is (Wrap s e) t = (Wrap s e = t \<or> errors_is e t)"
| "errors_is e t = (e = t)"

text \<open>\<^verbatim>\<open>if err != nil { return err }\<close>: go on with the value, or hand the error up.\<close>

fun check_err :: "'a result \<Rightarrow> ('a \<Rightarrow> 'b result) \<Rightarrow> 'b result" where
  "check_err (Inl e) f = Inl e"
| "check_err (Inr x) f = f x"

lemma check_err_InrE: "check_err r f = Inr y \<Longrightarrow> (\<And>x. r = Inr x \<Longrightarrow> f x = Inr y \<Longrightarrow> thesis) \<Longrightarrow> thesis"
  by (cases r) auto

section \<open>Prefixes, suffixes, trimming\<close>

definition HasPrefix :: "string \<Rightarrow> string \<Rightarrow> bool" where
  "HasPrefix s p = (take (length p) s = p)"

definition HasSuffix :: "string \<Rightarrow> string \<Rightarrow> bool" where
  "HasSuffix s p = (length p \<le> length s \<and> drop (length s - length p) s = p)"

definition TrimPrefix :: "string \<Rightarrow> string \<Rightarrow> string" where
  "TrimPrefix s p = (if HasPrefix s p then drop (length p) s else s)"

definition TrimSuffix :: "string \<Rightarrow> string \<Rightarrow> string" where
  "TrimSuffix s p = (if HasSuffix s p then take (length s - length p) s else s)"

text \<open>\<^verbatim>\<open>strings.TrimLeft\<close>, \<^verbatim>\<open>TrimRight\<close> and \<^verbatim>\<open>Trim\<close> with a one-byte cutset.\<close>

definition TrimLeft :: "char \<Rightarrow> string \<Rightarrow> string" where
  "TrimLeft c s = dropWhile (\<lambda>x. x = c) s"

definition TrimRight :: "char \<Rightarrow> string \<Rightarrow> string" where
  "TrimRight c s = rev (dropWhile (\<lambda>x. x = c) (rev s))"

definition Trim :: "char \<Rightarrow> string \<Rightarrow> string" where
  "Trim c s = TrimRight c (TrimLeft c s)"

lemma HasPrefix_iff: "HasPrefix s p \<longleftrightarrow> (\<exists>t. s = p @ t)"
  unfolding HasPrefix_def by (metis append_eq_conv_conj append_take_drop_id)

lemma HasPrefix_append [simp]: "HasPrefix (p @ t) p"
  by (simp add: HasPrefix_def)

lemma HasPrefix_Nil [simp]: "HasPrefix s []"
  by (simp add: HasPrefix_def)

lemma HasPrefix_Nil_left [simp]: "HasPrefix [] p \<longleftrightarrow> p = []"
  by (auto simp: HasPrefix_def)

lemma HasPrefix_Cons [simp]: "HasPrefix (x # s) (y # p) \<longleftrightarrow> x = y \<and> HasPrefix s p"
  by (auto simp: HasPrefix_def)

lemma HasPrefix_same_append [simp]: "HasPrefix (a @ s) (a @ p) \<longleftrightarrow> HasPrefix s p"
  by (auto simp: HasPrefix_iff)

lemma HasPrefixD: "HasPrefix s p \<Longrightarrow> s = p @ drop (length p) s"
  unfolding HasPrefix_def by (metis append_take_drop_id)

lemma HasSuffix_iff: "HasSuffix s p \<longleftrightarrow> (\<exists>t. s = t @ p)"
  unfolding HasSuffix_def by (metis append_eq_conv_conj append_take_drop_id diff_diff_cancel
      length_append length_drop le_add2 add_diff_cancel_right')

lemma HasSuffix_append [simp]: "HasSuffix (t @ p) p"
  by (auto simp: HasSuffix_iff)

lemma TrimSuffix_append [simp]: "TrimSuffix (t @ p) p = t"
  by (simp add: TrimSuffix_def)

lemma TrimPrefix_append [simp]: "TrimPrefix (p @ t) p = t"
  by (simp add: TrimPrefix_def)

lemma TrimRight_snoc [simp]: "TrimRight c (s @ [x]) = (if x = c then TrimRight c s else s @ [x])"
  by (simp add: TrimRight_def)

lemma TrimRight_Nil [simp]: "TrimRight c [] = []"
  by (simp add: TrimRight_def)

lemma TrimLeft_hd: "TrimLeft c s \<noteq> [] \<Longrightarrow> hd (TrimLeft c s) \<noteq> c"
  unfolding TrimLeft_def by (induction s) auto

lemma TrimRight_last: "TrimRight c s \<noteq> [] \<Longrightarrow> last (TrimRight c s) \<noteq> c"
  by (induction s rule: rev_induct) auto

lemma TrimRight_prefix: "\<exists>k. s = TrimRight c s @ replicate k c"
proof (induction s rule: rev_induct)
  case Nil
  show ?case by simp
next
  case (snoc x xs)
  then obtain k where k: "xs = TrimRight c xs @ replicate k c" by blast
  show ?case
  proof (cases "x = c")
    case True
    have "xs @ [x] = TrimRight c xs @ replicate (Suc k) c"
      using True k by (metis append.assoc replicate_append_same replicate_Suc)
    moreover have "TrimRight c (xs @ [x]) = TrimRight c xs" using True by simp
    ultimately show ?thesis by metis
  next
    case False
    have "xs @ [x] = TrimRight c (xs @ [x]) @ replicate 0 c" using False by simp
    then show ?thesis by blast
  qed
qed

lemma TrimRight_append_noslash:
  "c \<notin> set t \<Longrightarrow> t \<noteq> [] \<Longrightarrow> TrimRight c (s @ t) = s @ t"
  by (induction t rule: rev_induct) (auto simp flip: append_assoc)

lemma TrimRight_idem [simp]: "TrimRight c (TrimRight c s) = TrimRight c s"
  by (induction s rule: rev_induct) auto

lemma set_TrimRight: "set (TrimRight c s) \<subseteq> set s"
  unfolding TrimRight_def using set_dropWhileD by fastforce

lemma set_TrimLeft: "set (TrimLeft c s) \<subseteq> set s"
  unfolding TrimLeft_def using set_dropWhileD by fastforce

section \<open>Splitting and searching\<close>

text \<open>\<^verbatim>\<open>strings.Split(s, sep)\<close> with a one-byte separator.\<close>

fun Split :: "char \<Rightarrow> string \<Rightarrow> string list" where
  "Split c [] = [[]]"
| "Split c (x # xs) =
     (if x = c then [] # Split c xs
      else (case Split c xs of [] \<Rightarrow> [[x]] | y # ys \<Rightarrow> (x # y) # ys))"

text \<open>\<^verbatim>\<open>strings.LastIndex(s, sep)\<close> with a one-byte separator; -1 is None.\<close>

fun LastIndex :: "char \<Rightarrow> string \<Rightarrow> nat option" where
  "LastIndex c [] = None"
| "LastIndex c (x # xs) =
     (case LastIndex c xs of Some i \<Rightarrow> Some (Suc i)
      | None \<Rightarrow> (if x = c then Some 0 else None))"

lemma Split_not_Nil [simp]: "Split c s \<noteq> []"
  by (induction s) (auto split: list.splits)

lemma Split_no_sep [simp]: "c \<notin> set s \<Longrightarrow> Split c s = [s]"
  by (induction s) auto

lemma Split_append: "Split c (s @ c # t) = Split c s @ Split c t"
  by (induction s) (auto split: list.splits)

lemma last_Split_append [simp]: "c \<notin> set t \<Longrightarrow> last (Split c (s @ c # t)) = t"
  by (simp add: Split_append)

lemma Split_parts: "p \<in> set (Split c s) \<Longrightarrow> c \<notin> set p"
proof (induction s arbitrary: p)
  case Nil
  then show ?case by simp
next
  case (Cons x xs)
  then show ?case by (cases "Split c xs") (auto split: if_splits)
qed

lemma LastIndex_None: "LastIndex c s = None \<longleftrightarrow> c \<notin> set s"
  by (induction s) (auto split: option.splits)

lemma LastIndex_append:
  "c \<notin> set t \<Longrightarrow> LastIndex c (s @ c # t) = Some (length s)"
  by (induction s) (auto simp: LastIndex_None split: option.splits)

lemma LastIndex_Some:
  "LastIndex c s = Some i \<Longrightarrow> s = take i s @ c # drop (Suc i) s \<and> c \<notin> set (drop (Suc i) s)"
  by (induction s arbitrary: i) (auto simp: LastIndex_None split: option.splits if_splits)

lemma LastIndex_Some_length: "LastIndex c s = Some i \<Longrightarrow> i < length s"
  by (induction s arbitrary: i) (auto split: option.splits if_splits)

section \<open>Replacing\<close>

text \<open>
  \<^verbatim>\<open>strings.ReplaceAll(s, old, new)\<close> for a non-empty \<open>old\<close>: the occurrences are found from the
  left and do not overlap, and the text put in is not searched again.
\<close>

function ReplaceAll :: "string \<Rightarrow> string \<Rightarrow> string \<Rightarrow> string" where
  "ReplaceAll [] old new = []"
| "ReplaceAll (c # cs) old new =
     (if old \<noteq> [] \<and> HasPrefix (c # cs) old
      then new @ ReplaceAll (drop (length old) (c # cs)) old new
      else c # ReplaceAll cs old new)"
  by pat_completeness auto
termination
  by (relation "measure (\<lambda>(s, old, new). length s)") auto

lemma ReplaceAll_match:
  "old \<noteq> [] \<Longrightarrow> ReplaceAll (old @ s) old new = new @ ReplaceAll s old new"
  by (cases old) auto

lemma ReplaceAll_skip:
  "\<not> HasPrefix (c # cs) old \<Longrightarrow> ReplaceAll (c # cs) old new = c # ReplaceAll cs old new"
  by simp

text \<open>A stretch of text without the first byte of the pattern is copied.\<close>

lemma ReplaceAll_copy:
  "b \<notin> set t \<Longrightarrow> ReplaceAll (t @ s) (b # old) new = t @ ReplaceAll s (b # old) new"
  by (induction t) auto

lemma ReplaceAll_no_occurrence:
  "b \<notin> set s \<Longrightarrow> ReplaceAll s (b # old) new = s"
  using ReplaceAll_copy [of b s "[]"] by simp

section \<open>Decimal printing, quoting\<close>

definition digit :: "nat \<Rightarrow> char" where
  "digit n = char_of (48 + n)"

fun show_nat :: "nat \<Rightarrow> string" where
  "show_nat n = (if n < 10 then [digit n] else show_nat (n div 10) @ [digit (n mod 10)])"

declare show_nat.simps [simp del]

text \<open>The verb \<^verbatim>\<open>%d\<close>.\<close>

definition show_int :: "int \<Rightarrow> string" where
  "show_int i = (if i < 0 then CHR ''-'' # show_nat (nat (- i)) else show_nat (nat i))"

text \<open>
  The verb \<^verbatim>\<open>%q\<close> (\<^verbatim>\<open>strconv.Quote\<close>): a double-quoted Go literal. Bytes from 128 on are the parts
  of multi-byte characters; they are kept, as Quote keeps printable characters.
\<close>

definition hex_digit :: "nat \<Rightarrow> char" where
  "hex_digit n = (if n < 10 then char_of (48 + n) else char_of (87 + n))"

definition quote_char :: "char \<Rightarrow> string" where
  "quote_char c =
     (let n = (of_char c :: nat) in
      if n = 34 then [char_of (92::nat), c]
      else if n = 92 then [c, c]
      else if n = 7 then [char_of (92::nat), CHR ''a'']
      else if n = 8 then [char_of (92::nat), CHR ''b'']
      else if n = 12 then [char_of (92::nat), CHR ''f'']
      else if n = 10 then [char_of (92::nat), CHR ''n'']
      else if n = 13 then [char_of (92::nat), CHR ''r'']
      else if n = 9 then [char_of (92::nat), CHR ''t'']
      else if n = 11 then [char_of (92::nat), CHR ''v'']
      else if n < 32 \<or> n = 127
        then [char_of (92::nat), CHR ''x'', hex_digit (n div 16), hex_digit (n mod 16)]
      else [c])"

definition Quote :: "string \<Rightarrow> string" where
  "Quote s = char_of (34::nat) # concat (map quote_char s) @ [char_of (34::nat)]"

section \<open>Maps as association lists\<close>

text \<open>
  A Go map that is ranged over is an association list with distinct keys: \<open>AList.update\<close> is the
  assignment \<^verbatim>\<open>m[k] = v\<close>, and reading a missing key of a \<^verbatim>\<open>map[string]string\<close> gives the empty string.
\<close>

type_synonym vars = "(string \<times> string) list"

definition vget :: "vars \<Rightarrow> string \<Rightarrow> string" where
  "vget m k = (case map_of m k of Some v \<Rightarrow> v | None \<Rightarrow> [])"

definition vset :: "string \<Rightarrow> string \<Rightarrow> vars \<Rightarrow> vars" where
  "vset k v m = AList.update k v m"

lemma vget_vset: "vget (vset k v m) k' = (if k' = k then v else vget m k')"
  by (simp add: vget_def vset_def update_conv')

lemma vset_distinct: "distinct (map fst m) \<Longrightarrow> distinct (map fst (vset k v m))"
  by (simp add: vset_def distinct_update)

lemma map_of_perm_distinct:
  assumes "distinct (map fst xs)" "distinct (map fst ys)" "set xs = set ys"
  shows "map_of xs = map_of ys"
proof
  fix k
  show "map_of xs k = map_of ys k"
    using assms by (metis map_of_eq_Some_iff not_Some_eq)
qed

end
