(* ===== verification/Model.thy ===== *)
theory Model
  imports GoPrelude
begin

text \<open>
  The resources of the REST API (backend/pkg/model/workflow.go) as records, field by field. A Go
  pointer or an omitted optional struct is an \<^typ>\<open>'a option\<close>. The canvas coordinates of a node are
  kept as the text of their JSON numbers: no code computes with them.
\<close>

text \<open>A decoded JSON value (\<^verbatim>\<open>any\<close>); a number is kept as its text.\<close>

datatype json =
    JNull
  | JBool bool
  | JNum string
  | JStr string
  | JArr "json list"
  | JObj "(string \<times> json) list"

text \<open>\<^verbatim>\<open>x, _ := v.(string)\<close> and \<^verbatim>\<open>x, _ := v.(map[string]any)\<close>: the zero value if the type differs.\<close>

fun as_string :: "json \<Rightarrow> string" where
  "as_string (JStr s) = s"
| "as_string _ = []"

fun as_object :: "json \<Rightarrow> (string \<times> json) list option" where
  "as_object (JObj kvs) = Some kvs"
| "as_object _ = None"

text \<open>Reading a key of a \<^verbatim>\<open>map[string]any\<close>; a missing key gives nil.\<close>

definition jget :: "(string \<times> json) list \<Rightarrow> string \<Rightarrow> json" where
  "jget kvs k = (case map_of kvs k of Some v \<Rightarrow> v | None \<Rightarrow> JNull)"

record EventFilters =
  ef_PathPrefix :: string
  ef_Extension :: string
  ef_SpaceID :: string

record EventTrigger =
  et_Type :: string
  et_Filters :: "EventFilters option"

record WorkflowTrigger =
  wt_Type :: string
  wt_Schedule :: string
  wt_Event :: "EventTrigger option"

record NodePosition =
  np_X :: string
  np_Y :: string

record WorkflowNode =
  wn_ID :: string
  wn_Type :: string
  wn_Position :: NodePosition
  wn_Data :: "(string \<times> json) list"

record EdgeData =
  ed_Condition :: string

record WorkflowEdge =
  we_ID :: string
  we_Source :: string
  we_Target :: string
  we_Data :: "EdgeData option"

record WorkflowGraph =
  wg_Nodes :: "WorkflowNode list"
  wg_Edges :: "WorkflowEdge list"

record WorkflowDefinition =
  wd_ID :: string
  wd_Name :: string
  wd_Description :: string
  wd_Enabled :: bool
  wd_Trigger :: WorkflowTrigger
  wd_Graph :: WorkflowGraph
  wd_CreatedDateTime :: string
  wd_LastModifiedDateTime :: string

record WorkflowPatch =
  wp_Name :: "string option"
  wp_Description :: "string option"
  wp_Enabled :: "bool option"
  wp_Trigger :: "WorkflowTrigger option"
  wp_Graph :: "WorkflowGraph option"

record ErrorDetail =
  er_Code :: string
  er_Message :: string

record NodeResult =
  nr_NodeID :: string
  nr_Status :: string
  nr_Output :: json
  nr_Error :: "ErrorDetail option"

record ExecutionRecord =
  xr_ID :: string
  xr_WorkflowID :: string
  xr_TriggeredBy :: string
  xr_Status :: string
  xr_StartedDateTime :: string
  xr_CompletedDateTime :: string
  xr_NodeResults :: "NodeResult list"
  xr_Error :: "ErrorDetail option"

record AutomationStatus =
  as_Connected :: bool
  as_ExpirationDateTime :: string
  as_Reliability :: string

record Space =
  sp_ID :: string
  sp_Name :: string

text \<open>The zero values Go gives to structs declared without a literal.\<close>

definition zero_trigger :: WorkflowTrigger where
  "zero_trigger = \<lparr>wt_Type = [], wt_Schedule = [], wt_Event = None\<rparr>"

definition zero_graph :: WorkflowGraph where
  "zero_graph = \<lparr>wg_Nodes = [], wg_Edges = []\<rparr>"

end
