(* ===== verification/GoJson.thy ===== *)
theory GoJson
  imports Model
begin

text \<open>
  How encoding/json fills a Go struct from a decoded object, and how it writes one. The text of JSON
  is read and written by the package itself, which is the functions \<open>json_Unmarshal\<close>
  (a whole text), \<open>json_Decode\<close> (the first value of a stream) and \<open>json_Marshal\<close> of a codec; what the struct tags of the program decide (names, \<^verbatim>\<open>omitempty\<close>, types) is
  spelled out over \<^typ>\<open>json\<close> values. A key matches a field name up to the case of ASCII letters, the
  last matching key wins, null leaves a field as it is, and a value of another type is an error.
\<close>

record codec =
  json_Marshal :: "json \<Rightarrow> string"
  json_Unmarshal :: "string \<Rightarrow> json result"
  json_Decode :: "string \<Rightarrow> json result"

text \<open>What the package promises for a value without repeated keys, which are the values it writes.\<close>

fun json_simple :: "json \<Rightarrow> bool" where
  "json_simple (JArr xs) = list_all json_simple xs"
| "json_simple (JObj kvs) = (distinct (map fst kvs) \<and> list_all (\<lambda>(k, v). json_simple v) kvs)"
| "json_simple _ = True"

definition codec_ok :: "codec \<Rightarrow> bool" where
  "codec_ok c = (\<forall>j. json_simple j \<longrightarrow>
     json_Unmarshal c (json_Marshal c j) = Inr j \<and> json_Decode c (json_Marshal c j) = Inr j)"

definition ascii_lower :: "char \<Rightarrow> char" where
  "ascii_lower c = (if 65 \<le> (of_char c :: nat) \<and> (of_char c :: nat) \<le> 90
      then char_of ((of_char c :: nat) + 32) else c)"

definition key_matches :: "string \<Rightarrow> string \<Rightarrow> bool" where
  "key_matches name k = (k = name \<or> map ascii_lower k = map ascii_lower name)"

text \<open>A field of Go type string.\<close>

fun string_field :: "string \<Rightarrow> string \<Rightarrow> (string \<times> json) list \<Rightarrow> string result" where
  "string_field name cur [] = Inr cur"
| "string_field name cur ((k, v) # kvs) =
     (if key_matches name k
      then (case v of JStr s \<Rightarrow> string_field name s kvs
                    | JNull \<Rightarrow> string_field name cur kvs
                    | _ \<Rightarrow> Inl (Msg (''json: cannot unmarshal value into Go struct field '' @ name)))
      else string_field name cur kvs)"

text \<open>A field of Go type bool.\<close>

fun bool_field :: "string \<Rightarrow> bool \<Rightarrow> (string \<times> json) list \<Rightarrow> bool result" where
  "bool_field name cur [] = Inr cur"
| "bool_field name cur ((k, v) # kvs) =
     (if key_matches name k
      then (case v of JBool b \<Rightarrow> bool_field name b kvs
                    | JNull \<Rightarrow> bool_field name cur kvs
                    | _ \<Rightarrow> Inl (Msg (''json: cannot unmarshal value into Go struct field '' @ name)))
      else bool_field name cur kvs)"

text \<open>
  A field of any other type, given how its type is filled from a value over what the field holds.
\<close>

fun value_field :: "string \<Rightarrow> ('a \<Rightarrow> json \<Rightarrow> 'a result) \<Rightarrow> 'a \<Rightarrow> (string \<times> json) list \<Rightarrow> 'a result" where
  "value_field name dec cur [] = Inr cur"
| "value_field name dec cur ((k, v) # kvs) =
     (if key_matches name k
      then (case dec cur v of Inl e \<Rightarrow> Inl e | Inr x \<Rightarrow> value_field name dec x kvs)
      else value_field name dec cur kvs)"

text \<open>Filling a struct, a pointer to a struct whose zero value is given, and a slice.\<close>

definition dec_struct :: "('a \<Rightarrow> (string \<times> json) list \<Rightarrow> 'a result) \<Rightarrow> 'a \<Rightarrow> json \<Rightarrow> 'a result" where
  "dec_struct fill cur v =
     (case v of JObj kvs \<Rightarrow> fill cur kvs | JNull \<Rightarrow> Inr cur
              | _ \<Rightarrow> Inl (Msg ''json: cannot unmarshal value into Go struct''))"

definition dec_pointer :: "('a \<Rightarrow> json \<Rightarrow> 'a result) \<Rightarrow> 'a \<Rightarrow> 'a option \<Rightarrow> json \<Rightarrow> 'a option result" where
  "dec_pointer dec zero cur v =
     (case v of JNull \<Rightarrow> Inr None
              | _ \<Rightarrow> (case dec (case cur of None \<Rightarrow> zero | Some x \<Rightarrow> x) v of
                        Inl e \<Rightarrow> Inl e | Inr x \<Rightarrow> Inr (Some x)))"

fun dec_elements :: "('a \<Rightarrow> json \<Rightarrow> 'a result) \<Rightarrow> 'a \<Rightarrow> json list \<Rightarrow> 'a list result" where
  "dec_elements dec zero [] = Inr []"
| "dec_elements dec zero (v # vs) =
     (case dec zero v of
        Inl e \<Rightarrow> Inl e
      | Inr x \<Rightarrow> (case dec_elements dec zero vs of Inl e \<Rightarrow> Inl e | Inr xs \<Rightarrow> Inr (x # xs)))"

definition dec_slice :: "('a \<Rightarrow> json \<Rightarrow> 'a result) \<Rightarrow> 'a \<Rightarrow> 'a list \<Rightarrow> json \<Rightarrow> 'a list result" where
  "dec_slice dec zero cur v =
     (case v of JNull \<Rightarrow> Inr [] | JArr vs \<Rightarrow> dec_elements dec zero vs
              | _ \<Rightarrow> Inl (Msg ''json: cannot unmarshal value into Go slice''))"

definition dec_string :: "string \<Rightarrow> json \<Rightarrow> string result" where
  "dec_string cur v =
     (case v of JStr s \<Rightarrow> Inr s | JNull \<Rightarrow> Inr cur
              | _ \<Rightarrow> Inl (Msg ''json: cannot unmarshal value into Go value of type string''))"

lemma dec_elements_map:
  "(\<And>x. x \<in> set xs \<Longrightarrow> dec zero (enc x) = Inr x) \<Longrightarrow> dec_elements dec zero (map enc xs) = Inr xs"
  by (induction xs) auto

text \<open>
  A number is read as a float64. The model keeps its text, and rejects what the package rejects: the texts of
  numbers that round to an infinity, which are those of at least \<open>2 ^ 1024 - 2 ^ 970\<close>, positive or negative.
\<close>

definition decimal :: "string \<Rightarrow> nat" where
  "decimal s = foldl (\<lambda>n c. 10 * n + (of_char c - 48)) 0 s"

definition number_fits :: "string \<Rightarrow> bool" where
  "number_fits s =
     (let t = TrimPrefix s ''-'';
          mantissa = takeWhile (\<lambda>c. c \<noteq> CHR ''e'' \<and> c \<noteq> CHR ''E'') t;
          ex = drop (Suc (length mantissa)) t;
          e = (if HasPrefix ex ''-'' then - int (decimal (drop 1 ex)) else int (decimal (TrimPrefix ex ''+'')));
          whole = takeWhile (\<lambda>c. c \<noteq> CHR ''.'') mantissa;
          fraction = drop (Suc (length whole)) mantissa;
          m = decimal (whole @ fraction); k = e - int (length fraction)
      in if 0 \<le> k then m * 10 ^ nat k < 2 ^ 1024 - 2 ^ 970 else m < (2 ^ 1024 - 2 ^ 970) * 10 ^ nat (- k))"

lemma number_fits_examples:
  "number_fits ''0''" "number_fits ''-12.5''" "number_fits ''1e308''" "number_fits ''1.7976931348623157E+308''" "number_fits ''123e-400''"
  "\<not> number_fits ''1e309''" "\<not> number_fits ''-2E+308''" "\<not> number_fits ''1.7976931348623159e308''"
  by (simp_all add: number_fits_def decimal_def TrimPrefix_def HasPrefix_def)

fun numbers_fit :: "json \<Rightarrow> bool" where
  "numbers_fit (JNum s) = number_fits s"
| "numbers_fit (JArr xs) = list_all numbers_fit xs"
| "numbers_fit (JObj kvs) = list_all (\<lambda>(k, v). numbers_fit v) kvs"
| "numbers_fit _ = True"

definition float64_error :: go_error where
  "float64_error = Msg ''json: cannot unmarshal number into Go value of type float64''"

text \<open>
  An \<^verbatim>\<open>any\<close>: objects become maps, so of repeated keys the last counts.
\<close>

fun json_any :: "json \<Rightarrow> json" where
  "json_any (JArr xs) = JArr (map json_any xs)"
| "json_any (JObj kvs) = JObj (fold (\<lambda>(k, v) m. AList.update k v m) (map (\<lambda>(k, v). (k, json_any v)) kvs) [])"
| "json_any v = v"

lemma fold_update_distinct:
  "distinct (map fst (m @ kvs)) \<Longrightarrow> fold (\<lambda>(k, v) m. AList.update k v m) kvs m = m @ kvs"
proof (induction kvs arbitrary: m)
  case (Cons kv kvs)
  obtain k v where kv: "kv = (k, v)" by fastforce
  have "AList.update k v m' = m' @ [(k, v)]" if "k \<notin> fst ` set m'" for m'
    using that by (induction m') auto
  then have "AList.update k v m = m @ [(k, v)]" using Cons.prems kv by auto
  then show ?case using Cons.IH [of "m @ [(k, v)]"] Cons.prems kv by simp
qed simp

lemma json_any_simple: "json_simple j \<Longrightarrow> json_any j = j"
proof (induction j rule: json_any.induct)
  case (1 xs)
  then show ?case by (simp add: list_all_iff map_idI)
next
  case (2 kvs)
  have "json_any v = v" if "(k, v) \<in> set kvs" for k v
    using that 2 by (auto simp: list_all_iff)
  then have "map (\<lambda>(k, v). (k, json_any v)) kvs = kvs" by (intro map_idI) auto
  then show ?case using 2(2) fold_update_distinct [of "[]" kvs] by simp
qed simp_all

lemma string_field_map_of:
  "distinct (map fst kvs) \<Longrightarrow> (\<forall>k\<in>set (map fst kvs). key_matches name k \<longrightarrow> k = name) \<Longrightarrow>
   string_field name cur kvs = (case map_of kvs name of
       None \<Rightarrow> Inr cur | Some (JStr s) \<Rightarrow> Inr s | Some JNull \<Rightarrow> Inr cur
     | Some _ \<Rightarrow> Inl (Msg (''json: cannot unmarshal value into Go struct field '' @ name)))"
proof (induction kvs arbitrary: cur)
  case (Cons kv kvs)
  obtain k v where kv: "kv = (k, v)" by fastforce
  show ?case
  proof (cases "key_matches name k")
    case True
    then have "k = name" using Cons.prems kv by auto
    then have "map_of kvs name = None" using Cons.prems kv by (auto simp: map_of_eq_None_iff)
    then have "string_field name cur' kvs = Inr cur'" for cur' using Cons kv by simp
    then show ?thesis using True kv \<open>k = name\<close> by (simp split: json.split)
  next
    case False
    then have "k \<noteq> name" by (auto simp: key_matches_def)
    then show ?thesis using False Cons kv by simp
  qed
qed simp

end
