(* ===== verification/ModelJson.thy ===== *)
theory ModelJson
  imports GoJson
begin

text \<open>
  The JSON form of the resources: the struct tags of backend/pkg/model/workflow.go. For every struct
  \<open>enc_\<close> gives the document it is written as (a field with \<^verbatim>\<open>omitempty\<close> is left out when it holds its
  zero value) and \<open>dec_\<close> fills it from a document. A nil and an empty slice or map are one value
  here, written as the empty one, and the keys of a map keep their order.
\<close>

definition omit_string :: "string \<Rightarrow> string \<Rightarrow> (string \<times> json) list" where
  "omit_string name s = (if s = [] then [] else [(name, JStr s)])"

definition omit_pointer :: "string \<Rightarrow> ('a \<Rightarrow> json) \<Rightarrow> 'a option \<Rightarrow> (string \<times> json) list" where
  "omit_pointer name enc p = (case p of None \<Rightarrow> [] | Some x \<Rightarrow> [(name, enc x)])"

section \<open>Triggers\<close>

definition zero_filters :: EventFilters where
  "zero_filters = \<lparr>ef_PathPrefix = [], ef_Extension = [], ef_SpaceID = []\<rparr>"

definition zero_event :: EventTrigger where
  "zero_event = \<lparr>et_Type = [], et_Filters = None\<rparr>"

definition enc_filters :: "EventFilters \<Rightarrow> json" where
  "enc_filters f = JObj (omit_string ''pathPrefix'' (ef_PathPrefix f) @ omit_string ''extension'' (ef_Extension f)
     @ omit_string ''spaceId'' (ef_SpaceID f))"

definition enc_event :: "EventTrigger \<Rightarrow> json" where
  "enc_event e = JObj ((''type'', JStr (et_Type e)) # omit_pointer ''filters'' enc_filters (et_Filters e))"

definition enc_trigger :: "WorkflowTrigger \<Rightarrow> json" where
  "enc_trigger t = JObj ((''type'', JStr (wt_Type t)) # omit_string ''schedule'' (wt_Schedule t)
     @ omit_pointer ''event'' enc_event (wt_Event t))"

definition dec_filters :: "EventFilters \<Rightarrow> json \<Rightarrow> EventFilters result" where
  "dec_filters = dec_struct (\<lambda>f kvs.
     check_err (string_field ''pathPrefix'' (ef_PathPrefix f) kvs) (\<lambda>p.
     check_err (string_field ''extension'' (ef_Extension f) kvs) (\<lambda>x.
     check_err (string_field ''spaceId'' (ef_SpaceID f) kvs) (\<lambda>s.
     Inr \<lparr>ef_PathPrefix = p, ef_Extension = x, ef_SpaceID = s\<rparr>))))"

definition dec_event :: "EventTrigger \<Rightarrow> json \<Rightarrow> EventTrigger result" where
  "dec_event = dec_struct (\<lambda>e kvs.
     check_err (string_field ''type'' (et_Type e) kvs) (\<lambda>t.
     check_err (value_field ''filters'' (dec_pointer dec_filters zero_filters) (et_Filters e) kvs) (\<lambda>f.
     Inr \<lparr>et_Type = t, et_Filters = f\<rparr>)))"

definition dec_trigger :: "WorkflowTrigger \<Rightarrow> json \<Rightarrow> WorkflowTrigger result" where
  "dec_trigger = dec_struct (\<lambda>t kvs.
     check_err (string_field ''type'' (wt_Type t) kvs) (\<lambda>ty.
     check_err (string_field ''schedule'' (wt_Schedule t) kvs) (\<lambda>s.
     check_err (value_field ''event'' (dec_pointer dec_event zero_event) (wt_Event t) kvs) (\<lambda>e.
     Inr \<lparr>wt_Type = ty, wt_Schedule = s, wt_Event = e\<rparr>))))"

section \<open>Graphs\<close>

definition enc_position :: "NodePosition \<Rightarrow> json" where
  "enc_position p = JObj [(''x'', JNum (np_X p)), (''y'', JNum (np_Y p))]"

definition enc_node :: "WorkflowNode \<Rightarrow> json" where
  "enc_node n = JObj [(''id'', JStr (wn_ID n)), (''type'', JStr (wn_Type n)),
     (''position'', enc_position (wn_Position n)), (''data'', JObj (wn_Data n))]"

definition enc_edge_data :: "EdgeData \<Rightarrow> json" where
  "enc_edge_data d = JObj (omit_string ''condition'' (ed_Condition d))"

definition enc_edge :: "WorkflowEdge \<Rightarrow> json" where
  "enc_edge e = JObj ((''id'', JStr (we_ID e)) # (''source'', JStr (we_Source e)) #
     (''target'', JStr (we_Target e)) # omit_pointer ''data'' enc_edge_data (we_Data e))"

definition enc_graph :: "WorkflowGraph \<Rightarrow> json" where
  "enc_graph g = JObj [(''nodes'', JArr (map enc_node (wg_Nodes g))), (''edges'', JArr (map enc_edge (wg_Edges g)))]"

definition zero_node :: WorkflowNode where
  "zero_node = \<lparr>wn_ID = [], wn_Type = [], wn_Position = \<lparr>np_X = ''0'', np_Y = ''0''\<rparr>, wn_Data = []\<rparr>"

definition zero_edge :: WorkflowEdge where
  "zero_edge = \<lparr>we_ID = [], we_Source = [], we_Target = [], we_Data = None\<rparr>"

definition dec_number :: "string \<Rightarrow> json \<Rightarrow> string result" where
  "dec_number cur v = (case v of JNum s \<Rightarrow> (if number_fits s then Inr s else Inl float64_error) | JNull \<Rightarrow> Inr cur
     | _ \<Rightarrow> Inl (Msg ''json: cannot unmarshal value into Go value of type float64''))"

definition dec_position :: "NodePosition \<Rightarrow> json \<Rightarrow> NodePosition result" where
  "dec_position = dec_struct (\<lambda>p kvs.
     check_err (value_field ''x'' dec_number (np_X p) kvs) (\<lambda>x.
     check_err (value_field ''y'' dec_number (np_Y p) kvs) (\<lambda>y.
     Inr \<lparr>np_X = x, np_Y = y\<rparr>)))"

text \<open>An \<^verbatim>\<open>any\<close>, and a \<^verbatim>\<open>map[string]any\<close>: a second object is merged into the first.\<close>

definition dec_any :: "json \<Rightarrow> json \<Rightarrow> json result" where
  "dec_any cur v = (if numbers_fit v then Inr (json_any v) else Inl float64_error)"

definition dec_map :: "(string \<times> json) list \<Rightarrow> json \<Rightarrow> (string \<times> json) list result" where
  "dec_map cur v =
     (case v of JNull \<Rightarrow> Inr []
      | JObj kvs \<Rightarrow> if \<not> numbers_fit v then Inl float64_error else Inr (fold (\<lambda>(k, v) m. AList.update k v m) (map (\<lambda>(k, v). (k, json_any v)) kvs) cur)
      | _ \<Rightarrow> Inl (Msg ''json: cannot unmarshal value into Go value of type map[string]any''))"

definition dec_node :: "WorkflowNode \<Rightarrow> json \<Rightarrow> WorkflowNode result" where
  "dec_node = dec_struct (\<lambda>n kvs.
     check_err (string_field ''id'' (wn_ID n) kvs) (\<lambda>i.
     check_err (string_field ''type'' (wn_Type n) kvs) (\<lambda>t.
     check_err (value_field ''position'' dec_position (wn_Position n) kvs) (\<lambda>p.
     check_err (value_field ''data'' dec_map (wn_Data n) kvs) (\<lambda>d.
     Inr \<lparr>wn_ID = i, wn_Type = t, wn_Position = p, wn_Data = d\<rparr>)))))"

definition dec_edge_data :: "EdgeData \<Rightarrow> json \<Rightarrow> EdgeData result" where
  "dec_edge_data = dec_struct (\<lambda>d kvs.
     check_err (string_field ''condition'' (ed_Condition d) kvs) (\<lambda>c. Inr \<lparr>ed_Condition = c\<rparr>))"

definition dec_edge :: "WorkflowEdge \<Rightarrow> json \<Rightarrow> WorkflowEdge result" where
  "dec_edge = dec_struct (\<lambda>e kvs.
     check_err (string_field ''id'' (we_ID e) kvs) (\<lambda>i.
     check_err (string_field ''source'' (we_Source e) kvs) (\<lambda>s.
     check_err (string_field ''target'' (we_Target e) kvs) (\<lambda>t.
     check_err (value_field ''data'' (dec_pointer dec_edge_data \<lparr>ed_Condition = []\<rparr>) (we_Data e) kvs) (\<lambda>d.
     Inr \<lparr>we_ID = i, we_Source = s, we_Target = t, we_Data = d\<rparr>)))))"

definition dec_graph :: "WorkflowGraph \<Rightarrow> json \<Rightarrow> WorkflowGraph result" where
  "dec_graph = dec_struct (\<lambda>g kvs.
     check_err (value_field ''nodes'' (dec_slice dec_node zero_node) (wg_Nodes g) kvs) (\<lambda>ns.
     check_err (value_field ''edges'' (dec_slice dec_edge zero_edge) (wg_Edges g) kvs) (\<lambda>es.
     Inr \<lparr>wg_Nodes = ns, wg_Edges = es\<rparr>)))"

section \<open>Workflows\<close>

definition zero_workflow :: WorkflowDefinition where
  "zero_workflow = \<lparr>wd_ID = [], wd_Name = [], wd_Description = [], wd_Enabled = False,
     wd_Trigger = zero_trigger, wd_Graph = zero_graph, wd_CreatedDateTime = [], wd_LastModifiedDateTime = []\<rparr>"

definition enc_workflow :: "WorkflowDefinition \<Rightarrow> json" where
  "enc_workflow d = JObj ((''id'', JStr (wd_ID d)) # (''name'', JStr (wd_Name d)) #
     omit_string ''description'' (wd_Description d) @
     [(''enabled'', JBool (wd_Enabled d)), (''trigger'', enc_trigger (wd_Trigger d)),
      (''graph'', enc_graph (wd_Graph d)), (''createdDateTime'', JStr (wd_CreatedDateTime d)),
      (''lastModifiedDateTime'', JStr (wd_LastModifiedDateTime d))])"

definition dec_workflow :: "WorkflowDefinition \<Rightarrow> json \<Rightarrow> WorkflowDefinition result" where
  "dec_workflow = dec_struct (\<lambda>d kvs.
     check_err (string_field ''id'' (wd_ID d) kvs) (\<lambda>i.
     check_err (string_field ''name'' (wd_Name d) kvs) (\<lambda>n.
     check_err (string_field ''description'' (wd_Description d) kvs) (\<lambda>de.
     check_err (bool_field ''enabled'' (wd_Enabled d) kvs) (\<lambda>en.
     check_err (value_field ''trigger'' dec_trigger (wd_Trigger d) kvs) (\<lambda>t.
     check_err (value_field ''graph'' dec_graph (wd_Graph d) kvs) (\<lambda>g.
     check_err (string_field ''createdDateTime'' (wd_CreatedDateTime d) kvs) (\<lambda>c.
     check_err (string_field ''lastModifiedDateTime'' (wd_LastModifiedDateTime d) kvs) (\<lambda>m.
     Inr \<lparr>wd_ID = i, wd_Name = n, wd_Description = de, wd_Enabled = en, wd_Trigger = t, wd_Graph = g,
          wd_CreatedDateTime = c, wd_LastModifiedDateTime = m\<rparr>)))))))))"

definition zero_patch :: WorkflowPatch where
  "zero_patch = \<lparr>wp_Name = None, wp_Description = None, wp_Enabled = None, wp_Trigger = None, wp_Graph = None\<rparr>"

definition dec_bool :: "bool \<Rightarrow> json \<Rightarrow> bool result" where
  "dec_bool cur v = (case v of JBool b \<Rightarrow> Inr b | JNull \<Rightarrow> Inr cur
     | _ \<Rightarrow> Inl (Msg ''json: cannot unmarshal value into Go value of type bool''))"

definition dec_patch :: "WorkflowPatch \<Rightarrow> json \<Rightarrow> WorkflowPatch result" where
  "dec_patch = dec_struct (\<lambda>p kvs.
     check_err (value_field ''name'' (dec_pointer dec_string []) (wp_Name p) kvs) (\<lambda>n.
     check_err (value_field ''description'' (dec_pointer dec_string []) (wp_Description p) kvs) (\<lambda>d.
     check_err (value_field ''enabled'' (dec_pointer dec_bool False) (wp_Enabled p) kvs) (\<lambda>e.
     check_err (value_field ''trigger'' (dec_pointer dec_trigger zero_trigger) (wp_Trigger p) kvs) (\<lambda>t.
     check_err (value_field ''graph'' (dec_pointer dec_graph zero_graph) (wp_Graph p) kvs) (\<lambda>g.
     Inr \<lparr>wp_Name = n, wp_Description = d, wp_Enabled = e, wp_Trigger = t, wp_Graph = g\<rparr>))))))"

section \<open>Executions\<close>

definition enc_error :: "ErrorDetail \<Rightarrow> json" where
  "enc_error e = JObj [(''code'', JStr (er_Code e)), (''message'', JStr (er_Message e))]"

definition enc_result :: "NodeResult \<Rightarrow> json" where
  "enc_result r = JObj ((''nodeId'', JStr (nr_NodeID r)) # (''status'', JStr (nr_Status r)) #
     (if nr_Output r = JNull then [] else [(''output'', nr_Output r)]) @ omit_pointer ''error'' enc_error (nr_Error r))"

definition enc_execution :: "ExecutionRecord \<Rightarrow> json" where
  "enc_execution x = JObj ((''id'', JStr (xr_ID x)) # (''workflowId'', JStr (xr_WorkflowID x)) #
     (''triggeredBy'', JStr (xr_TriggeredBy x)) # (''status'', JStr (xr_Status x)) #
     (''startedDateTime'', JStr (xr_StartedDateTime x)) # omit_string ''completedDateTime'' (xr_CompletedDateTime x)
     @ (''nodeResults'', JArr (map enc_result (xr_NodeResults x))) # omit_pointer ''error'' enc_error (xr_Error x))"

definition zero_error :: ErrorDetail where
  "zero_error = \<lparr>er_Code = [], er_Message = []\<rparr>"

definition zero_result :: NodeResult where
  "zero_result = \<lparr>nr_NodeID = [], nr_Status = [], nr_Output = JNull, nr_Error = None\<rparr>"

definition zero_execution :: ExecutionRecord where
  "zero_execution = \<lparr>xr_ID = [], xr_WorkflowID = [], xr_TriggeredBy = [], xr_Status = [],
     xr_StartedDateTime = [], xr_CompletedDateTime = [], xr_NodeResults = [], xr_Error = None\<rparr>"

definition dec_error :: "ErrorDetail \<Rightarrow> json \<Rightarrow> ErrorDetail result" where
  "dec_error = dec_struct (\<lambda>e kvs.
     check_err (string_field ''code'' (er_Code e) kvs) (\<lambda>c.
     check_err (string_field ''message'' (er_Message e) kvs) (\<lambda>m. Inr \<lparr>er_Code = c, er_Message = m\<rparr>)))"

definition dec_result :: "NodeResult \<Rightarrow> json \<Rightarrow> NodeResult result" where
  "dec_result = dec_struct (\<lambda>r kvs.
     check_err (string_field ''nodeId'' (nr_NodeID r) kvs) (\<lambda>n.
     check_err (string_field ''status'' (nr_Status r) kvs) (\<lambda>s.
     check_err (value_field ''output'' dec_any (nr_Output r) kvs) (\<lambda>out.
     check_err (value_field ''error'' (dec_pointer dec_error zero_error) (nr_Error r) kvs) (\<lambda>e.
     Inr \<lparr>nr_NodeID = n, nr_Status = s, nr_Output = out, nr_Error = e\<rparr>)))))"

definition dec_execution :: "ExecutionRecord \<Rightarrow> json \<Rightarrow> ExecutionRecord result" where
  "dec_execution = dec_struct (\<lambda>x kvs.
     check_err (string_field ''id'' (xr_ID x) kvs) (\<lambda>i.
     check_err (string_field ''workflowId'' (xr_WorkflowID x) kvs) (\<lambda>w.
     check_err (string_field ''triggeredBy'' (xr_TriggeredBy x) kvs) (\<lambda>t.
     check_err (string_field ''status'' (xr_Status x) kvs) (\<lambda>s.
     check_err (string_field ''startedDateTime'' (xr_StartedDateTime x) kvs) (\<lambda>st.
     check_err (string_field ''completedDateTime'' (xr_CompletedDateTime x) kvs) (\<lambda>co.
     check_err (value_field ''nodeResults'' (dec_slice dec_result zero_result) (xr_NodeResults x) kvs) (\<lambda>rs.
     check_err (value_field ''error'' (dec_pointer dec_error zero_error) (xr_Error x) kvs) (\<lambda>e.
     Inr \<lparr>xr_ID = i, xr_WorkflowID = w, xr_TriggeredBy = t, xr_Status = s, xr_StartedDateTime = st,
          xr_CompletedDateTime = co, xr_NodeResults = rs, xr_Error = e\<rparr>)))))))))"

section \<open>Reading back what was written\<close>

named_theorems enc_dec \<open>decoding an encoded value gives it back\<close>

lemmas json_fields = dec_struct_def dec_pointer_def dec_slice_def key_matches_def ascii_lower_def
  omit_string_def omit_pointer_def

lemma dec_enc_filters [enc_dec]: "dec_filters zero_filters (enc_filters f) = Inr f"
  by (simp add: dec_filters_def enc_filters_def zero_filters_def json_fields)

lemma dec_enc_event [enc_dec]: "dec_event zero_event (enc_event e) = Inr e"
  using dec_enc_filters
  by (auto simp: dec_event_def enc_event_def zero_event_def json_fields enc_filters_def split: option.split)

lemma dec_enc_trigger [enc_dec]: "dec_trigger zero_trigger (enc_trigger t) = Inr t"
  using dec_enc_event
  by (auto simp: dec_trigger_def enc_trigger_def zero_trigger_def json_fields enc_event_def split: option.split)

definition position_simple :: "NodePosition \<Rightarrow> bool" where
  "position_simple p = (number_fits (np_X p) \<and> number_fits (np_Y p))"

lemma dec_enc_position [enc_dec]: "position_simple p \<Longrightarrow> dec_position p0 (enc_position p) = Inr p"
  by (simp add: dec_position_def enc_position_def json_fields dec_number_def position_simple_def)

lemma json_any_map: "json_simple (JObj kvs) \<Longrightarrow> numbers_fit (JObj kvs) \<Longrightarrow> dec_map [] (JObj kvs) = Inr kvs"
  using json_any_simple [of "JObj kvs"] by (simp add: dec_map_def)

definition node_simple :: "WorkflowNode \<Rightarrow> bool" where
  "node_simple n = (json_simple (JObj (wn_Data n)) \<and> numbers_fit (JObj (wn_Data n)) \<and> position_simple (wn_Position n))"

lemma dec_enc_node [enc_dec]: "node_simple n \<Longrightarrow> dec_node zero_node (enc_node n) = Inr n"
  using dec_enc_position json_any_map [of "wn_Data n"]
  by (simp add: dec_node_def enc_node_def zero_node_def json_fields node_simple_def)

lemma dec_enc_edge_data [enc_dec]: "dec_edge_data \<lparr>ed_Condition = []\<rparr> (enc_edge_data d) = Inr d"
  by (simp add: dec_edge_data_def enc_edge_data_def json_fields)

lemma dec_enc_edge [enc_dec]: "dec_edge zero_edge (enc_edge e) = Inr e"
  using dec_enc_edge_data
  by (auto simp: dec_edge_def enc_edge_def zero_edge_def json_fields enc_edge_data_def split: option.split)

definition graph_simple :: "WorkflowGraph \<Rightarrow> bool" where
  "graph_simple g = list_all node_simple (wg_Nodes g)"

lemma dec_enc_graph [enc_dec]: "graph_simple g \<Longrightarrow> dec_graph zero_graph (enc_graph g) = Inr g"
  by (simp add: dec_graph_def enc_graph_def zero_graph_def json_fields graph_simple_def list_all_iff
      dec_elements_map enc_dec)

lemma dec_enc_workflow [enc_dec]:
  "graph_simple (wd_Graph d) \<Longrightarrow> dec_workflow zero_workflow (enc_workflow d) = Inr d"
  by (simp add: dec_workflow_def enc_workflow_def zero_workflow_def json_fields enc_dec)

lemma dec_enc_error [enc_dec]: "dec_error zero_error (enc_error e) = Inr e"
  by (simp add: dec_error_def enc_error_def zero_error_def json_fields)

definition result_simple :: "NodeResult \<Rightarrow> bool" where
  "result_simple r = (json_simple (nr_Output r) \<and> numbers_fit (nr_Output r))"

lemma dec_enc_result [enc_dec]: "result_simple r \<Longrightarrow> dec_result zero_result (enc_result r) = Inr r"
  using dec_enc_error json_any_simple [of "nr_Output r"]
  by (auto simp: dec_result_def enc_result_def zero_result_def json_fields result_simple_def dec_any_def enc_error_def
      split: option.split)

definition execution_simple :: "ExecutionRecord \<Rightarrow> bool" where
  "execution_simple x = list_all result_simple (xr_NodeResults x)"

lemma dec_enc_execution [enc_dec]:
  "execution_simple x \<Longrightarrow> dec_execution zero_execution (enc_execution x) = Inr x"
  using dec_enc_error
  by (auto simp: dec_execution_def enc_execution_def zero_execution_def json_fields execution_simple_def
      list_all_iff dec_elements_map dec_enc_result enc_error_def split: option.split)

lemma simple_trigger: "json_simple (enc_trigger t)"
  by (auto simp: enc_trigger_def enc_event_def enc_filters_def omit_string_def omit_pointer_def split: option.split)

lemma simple_node: "node_simple n \<Longrightarrow> json_simple (enc_node n)"
  by (simp add: enc_node_def enc_position_def node_simple_def)

lemma simple_edge: "json_simple (enc_edge e)"
  by (auto simp: enc_edge_def enc_edge_data_def omit_string_def omit_pointer_def split: option.split)

lemma simple_graph: "graph_simple g \<Longrightarrow> json_simple (enc_graph g)"
  by (auto simp: enc_graph_def graph_simple_def list_all_iff simple_node simple_edge)

lemma simple_workflow: "graph_simple (wd_Graph d) \<Longrightarrow> json_simple (enc_workflow d)"
  by (simp add: enc_workflow_def simple_graph simple_trigger omit_string_def)

lemma simple_result: "result_simple r \<Longrightarrow> json_simple (enc_result r)"
  by (auto simp: enc_result_def enc_error_def result_simple_def omit_pointer_def split: option.split)

lemma simple_execution: "execution_simple x \<Longrightarrow> json_simple (enc_execution x)"
  by (auto simp: enc_execution_def enc_error_def execution_simple_def list_all_iff simple_result omit_string_def
      omit_pointer_def split: option.split)

end
