(* ===== verification/Http.thy ===== *)
theory Http
  imports GoJson
begin

text \<open>
  HTTP as the clients of the backend use it. A request is its method, URL, headers and body; the
  transport is a function on the world (record \<open>http\<close>), with the URL parser of the standard library.
  A response body is the bytes that arrive before the end or an error. Then the escaping functions
  of net/url and \<^verbatim>\<open>time.Duration\<close>'s decimal form, and XML documents as trees.
\<close>

section \<open>Requests and responses\<close>

record Request =
  rq_Method :: string
  rq_URL :: string
  rq_Header :: vars
  rq_Body :: string

record Response =
  rs_Status :: int
  rs_Body :: "string \<times> go_error option"

record 'w http =
  ht_ParseURL :: "string \<Rightarrow> unit result"
  ht_Do :: "Request \<Rightarrow> 'w \<Rightarrow> Response result \<times> 'w"

text \<open>\<^verbatim>\<open>http.NewRequestWithContext\<close> and \<^verbatim>\<open>req.Header.Set\<close>; the names set are in canonical form already.\<close>

definition NewRequest :: "'w http \<Rightarrow> string \<Rightarrow> string \<Rightarrow> string \<Rightarrow> Request result" where
  "NewRequest ht method url body =
     check_err (ht_ParseURL ht url) (\<lambda>_. Inr \<lparr>rq_Method = method, rq_URL = url, rq_Header = [], rq_Body = body\<rparr>)"

definition Header_Set :: "string \<Rightarrow> string \<Rightarrow> Request \<Rightarrow> Request" where
  "Header_Set name v req = req\<lparr>rq_Header := vset name v (rq_Header req)\<rparr>"

text \<open>Building a request, adding headers and sending it; the continuation gets the response.\<close>

definition send :: "'w http \<Rightarrow> string \<Rightarrow> string \<Rightarrow> (string \<times> string) list \<Rightarrow> string \<Rightarrow> 'w
    \<Rightarrow> Response result \<times> 'w" where
  "send ht method url headers body w =
     (case NewRequest ht method url body of
        Inl e \<Rightarrow> (Inl e, w)
      | Inr req \<Rightarrow> ht_Do ht (fold (\<lambda>(n, v). Header_Set n v) headers req) w)"

definition ReadAll :: "Response \<Rightarrow> string result" where
  "ReadAll res = (case rs_Body res of (s, None) \<Rightarrow> Inr s | (s, Some e) \<Rightarrow> Inl e)"

definition DecodeBody :: "codec \<Rightarrow> Response \<Rightarrow> json result" where
  "DecodeBody c res = (case rs_Body res of (s, e) \<Rightarrow>
     (case json_Decode c s of
        Inr j \<Rightarrow> Inr j
      | Inl d \<Rightarrow> Inl (case e of None \<Rightarrow> d | Some e \<Rightarrow> e)))"

text \<open>
  The step after an operation on the world that can fail: go on with the value, or hand the error
  up; and \<^verbatim>\<open>fmt.Errorf("...: %w", err)\<close> around the error of an operation.
\<close>

definition and_then :: "'a result \<times> 'w \<Rightarrow> ('a \<Rightarrow> 'w \<Rightarrow> 'b result \<times> 'w) \<Rightarrow> 'b result \<times> 'w" where
  "and_then x f = (case x of (Inl e, w) \<Rightarrow> (Inl e, w) | (Inr v, w) \<Rightarrow> f v w)"

definition wrap_err :: "string \<Rightarrow> 'a result \<times> 'w \<Rightarrow> 'a result \<times> 'w" where
  "wrap_err s x = (case x of (Inl e, w) \<Rightarrow> (Inl (Wrap s e), w) | (Inr v, w) \<Rightarrow> (Inr v, w))"

lemma and_then_simps [simp]: "and_then (Inl e, w) f = (Inl e, w)" "and_then (Inr v, w) f = f v w"
  by (simp_all add: and_then_def)

lemma wrap_err_simps [simp]: "wrap_err s (Inl e, w) = (Inl (Wrap s e), w)" "wrap_err s (Inr v, w) = (Inr v, w)"
  by (simp_all add: wrap_err_def)

lemma snd_wrap_err [simp]: "snd (wrap_err s x) = snd x"
  by (auto simp: wrap_err_def split: prod.split sum.split)

text \<open>The request \<open>send\<close> makes of its arguments.\<close>

definition request :: "string \<Rightarrow> string \<Rightarrow> (string \<times> string) list \<Rightarrow> string \<Rightarrow> Request" where
  "request method url headers body =
     fold (\<lambda>(n, v). Header_Set n v) headers \<lparr>rq_Method = method, rq_URL = url, rq_Header = [], rq_Body = body\<rparr>"

lemma send_request:
  "ht_ParseURL ht url = Inr () \<Longrightarrow> send ht method url headers body w = ht_Do ht (request method url headers body) w"
  by (simp add: send_def NewRequest_def request_def)

lemma fold_Header_Set [simp]:
  "rq_Method (fold (\<lambda>(n, v). Header_Set n v) hs req) = rq_Method req"
  "rq_URL (fold (\<lambda>(n, v). Header_Set n v) hs req) = rq_URL req"
  "rq_Body (fold (\<lambda>(n, v). Header_Set n v) hs req) = rq_Body req"
  by (induction hs arbitrary: req) (auto simp: Header_Set_def)

lemma request_sel [simp]: "rq_Method (request m u h b) = m" "rq_URL (request m u h b) = u" "rq_Body (request m u h b) = b"
  by (simp_all add: request_def)

section \<open>Escaping\<close>

definition hex_upper :: "nat \<Rightarrow> char" where
  "hex_upper n = (if n < 10 then char_of (48 + n) else char_of (55 + n))"

definition pct :: "char \<Rightarrow> string" where
  "pct c = CHR ''%'' # [hex_upper (of_char c div 16), hex_upper (of_char c mod 16)]"

definition unreserved :: "char \<Rightarrow> bool" where
  "unreserved c = ((48 \<le> (of_char c :: nat) \<and> (of_char c :: nat) \<le> 57) \<or> (65 \<le> (of_char c :: nat) \<and> (of_char c :: nat) \<le> 90)
     \<or> (97 \<le> (of_char c :: nat) \<and> (of_char c :: nat) \<le> 122) \<or> c \<in> set ''-_.~'')"

definition PathEscape :: "string \<Rightarrow> string" where
  "PathEscape s = concat (map (\<lambda>c. if unreserved c \<or> c \<in> set ''$&+=:@'' then [c] else pct c) s)"

definition EscapedPath :: "string \<Rightarrow> string" where
  "EscapedPath s =
     (if s = ''*'' then s
      else concat (map (\<lambda>c. if unreserved c \<or> c \<in> set ''$&+,/:;=@'' then [c] else pct c) s))"

definition QueryEscape :: "string \<Rightarrow> string" where
  "QueryEscape s =
     concat (map (\<lambda>c. if unreserved c then [c] else if c = CHR '' '' then ''+'' else pct c) s)"

text \<open>\<^verbatim>\<open>url.Values.Encode\<close> of pairs given in the order of their keys.\<close>

fun Values_Encode :: "(string \<times> string) list \<Rightarrow> string" where
  "Values_Encode [] = []"
| "Values_Encode [(k, v)] = QueryEscape k @ ''='' @ QueryEscape v"
| "Values_Encode ((k, v) # kvs) = QueryEscape k @ ''='' @ QueryEscape v @ ''&'' @ Values_Encode kvs"

section \<open>XML\<close>

datatype xml = XElem string "xml list" | XText string

fun xml_name :: "xml \<Rightarrow> string" where
  "xml_name (XElem n cs) = n"
| "xml_name (XText s) = []"

fun children :: "string \<Rightarrow> xml \<Rightarrow> xml list" where
  "children name (XElem n cs) = filter (\<lambda>x. xml_name x = name) cs"
| "children name (XText s) = []"

fun text_of :: "xml \<Rightarrow> string" where
  "text_of (XElem n cs) = concat (map (\<lambda>x. case x of XText s \<Rightarrow> s | XElem _ _ \<Rightarrow> []) cs)"
| "text_of (XText s) = s"

text \<open>A string field of a struct: the text of the last element of that name.\<close>

definition last_text :: "xml list \<Rightarrow> string" where
  "last_text xs = (if xs = [] then [] else text_of (last xs))"

end
