(* ===== verification/RestApi.thy ===== *)
theory RestApi
  imports ModelJson Http
begin

text \<open>
  What the HTTP handlers of the backend see and produce: a request with the parts they read, the
  response they write (the status, the headers they set, the body), \<^verbatim>\<open>writeJSON\<close> and \<^verbatim>\<open>writeError\<close>
  (backend/pkg/service/workflows.go; backend/pkg/auth has the same \<^verbatim>\<open>writeError\<close>), and the JSON form of
  the list and error envelopes.
\<close>

record ApiRequest =
  rr_Origin :: string
  rr_Authorization :: string
  rr_Params :: vars
  rr_ContentLength :: int
  rr_Body :: "string \<times> go_error option"

record ApiResponse =
  rp_Status :: int
  rp_Header :: vars
  rp_Body :: string

text \<open>\<^verbatim>\<open>json.NewDecoder(r.Body).Decode\<close>: the first value of the body, or an error.\<close>

definition DecodeRequest :: "codec \<Rightarrow> ApiRequest \<Rightarrow> json result" where
  "DecodeRequest c r = DecodeBody c \<lparr>rs_Status = 200, rs_Body = rr_Body r\<rparr>"

text \<open>\<^verbatim>\<open>writeJSON\<close>: the encoder ends the document with a line feed.\<close>

definition writeJSON :: "codec \<Rightarrow> int \<Rightarrow> json \<Rightarrow> ApiResponse" where
  "writeJSON c status body =
     \<lparr>rp_Status = status, rp_Header = [(''Content-Type'', ''application/json'')],
      rp_Body = json_Marshal c body @ [CHR 0x0A]\<rparr>"

definition enc_ErrorResponse :: "ErrorDetail \<Rightarrow> json" where
  "enc_ErrorResponse e = JObj [(''error'', enc_error e)]"

definition writeError :: "codec \<Rightarrow> int \<Rightarrow> string \<Rightarrow> string \<Rightarrow> ApiResponse" where
  "writeError c status code message =
     writeJSON c status (enc_ErrorResponse \<lparr>er_Code = code, er_Message = message\<rparr>)"

text \<open>\<^verbatim>\<open>w.WriteHeader(status)\<close> without a body.\<close>

definition writeHeader :: "int \<Rightarrow> vars \<Rightarrow> ApiResponse" where
  "writeHeader status headers = \<lparr>rp_Status = status, rp_Header = headers, rp_Body = []\<rparr>"

definition enc_Collection :: "('a \<Rightarrow> json) \<Rightarrow> 'a list \<Rightarrow> json" where
  "enc_Collection enc xs = JObj [(''value'', JArr (map enc xs))]"

definition enc_AutomationStatus :: "AutomationStatus \<Rightarrow> json" where
  "enc_AutomationStatus s = JObj ((''connected'', JBool (as_Connected s)) #
     omit_string ''expirationDateTime'' (as_ExpirationDateTime s) @ omit_string ''reliability'' (as_Reliability s))"

definition enc_Space :: "Space \<Rightarrow> json" where
  "enc_Space s = JObj [(''id'', JStr (sp_ID s)), (''name'', JStr (sp_Name s))]"

lemma response_status [simp]:
  "rp_Status (writeJSON c n j) = n" "rp_Status (writeError c n code m) = n" "rp_Status (writeHeader n hs) = n"
  by (simp_all add: writeJSON_def writeError_def writeHeader_def)

end
