(* ===== verification/Auth.thy ===== *)
theory Auth
  imports RestApi
begin

text \<open>
  backend/pkg/auth: every request must come from the allowed origin and carry a bearer token that
  the identity provider of oCIS accepts. \<open>Validator\<close> holds the configuration, the transport and the
  URL parser (scheme and host); the discovered userinfo endpoint is the state of the validator and is
  passed along explicitly. A handler behind the middleware acts on a state \<open>'s\<close> and the world, and
  gets the token as the value in the request's context.
\<close>

record 'w Validator =
  va_ocisURL :: string
  va_allowedOrigin :: string
  va_http :: "'w http"
  va_codec :: codec
  va_Parse :: "string \<Rightarrow> (string \<times> string) result"

definition NewValidator :: "string \<Rightarrow> string \<Rightarrow> 'w http \<Rightarrow> codec \<Rightarrow> (string \<Rightarrow> (string \<times> string) result) \<Rightarrow> 'w Validator" where
  "NewValidator ocisURL allowedOrigin ht k parse =
     \<lparr>va_ocisURL = TrimRight (CHR ''/'') ocisURL, va_allowedOrigin = allowedOrigin, va_http = ht, va_codec = k, va_Parse = parse\<rparr>"

type_synonym ('s, 'w) handler = "string option \<Rightarrow> ApiRequest \<Rightarrow> 's \<Rightarrow> 'w \<Rightarrow> ApiResponse \<times> 's \<times> 'w"

section \<open>Validating a token\<close>

definition discover :: "'w Validator \<Rightarrow> string \<Rightarrow> 'w \<Rightarrow> string result \<times> string \<times> 'w" where
  "discover v cached w =
     (if cached \<noteq> [] then (Inr cached, cached, w)
      else case send (va_http v) ''GET'' (va_ocisURL v @ ''/.well-known/openid-configuration'') [] [] w of
        (Inl err, w1) \<Rightarrow> (Inl err, cached, w1)
      | (Inr res, w1) \<Rightarrow>
          if rs_Status res \<noteq> 200
          then (Inl (Msg (''oidc discovery returned status '' @ show_int (rs_Status res))), cached, w1)
          else (case check_err (DecodeBody (va_codec v) res) (dec_struct (string_field ''userinfo_endpoint'') []) of
                  Inl err \<Rightarrow> (Inl err, cached, w1)
                | Inr endpoint \<Rightarrow>
                    if endpoint = [] then (Inl (Msg ''oidc discovery document has no userinfo_endpoint''), cached, w1)
                    else (Inr endpoint, endpoint, w1)))"

definition Validate :: "'w Validator \<Rightarrow> string \<Rightarrow> string \<Rightarrow> 'w \<Rightarrow> unit result \<times> string \<times> 'w" where
  "Validate v token cached w =
     (case discover v cached w of
        (Inl err, cached1, w1) \<Rightarrow> (Inl (Wrap ''discover userinfo endpoint'' err), cached1, w1)
      | (Inr endpoint, cached1, w1) \<Rightarrow>
          (case send (va_http v) ''GET'' endpoint [(''Authorization'', ''Bearer '' @ token)] [] w1 of
             (Inl err, w2) \<Rightarrow> (Inl err, cached1, w2)
           | (Inr res, w2) \<Rightarrow>
               (if rs_Status res \<noteq> 200
                then Inl (Msg (''userinfo endpoint returned status '' @ show_int (rs_Status res)))
                else Inr (), cached1, w2)))"

definition OriginAllowed :: "'w Validator \<Rightarrow> string \<Rightarrow> bool" where
  "OriginAllowed v origin =
     (if origin = [] then True
      else case va_Parse v (va_allowedOrigin v) of
        Inl err \<Rightarrow> False
      | Inr (scheme, host) \<Rightarrow>
          (case va_Parse v origin of
             Inl err \<Rightarrow> False
           | Inr (gotScheme, gotHost) \<Rightarrow> gotScheme = scheme \<and> gotHost = host))"

definition bearerToken :: "string \<Rightarrow> string" where
  "bearerToken header = (if \<not> HasPrefix header ''Bearer '' then [] else TrimPrefix header ''Bearer '')"

text \<open>The token in the context of a request; an empty one does not count.\<close>

definition TokenFromContext :: "string option \<Rightarrow> string option" where
  "TokenFromContext ctx = (case ctx of Some token \<Rightarrow> if token \<noteq> [] then Some token else None | None \<Rightarrow> None)"

definition Middleware :: "'w Validator \<Rightarrow> ('s, 'w) handler \<Rightarrow> ApiRequest \<Rightarrow> string \<Rightarrow> 's \<Rightarrow> 'w
    \<Rightarrow> ApiResponse \<times> string \<times> 's \<times> 'w" where
  "Middleware v next_handler r cached st w =
     (if \<not> OriginAllowed v (rr_Origin r)
      then (writeError (va_codec v) 403 ''originNotAllowed'' ''request origin is not allowed'', cached, st, w)
      else let token = bearerToken (rr_Authorization r) in
        if token = [] then (writeError (va_codec v) 401 ''unauthenticated'' ''missing bearer token'', cached, st, w)
        else (case Validate v token cached w of
           (Inl err, cached1, w1) \<Rightarrow>
             (writeError (va_codec v) 401 ''unauthenticated'' ''invalid or expired bearer token'', cached1, st, w1)
         | (Inr _, cached1, w1) \<Rightarrow>
             (case next_handler (Some token) r st w1 of (res, st1, w2) \<Rightarrow> (res, cached1, st1, w2))))"

section \<open>Only authenticated requests reach a handler\<close>

text \<open>The provider accepts a token: the userinfo endpoint answers a request that bears it with 200.\<close>

definition accepted_by :: "'w Validator \<Rightarrow> string \<Rightarrow> string \<Rightarrow> 'w \<Rightarrow> 'w \<Rightarrow> bool" where
  "accepted_by v endpoint token w1 w2 =
     (\<exists>res. send (va_http v) ''GET'' endpoint [(''Authorization'', ''Bearer '' @ token)] [] w1 = (Inr res, w2)
        \<and> rs_Status res = 200)"

lemma discover_cached:
  "discover v cached w = (r, cached1, w1) \<Longrightarrow>
   (cached1 = cached \<or> cached = []) \<and> (\<forall>endpoint. r = Inr endpoint \<longrightarrow> cached1 = endpoint \<and> endpoint \<noteq> [])"
  by (auto simp: discover_def split: if_splits prod.splits sum.splits)

lemma Validate_accepted:
  assumes "Validate v token cached w = (r, cached2, w2)"
  shows "(cached2 = cached \<or> cached = [])
    \<and> (r = Inr () \<longrightarrow> (\<exists>w1. cached2 \<noteq> [] \<and> discover v cached w = (Inr cached2, cached2, w1) \<and> accepted_by v cached2 token w1 w2))"
proof -
  obtain d cached1 w1 where d: "discover v cached w = (d, cached1, w1)" by (metis prod_cases3)
  show ?thesis
    using assms discover_cached [OF d]
    by (cases d) (auto simp: Validate_def d accepted_by_def split: prod.splits sum.splits if_splits)
qed

lemma bearerToken_header: "bearerToken h \<noteq> [] \<Longrightarrow> h = ''Bearer '' @ bearerToken h"
  by (auto simp: bearerToken_def TrimPrefix_def dest: HasPrefixD)

lemma Middleware_cases:
  "case Middleware v next_handler r cached st w of (res, cached', st', w') \<Rightarrow>
     (cached' = cached \<or> cached = []) \<and>
     ((rp_Status res \<in> {401, 403} \<and> st' = st)
      \<or> (\<exists>token w1 w2. OriginAllowed v (rr_Origin r) \<and> token \<noteq> [] \<and> rr_Authorization r = ''Bearer '' @ token
           \<and> cached' \<noteq> [] \<and> discover v cached w = (Inr cached', cached', w1) \<and> accepted_by v cached' token w1 w2
           \<and> next_handler (Some token) r st w2 = (res, st', w')))"
proof (cases "OriginAllowed v (rr_Origin r) \<and> bearerToken (rr_Authorization r) \<noteq> []")
  case False
  then show ?thesis by (auto simp: Middleware_def Let_def)
next
  case True
  let ?token = "bearerToken (rr_Authorization r)"
  obtain q cached1 w2 where q: "Validate v ?token cached w = (q, cached1, w2)" by (metis prod_cases3)
  show ?thesis
  proof (cases q)
    case (Inl err)
    then show ?thesis using True q Validate_accepted [OF q] by (simp add: Middleware_def Let_def)
  next
    case (Inr x)
    obtain res st' w' where n: "next_handler (Some ?token) r st w2 = (res, st', w')" by (metis prod_cases3)
    have "Middleware v next_handler r cached st w = (res, cached1, st', w')"
      using True q Inr n by (simp add: Middleware_def Let_def)
    then show ?thesis
      using True Validate_accepted [OF q] Inr n bearerToken_header [of "rr_Authorization r"] by auto
  qed
qed

text \<open>
  C16. No handler runs for a stranger: whatever handler the middleware guards, either the answer
  is 401 or 403 and the handler's state is untouched, or the request came from an allowed origin, it
  carries a non-empty bearer token, the identity provider's userinfo endpoint accepted exactly that token during
  this request, and the handler ran with that token. The endpoint comes from the discovery document and, once
  known, is never replaced.
\<close>

theorem only_authenticated:
  "case Middleware v next_handler r cached st w of (res, cached', st', w') \<Rightarrow>
     (cached' = cached \<or> cached = []) \<and>
     ((rp_Status res \<in> {401, 403} \<and> st' = st)
      \<or> (\<exists>token w1 w2. OriginAllowed v (rr_Origin r) \<and> token \<noteq> [] \<and> rr_Authorization r = ''Bearer '' @ token
           \<and> cached' \<noteq> [] \<and> discover v cached w = (Inr cached', cached', w1) \<and> accepted_by v cached' token w1 w2
           \<and> next_handler (Some token) r st w2 = (res, st', w')))"
  by (rule Middleware_cases)

end
