(* ===== verification/GoTime.thy ===== *)
theory GoTime
  imports GoPrelude
begin

text \<open>
  Go's package time, as far as the backend uses it: instants, differences, and the RFC 3339
  layouts in which instants are stored (SQLite columns: whole seconds) and reported (execution
  records: nanoseconds, trailing zeros dropped).

  An instant is its number of nanoseconds since the Unix epoch, a duration a number of
  nanoseconds. Everything the backend formats is in UTC.
\<close>

type_synonym time = int
type_synonym duration = int

abbreviation second :: duration where "second \<equiv> 1000000000"
abbreviation minute :: duration where "minute \<equiv> 60 * second"
abbreviation hour :: duration where "hour \<equiv> 60 * minute"

text \<open>The zero \<^verbatim>\<open>time.Time\<close>: January 1 of year 1, 00:00:00 UTC.\<close>

definition zero_time :: time where
  "zero_time = - 62135596800 * second"

text \<open>\<^verbatim>\<open>t.Sub(u)\<close> saturates at the ends of the 64-bit duration type.\<close>

definition time_sub :: "time \<Rightarrow> time \<Rightarrow> duration" where
  "time_sub t u = max (- (2 ^ 63)) (min (2 ^ 63 - 1) (t - u))"

definition before :: "time \<Rightarrow> time \<Rightarrow> bool" where
  "before t u = (t < u)"

definition after :: "time \<Rightarrow> time \<Rightarrow> bool" where
  "after t u = (t > u)"

lemma time_sub_less_iff:
  "- (2 ^ 63) < d \<Longrightarrow> d \<le> 2 ^ 63 - 1 \<Longrightarrow> time_sub t u < d \<longleftrightarrow> t - u < d"
  by (auto simp: time_sub_def)

lemma time_sub_greater_iff:
  "- (2 ^ 63) \<le> d \<Longrightarrow> d < 2 ^ 63 - 1 \<Longrightarrow> time_sub t u > d \<longleftrightarrow> t - u > d"
  by (auto simp: time_sub_def)

section \<open>The civil calendar\<close>

text \<open>
  The proleptic Gregorian calendar. A day number counts days from 1970-01-01. Years are reckoned
  from March, in cycles of 400 years (146097 days), centuries (36524 days, the last one longer),
  four-year groups (1461 days) and years (365 days, the last one longer).
\<close>

definition year_day :: "int \<Rightarrow> int \<times> int" where
  "year_day doe =
     (let c = min 3 (doe div 36524); r1 = doe - 36524 * c;
          q = r1 div 1461; r2 = r1 - 1461 * q;
          a = min 3 (r2 div 365)
      in (100 * c + 4 * q + a, r2 - 365 * a))"

definition month_day :: "int \<Rightarrow> int \<times> int" where
  "month_day doy =
     (let mp = (5 * doy + 2) div 153
      in (if mp < 10 then mp + 3 else mp - 9, doy - (153 * mp + 2) div 5 + 1))"

definition civil_of_days :: "int \<Rightarrow> int \<times> int \<times> int" where
  "civil_of_days n =
     (let z = n + 719468; (yoe, doy) = year_day (z mod 146097); (m, d) = month_day doy
      in (yoe + 400 * (z div 146097) + (if m \<le> 2 then 1 else 0), m, d))"

definition days_of_civil :: "int \<Rightarrow> int \<Rightarrow> int \<Rightarrow> int" where
  "days_of_civil y m d =
     (let y' = (if m \<le> 2 then y - 1 else y);
          mp = (if m > 2 then m - 3 else m + 9);
          yoe = y' mod 400; doy = (153 * mp + 2) div 5 + d - 1
      in (y' div 400) * 146097 + yoe * 365 + yoe div 4 - yoe div 100 + doy - 719468)"

lemma year_day_bounds:
  assumes "0 \<le> doe" "doe < 146097" "year_day doe = (yoe, doy)"
  shows "0 \<le> yoe" "yoe < 400" "0 \<le> doy" "doy \<le> 365"
    "doe = yoe * 365 + yoe div 4 - yoe div 100 + doy"
proof -
  define c where "c = min 3 (doe div 36524)"
  define r1 where "r1 = doe - 36524 * c"
  define q where "q = r1 div 1461"
  define r2 where "r2 = r1 - 1461 * q"
  define a where "a = min 3 (r2 div 365)"
  have y: "yoe = 100 * c + 4 * q + a" and d: "doy = r2 - 365 * a"
    using assms(3) by (simp_all add: year_day_def Let_def c_def r1_def q_def r2_def a_def)
  have cc: "(c = doe div 36524 \<and> doe div 36524 \<le> 3) \<or> (c = 3 \<and> 3 < doe div 36524)" unfolding c_def by linarith
  have c: "0 \<le> c" "c \<le> 3" and r1: "0 \<le> r1" "r1 \<le> 36524"
    using assms(1,2) cc unfolding r1_def by (elim disjE; linarith)+
  have q: "0 \<le> q" "q \<le> 24" and r2: "0 \<le> r2" "r2 < 1461"
    using r1 unfolding r2_def q_def by linarith+
  have aa: "(a = r2 div 365 \<and> r2 div 365 \<le> 3) \<or> (a = 3 \<and> 3 < r2 div 365)" unfolding a_def by linarith
  have a: "0 \<le> a" "a \<le> 3" and dd: "0 \<le> doy" "doy \<le> 365"
    using r2 aa unfolding d by (elim disjE; linarith)+
  show "0 \<le> doy" "doy \<le> 365" by (fact dd)+
  show "0 \<le> yoe" "yoe < 400" using y c q a by linarith+
  have "yoe div 4 = 25 * c + q" and "yoe div 100 = c" using y c q a by linarith+
  then show "doe = yoe * 365 + yoe div 4 - yoe div 100 + doy"
    unfolding y d r2_def r1_def by simp
qed

lemma month_day_bounds:
  assumes "0 \<le> doy" "doy \<le> 365" "month_day doy = (m, d)"
  shows "1 \<le> m" "m \<le> 12" "1 \<le> d" "d \<le> 31"
    "doy = (153 * (if m > 2 then m - 3 else m + 9) + 2) div 5 + d - 1"
proof -
  define mp where "mp = (5 * doy + 2) div 153"
  have m: "m = (if mp < 10 then mp + 3 else mp - 9)" and d: "d = doy - (153 * mp + 2) div 5 + 1"
    using assms(3) unfolding month_day_def Let_def mp_def by auto
  have mp: "0 \<le> mp" "mp \<le> 11" using assms(1,2) unfolding mp_def by auto
  show "1 \<le> m" "m \<le> 12" unfolding m using mp by (cases "mp < 10"; simp)+
  have k: "153 * mp \<le> 5 * doy + 2" "5 * doy + 2 < 153 * mp + 153" unfolding mp_def by auto
  have "(153 * mp + 2) div 5 \<le> doy" using k by linarith
  then show "1 \<le> d" using d by simp
  have "doy < (153 * mp + 2) div 5 + 31" using k by linarith
  then show "d \<le> 31" using d by simp
  have e: "(if m > 2 then m - 3 else m + 9) = mp"
    unfolding m using mp by (cases "mp < 10") simp_all
  show "doy = (153 * (if m > 2 then m - 3 else m + 9) + 2) div 5 + d - 1"
    unfolding e d by linarith
qed

lemma civil_roundtrip:
  assumes "civil_of_days n = (y, m, d)"
  shows "days_of_civil y m d = n" "1 \<le> m" "m \<le> 12" "1 \<le> d" "d \<le> 31"
proof -
  define z where "z = n + 719468"
  obtain yoe doy where yd: "year_day (z mod 146097) = (yoe, doy)" by fastforce
  obtain m' d' where md: "month_day doy = (m', d')" by fastforce
  have e: "y = yoe + 400 * (z div 146097) + (if m \<le> 2 then 1 else 0)" "m' = m" "d' = d"
    using assms yd md by (auto simp: civil_of_days_def Let_def z_def)
  have doe: "0 \<le> z mod 146097" "z mod 146097 < 146097" by simp_all
  note b = year_day_bounds [OF doe yd]
  note mb = month_day_bounds [OF b(3,4) md, unfolded e(2,3)]
  show "1 \<le> m" "m \<le> 12" "1 \<le> d" "d \<le> 31" by (fact mb)+
  have y': "(if m \<le> 2 then y - 1 else y) = yoe + 400 * (z div 146097)" using e(1) by auto
  have "(yoe + 400 * (z div 146097)) mod 400 = yoe" "(yoe + 400 * (z div 146097)) div 400 = z div 146097"
    using b(1,2) by auto
  note p = this
  have "days_of_civil y m d = (z div 146097) * 146097 + yoe * 365 + yoe div 4 - yoe div 100
      + ((153 * (if m > 2 then m - 3 else m + 9) + 2) div 5 + d - 1) - 719468"
    unfolding days_of_civil_def Let_def y' p by (rule refl)
  also have "\<dots> = (z div 146097) * 146097 + (yoe * 365 + yoe div 4 - yoe div 100 + doy) - 719468"
    unfolding mb(5) [symmetric] by linarith
  also have "\<dots> = (z div 146097) * 146097 + z mod 146097 - 719468"
    unfolding b(5) [symmetric] by (rule refl)
  also have "\<dots> = n" by (simp add: z_def)
  finally show "days_of_civil y m d = n" .
qed

section \<open>RFC 3339\<close>

definition pad :: "nat \<Rightarrow> nat \<Rightarrow> string" where
  "pad w n = replicate (w - length (show_nat n)) CHR ''0'' @ show_nat n"

definition format_year :: "int \<Rightarrow> string" where
  "format_year y = (if y < 0 then CHR ''-'' # pad 4 (nat (- y)) else pad 4 (nat y))"

text \<open>The part of the layout up to the seconds, for the instant \<open>s\<close> in whole seconds.\<close>

definition format_seconds :: "int \<Rightarrow> string" where
  "format_seconds s =
     (let (y, m, d) = civil_of_days (s div 86400); r = s mod 86400
      in format_year y @ ''-'' @ pad 2 (nat m) @ ''-'' @ pad 2 (nat d) @ ''T'' @
         pad 2 (nat (r div 3600)) @ '':'' @ pad 2 (nat (r div 60 mod 60)) @ '':'' @
         pad 2 (nat (r mod 60)))"

text \<open>\<^verbatim>\<open>t.UTC().Format(time.RFC3339)\<close>: the fraction of a second is dropped.\<close>

definition format_rfc3339 :: "time \<Rightarrow> string" where
  "format_rfc3339 t = format_seconds (t div second) @ ''Z''"

text \<open>\<^verbatim>\<open>t.UTC().Format(time.RFC3339Nano)\<close>: nine digits of fraction without trailing zeros.\<close>

definition format_fraction :: "int \<Rightarrow> string" where
  "format_fraction n =
     (if n = 0 then [] else CHR ''.'' # TrimRight CHR ''0'' (pad 9 (nat n)))"

definition format_rfc3339_nano :: "time \<Rightarrow> string" where
  "format_rfc3339_nano t =
     format_seconds (t div second) @ format_fraction (t mod second) @ ''Z''"

definition digit_val :: "char \<Rightarrow> int option" where
  "digit_val c = (let n = (of_char c :: nat) in if 48 \<le> n \<and> n \<le> 57 then Some (int n - 48) else None)"

fun digits_val :: "string \<Rightarrow> int option" where
  "digits_val [] = Some 0"
| "digits_val (c # cs) =
     (case (digit_val c, digits_val cs) of
        (Some a, Some b) \<Rightarrow> Some (a * 10 ^ length cs + b)
      | _ \<Rightarrow> None)"

definition leap_year :: "int \<Rightarrow> bool" where
  "leap_year y = (y mod 4 = 0 \<and> (y mod 100 \<noteq> 0 \<or> y mod 400 = 0))"

definition days_in :: "int \<Rightarrow> int \<Rightarrow> int" where
  "days_in y m =
     (if m = 2 then (if leap_year y then 29 else 28)
      else if m = 4 \<or> m = 6 \<or> m = 9 \<or> m = 11 then 30 else 31)"

text \<open>
  \<^verbatim>\<open>time.Parse(time.RFC3339, s)\<close> on texts in UTC with whole seconds, the only ones the backend
  stores: fields of fixed width, each checked against its range.
\<close>

definition parse_rfc3339 :: "string \<Rightarrow> time option" where
  "parse_rfc3339 s =
     (if length s = 20 \<and> s ! 4 = CHR ''-'' \<and> s ! 7 = CHR ''-'' \<and> s ! 10 = CHR ''T''
         \<and> s ! 13 = CHR '':'' \<and> s ! 16 = CHR '':'' \<and> s ! 19 = CHR ''Z''
      then (case (digits_val (take 4 s), digits_val (take 2 (drop 5 s)),
                  digits_val (take 2 (drop 8 s)), digits_val (take 2 (drop 11 s)),
                  digits_val (take 2 (drop 14 s)), digits_val (take 2 (drop 17 s))) of
              (Some y, Some m, Some d, Some h, Some mi, Some sec) \<Rightarrow>
                if 1 \<le> m \<and> m \<le> 12 \<and> 1 \<le> d \<and> d \<le> days_in y m \<and> h < 24 \<and> mi < 60 \<and> sec < 60
                then Some ((days_of_civil y m d * 86400 + h * 3600 + mi * 60 + sec) * second)
                else None
            | _ \<Rightarrow> None)
      else None)"

text \<open>\<^verbatim>\<open>x, _ := time.Parse(time.RFC3339, s)\<close>: the error is ignored and leaves the zero time.\<close>

definition parse_or_zero :: "string \<Rightarrow> time" where
  "parse_or_zero s = (case parse_rfc3339 s of Some t \<Rightarrow> t | None \<Rightarrow> zero_time)"

text \<open>The instants of the years 0 to 9999, whose text has the fixed width of the layout.\<close>

definition rfc_range :: "time \<Rightarrow> bool" where
  "rfc_range t = (- 62167219200 * second \<le> t \<and> t < 253402300800 * second)"

definition whole_second :: "time \<Rightarrow> time" where
  "whole_second t = t - t mod second"


section \<open>Reading back a formatted instant\<close>

lemma digit_val_digit [simp]: "n < 10 \<Longrightarrow> digit_val (digit n) = Some (int n)"
  by (simp add: digit_val_def digit_def Let_def)

lemma show_nat_1: "n < 10 \<Longrightarrow> show_nat n = [digit n]"
  by (simp add: show_nat.simps)

lemma show_nat_rec: "10 \<le> n \<Longrightarrow> show_nat n = show_nat (n div 10) @ [digit (n mod 10)]"
  by (subst show_nat.simps) simp

lemma digit_0 [simp]: "digit 0 = CHR ''0''"
  by code_simp

lemma pad_2:
  assumes "n < 100"
  shows "pad 2 n = [digit (n div 10), digit (n mod 10)]"
proof (cases "n < 10")
  case True
  then show ?thesis by (simp add: pad_def show_nat_1)
next
  case False
  then show ?thesis using assms by (simp add: pad_def show_nat_1 show_nat_rec)
qed

lemma pad_4:
  assumes "n < 10000"
  shows "pad 4 n = [digit (n div 1000), digit (n div 100 mod 10), digit (n div 10 mod 10), digit (n mod 10)]"
proof -
  have e: "n div 10 div 10 = n div 100" "n div 100 div 10 = n div 1000"
    by (simp_all flip: div_mult2_eq)
  have r: "replicate 3 x = [x, x, x]" "replicate 2 x = [x, x]" for x :: char
    by (simp_all add: numeral_eq_Suc)
  consider "n < 10" | "10 \<le> n" "n < 100" | "100 \<le> n" "n < 1000" | "1000 \<le> n" by linarith
  then show ?thesis
  proof cases
    case 1
    then show ?thesis by (simp add: pad_def show_nat_1 r)
  next
    case 2
    then show ?thesis by (simp add: pad_def show_nat_1 show_nat_rec r)
  next
    case 3
    then have "show_nat n = [digit (n div 100), digit (n div 10 mod 10), digit (n mod 10)]"
      using e by (simp add: show_nat_1 show_nat_rec)
    then show ?thesis using 3 by (simp add: pad_def)
  next
    case 4
    then have "show_nat n = [digit (n div 1000), digit (n div 100 mod 10), digit (n div 10 mod 10), digit (n mod 10)]"
      using e assms by (simp add: show_nat_1 show_nat_rec)
    then show ?thesis by (simp add: pad_def)
  qed
qed

lemma digits_val_pad_2: "n < 100 \<Longrightarrow> digits_val (pad 2 n) = Some (int n)"
  by (simp add: pad_2 zdiv_int zmod_int)

lemma digits_val_pad_4:
  assumes "n < 10000"
  shows "digits_val (pad 4 n) = Some (int n)"
proof -
  have e: "n div 10 div 10 = n div 100" "n div 100 div 10 = n div 1000"
    by (simp_all flip: div_mult2_eq)
  have "n div 10 = 10 * (n div 100) + n div 10 mod 10" "n div 100 = 10 * (n div 1000) + n div 100 mod 10"
    using mult_div_mod_eq [of 10 "n div 10"] mult_div_mod_eq [of 10 "n div 100"] unfolding e by simp_all
  then have "n = n div 1000 * 1000 + (n div 100 mod 10 * 100 + (n div 10 mod 10 * 10 + n mod 10))"
    using mult_div_mod_eq [of 10 n] by linarith
  then have "int n = int (n div 1000 * 1000 + (n div 100 mod 10 * 100 + (n div 10 mod 10 * 10 + n mod 10)))"
    by simp
  then show ?thesis using assms by (simp add: pad_4)
qed

lemma length_pad_2: "n < 100 \<Longrightarrow> length (pad 2 n) = 2"
  by (simp add: pad_2)

lemma length_pad_4: "n < 10000 \<Longrightarrow> length (pad 4 n) = 4"
  by (simp add: pad_4)

text \<open>The last day of a March-based year that has 366 days falls on a leap day.\<close>

lemma year_day_365:
  assumes "0 \<le> doe" "doe < 146097" "year_day doe = (yoe, 365)"
  shows "leap_year (yoe + 1 + 400 * era)"
proof -
  define c where "c = min 3 (doe div 36524)"
  define r1 where "r1 = doe - 36524 * c"
  define q where "q = r1 div 1461"
  define r2 where "r2 = r1 - 1461 * q"
  define a where "a = min 3 (r2 div 365)"
  have y: "yoe = 100 * c + 4 * q + a" and d: "365 = r2 - 365 * a"
    using assms(3) by (simp_all add: year_day_def Let_def c_def r1_def q_def r2_def a_def)
  have cc: "(c = doe div 36524 \<and> c < 3) \<or> c = 3" unfolding c_def by linarith
  have r1: "0 \<le> r1" "r1 \<le> 36524" "r1 < 36524 \<or> c = 3"
    using assms(1,2) cc unfolding r1_def c_def by linarith+
  have q: "0 \<le> q" "q \<le> 24" and r2: "r2 < 1461" using r1(1,2) unfolding r2_def q_def by linarith+
  have a: "a = 3" "r2 = 1460" using d r2 unfolding a_def by linarith+
  have "q = 24 \<Longrightarrow> c = 3" using r1(3) a(2) unfolding r2_def by linarith
  then have "q < 24 \<or> (q = 24 \<and> c = 3)" using q by linarith
  moreover have "yoe + 1 + 400 * era = 4 * (25 * c + q + 1 + 100 * era)" using y a by simp
  moreover have "(yoe + 1 + 400 * era) mod 100 = (4 * q + 4) mod 100"
  proof -
    have "yoe + 1 + 400 * era = (4 * q + 4) + 100 * (c + 4 * era)" using y a by simp
    then show ?thesis by (metis mod_mult_self2)
  qed
  moreover have "q < 24 \<Longrightarrow> (4 * q + 4) mod 100 \<noteq> 0" using q by simp
  moreover have "q = 24 \<Longrightarrow> c = 3 \<Longrightarrow> yoe + 1 + 400 * era = 400 * (1 + era)" using y a by simp
  ultimately show ?thesis unfolding leap_year_def by (metis mod_mult_self1_is_0)
qed

lemma month_day_length:
  assumes "0 \<le> doy" "doy \<le> 365" "month_day doy = (m, d)" "doy = 365 \<Longrightarrow> leap_year y"
  shows "d \<le> days_in y m"
proof -
  define mp where "mp = (5 * doy + 2) div 153"
  have m: "m = (if mp < 10 then mp + 3 else mp - 9)" and d: "d = doy - (153 * mp + 2) div 5 + 1"
    using assms(3) unfolding month_day_def Let_def mp_def by auto
  have k: "153 * mp \<le> 5 * doy + 2" "5 * doy + 2 < 153 * mp + 153" unfolding mp_def by auto
  have "0 \<le> mp" "mp \<le> 11" using assms(1,2) unfolding mp_def by auto
  then have "mp = 0 \<or> mp = 1 \<or> mp = 2 \<or> mp = 3 \<or> mp = 4 \<or> mp = 5 \<or> mp = 6 \<or> mp = 7
      \<or> mp = 8 \<or> mp = 9 \<or> mp = 10 \<or> mp = 11" by presburger
  moreover have "doy \<le> 364 \<or> leap_year y" using assms(2,4) by linarith
  ultimately show ?thesis using d m k assms(2)
    by (elim disjE) (auto simp: days_in_def)
qed

lemma civil_valid:
  assumes "civil_of_days n = (y, m, d)"
  shows "d \<le> days_in y m"
proof -
  define z where "z = n + 719468"
  obtain yoe doy where yd: "year_day (z mod 146097) = (yoe, doy)" by fastforce
  obtain m' d' where md: "month_day doy = (m', d')" by fastforce
  have e: "y = yoe + 400 * (z div 146097) + (if m \<le> 2 then 1 else 0)" "m' = m" "d' = d"
    using assms yd md by (auto simp: civil_of_days_def Let_def z_def)
  have doe: "0 \<le> z mod 146097" "z mod 146097 < 146097" by simp_all
  note b = year_day_bounds [OF doe yd]
  have "doy = 365 \<Longrightarrow> leap_year y"
  proof -
    assume 365: "doy = 365"
    then have "m = 2" using md e(2) by (simp add: month_day_def)
    then show "leap_year y"
      using year_day_365 [OF doe, of yoe "z div 146097"] yd 365 e(1) by (simp add: algebra_simps)
  qed
  then show ?thesis using month_day_length [OF b(3,4) md] e by simp
qed

lemma civil_year_range:
  assumes "civil_of_days n = (y, m, d)" "- 719528 \<le> n" "n \<le> 2932896"
  shows "0 \<le> y" "y \<le> 9999"
proof -
  define z where "z = n + 719468"
  obtain yoe doy where yd: "year_day (z mod 146097) = (yoe, doy)" by fastforce
  obtain m' d' where md: "month_day doy = (m', d')" by fastforce
  have e: "y = yoe + 400 * (z div 146097) + (if m \<le> 2 then 1 else 0)" "m' = m"
    using assms yd md by (auto simp: civil_of_days_def Let_def z_def)
  have doe: "0 \<le> z mod 146097" "z mod 146097 < 146097" by simp_all
  note b = year_day_bounds [OF doe yd]
  have z: "- 60 \<le> z" "z \<le> 3652364" using assms(2,3) unfolding z_def by linarith+
  have m: "m \<le> 2 \<longleftrightarrow> 306 \<le> doy"
    using md e(2) b(3,4) unfolding month_day_def Let_def by (auto split: if_splits)
  define era where "era = z div 146097"
  have zz: "z = era * 146097 + z mod 146097" unfolding era_def by simp
  have "era \<in> {-1..24}" using z unfolding era_def by auto
  then consider "era = -1" | "0 \<le> era" "era < 24" | "era = 24" by force
  then have "0 \<le> y \<and> y \<le> 9999"
  proof cases
    case 1
    then have "146037 \<le> z mod 146097" using zz z by linarith
    then have "yoe = 399" using b by linarith
    then have "306 \<le> doy" using b \<open>146037 \<le> z mod 146097\<close> by linarith
    then have "y = 0" using e m 1 \<open>yoe = 399\<close> unfolding era_def by simp
    then show ?thesis by simp
  next
    case 2
    then show ?thesis using e b unfolding era_def by (auto split: if_splits)
  next
    case 3
    then have "z mod 146097 \<le> 146036" using zz z by linarith
    then have "yoe \<le> 398 \<or> doy < 306" using b by linarith
    moreover have "y = yoe + 9600 + (if 306 \<le> doy then 1 else 0)"
      using e m 3 unfolding era_def by auto
    ultimately show ?thesis using b(1,2) by auto
  qed
  then show "0 \<le> y" "y \<le> 9999" by simp_all
qed

lemma parse_fields:
  assumes "length Y = 4" "length M = 2" "length D = 2" "length H = 2" "length N = 2" "length S = 2"
    "digits_val Y = Some y" "digits_val M = Some m" "digits_val D = Some d"
    "digits_val H = Some h" "digits_val N = Some mi" "digits_val S = Some s"
    "1 \<le> m" "m \<le> 12" "1 \<le> d" "d \<le> days_in y m" "h < 24" "mi < 60" "s < 60"
  shows "parse_rfc3339 (Y @ ''-'' @ M @ ''-'' @ D @ ''T'' @ H @ '':'' @ N @ '':'' @ S @ ''Z'') =
    Some ((days_of_civil y m d * 86400 + h * 3600 + mi * 60 + s) * second)"
proof -
  let ?s = "Y @ ''-'' @ M @ ''-'' @ D @ ''T'' @ H @ '':'' @ N @ '':'' @ S @ ''Z''"
  have parts: "length ?s = 20" "take 4 ?s = Y" "take 2 (drop 5 ?s) = M" "take 2 (drop 8 ?s) = D"
    "take 2 (drop 11 ?s) = H" "take 2 (drop 14 ?s) = N" "take 2 (drop 17 ?s) = S"
    using assms(1-6) by simp_all
  have seps: "?s ! 4 = CHR ''-''" "?s ! 7 = CHR ''-''" "?s ! 10 = CHR ''T''" "?s ! 13 = CHR '':''"
    "?s ! 16 = CHR '':''" "?s ! 19 = CHR ''Z''"
    using assms(1-6) by (simp_all add: nth_append)
  show ?thesis
    unfolding parse_rfc3339_def parts seps assms(7-12) using assms(13-19) by simp
qed

lemma parse_format_rfc3339:
  assumes "rfc_range t"
  shows "parse_rfc3339 (format_rfc3339 t) = Some (whole_second t)"
proof -
  define s where "s = t div second"
  define r where "r = s mod 86400"
  obtain y m d where c: "civil_of_days (s div 86400) = (y, m, d)" by (metis prod_cases3)
  have s: "- 62167219200 \<le> s" "s < 253402300800"
    using assms unfolding rfc_range_def s_def by linarith+
  have n: "- 719528 \<le> s div 86400" "s div 86400 \<le> 2932896" using s by linarith+
  note yr = civil_year_range [OF c n] and ok = civil_roundtrip [OF c] civil_valid [OF c]
  have r: "0 \<le> r" "r < 86400" unfolding r_def by simp_all
  have f: "nat y < 10000" "nat m < 100" "nat d < 100" "nat (r div 3600) < 100"
    "nat (r div 60 mod 60) < 100" "nat (r mod 60) < 100"
    using yr ok r by (simp_all add: nat_less_iff)
  have v: "digits_val (pad 4 (nat y)) = Some y" "digits_val (pad 2 (nat m)) = Some m"
    "digits_val (pad 2 (nat d)) = Some d" "digits_val (pad 2 (nat (r div 3600))) = Some (r div 3600)"
    "digits_val (pad 2 (nat (r div 60 mod 60))) = Some (r div 60 mod 60)"
    "digits_val (pad 2 (nat (r mod 60))) = Some (r mod 60)"
    using yr(1) ok(2,4) r(1)
    by (simp_all add: digits_val_pad_4 [OF f(1)] digits_val_pad_2 [OF f(2)] digits_val_pad_2 [OF f(3)]
        digits_val_pad_2 [OF f(4)] digits_val_pad_2 [OF f(5)] digits_val_pad_2 [OF f(6)])
  have hms: "r div 3600 < 24" "r div 60 mod 60 < 60" "r mod 60 < 60" using r by linarith+
  have "format_rfc3339 t = pad 4 (nat y) @ ''-'' @ pad 2 (nat m) @ ''-'' @ pad 2 (nat d) @ ''T'' @
      pad 2 (nat (r div 3600)) @ '':'' @ pad 2 (nat (r div 60 mod 60)) @ '':'' @ pad 2 (nat (r mod 60)) @ ''Z''"
    using c yr by (simp add: format_rfc3339_def format_seconds_def s_def r_def format_year_def Let_def)
  moreover have "parse_rfc3339 (pad 4 (nat y) @ ''-'' @ pad 2 (nat m) @ ''-'' @ pad 2 (nat d) @ ''T'' @
      pad 2 (nat (r div 3600)) @ '':'' @ pad 2 (nat (r div 60 mod 60)) @ '':'' @ pad 2 (nat (r mod 60)) @ ''Z'') =
      Some ((days_of_civil y m d * 86400 + r div 3600 * 3600 + r div 60 mod 60 * 60 + r mod 60) * second)"
    by (rule parse_fields [OF length_pad_4 [OF f(1)] length_pad_2 [OF f(2)] length_pad_2 [OF f(3)]
          length_pad_2 [OF f(4)] length_pad_2 [OF f(5)] length_pad_2 [OF f(6)] v ok(2,3,4,6) hms])
  moreover have "days_of_civil y m d * 86400 + r div 3600 * 3600 + r div 60 mod 60 * 60 + r mod 60 = s"
  proof -
    have "r div 60 div 60 = r div 3600" using zdiv_zmult2_eq [of 60 r 60] by simp
    then have "r div 3600 * 3600 + r div 60 mod 60 * 60 + r mod 60 = r"
      using mult_div_mod_eq [of 60 r] mult_div_mod_eq [of 60 "r div 60"] by linarith
    then show ?thesis using ok(1) mult_div_mod_eq [of 86400 s] unfolding r_def by linarith
  qed
  moreover have "s * second = whole_second t"
    unfolding s_def whole_second_def by (simp add: minus_mod_eq_div_mult)
  ultimately show ?thesis by simp
qed

lemma parse_or_zero_format [simp]:
  "rfc_range t \<Longrightarrow> parse_or_zero (format_rfc3339 t) = whole_second t"
  by (simp add: parse_or_zero_def parse_format_rfc3339)

lemma whole_second_bounds: "whole_second t \<le> t" "t < whole_second t + second"
  by (simp_all add: whole_second_def)

lemma whole_second_idem [simp]: "whole_second (whole_second t) = whole_second t"
  by (simp add: whole_second_def)

lemma rfc_range_whole_second: "rfc_range t \<Longrightarrow> rfc_range (whole_second t)"
proof -
  assume "rfc_range t"
  then have "- 62167219200 \<le> t div second" "t div second < 253402300800"
    unfolding rfc_range_def by linarith+
  then show ?thesis unfolding rfc_range_def whole_second_def minus_mod_eq_div_mult by linarith
qed

end
