(* ===== verification/GoBase64.thy ===== *)
theory GoBase64
  imports GoPrelude
begin

text \<open>
  Go's package encoding/base64: \<^verbatim>\<open>StdEncoding\<close> (padded; used for sealed secrets, for the encryption
  key and for HTTP Basic credentials) and the encoder of \<^verbatim>\<open>RawURLEncoding\<close> (used for the names of
  comment files), with the round trip of the standard encoding.
\<close>

section \<open>Alphabets\<close>

definition std_alphabet :: string where
  "std_alphabet = ''ABCDEFGHIJKLMNOPQRSTUVWXYZabcdefghijklmnopqrstuvwxyz0123456789+/''"

definition url_alphabet :: string where
  "url_alphabet = ''ABCDEFGHIJKLMNOPQRSTUVWXYZabcdefghijklmnopqrstuvwxyz0123456789-_''"

definition sextet_val :: "char \<Rightarrow> nat option" where
  "sextet_val c = map_of (zip std_alphabet [0..<64]) c"

lemma sextet_std_all:
  "list_all (\<lambda>n. sextet_val (std_alphabet ! n) = Some n \<and> std_alphabet ! n \<noteq> CHR ''=''
     \<and> std_alphabet ! n \<noteq> CHR 0x0A \<and> std_alphabet ! n \<noteq> CHR 0x0D) [0..<64]"
  by code_simp

lemma sextet_std [simp]:
  assumes "n < 64"
  shows "sextet_val (std_alphabet ! n) = Some n" "std_alphabet ! n \<noteq> CHR ''=''"
    "std_alphabet ! n \<noteq> CHR 0x0A" "std_alphabet ! n \<noteq> CHR 0x0D"
  using sextet_std_all assms by (auto simp: list_all_iff)

section \<open>Encoding\<close>

text \<open>Groups of three bytes become four characters; \<open>padded\<close> fills the last group with equal signs.\<close>

fun encode_bytes :: "string \<Rightarrow> bool \<Rightarrow> nat list \<Rightarrow> string" where
  "encode_bytes abc padded [] = []"
| "encode_bytes abc padded [a] =
     abc ! (a div 4) # abc ! (a mod 4 * 16) # (if padded then ''=='' else [])"
| "encode_bytes abc padded [a, b] =
     abc ! (a div 4) # abc ! (a mod 4 * 16 + b div 16) # abc ! (b mod 16 * 4)
       # (if padded then ''='' else [])"
| "encode_bytes abc padded (a # b # c # r) =
     abc ! (a div 4) # abc ! (a mod 4 * 16 + b div 16) # abc ! (b mod 16 * 4 + c div 64)
       # abc ! (c mod 64) # encode_bytes abc padded r"

definition bytes :: "string \<Rightarrow> nat list" where
  "bytes s = map of_char s"

definition EncodeToString :: "string \<Rightarrow> string" where
  "EncodeToString s = encode_bytes std_alphabet True (bytes s)"

definition RawURL_EncodeToString :: "string \<Rightarrow> string" where
  "RawURL_EncodeToString s = encode_bytes url_alphabet False (bytes s)"

section \<open>Decoding\<close>

fun decode_groups :: "string \<Rightarrow> nat list option" where
  "decode_groups [] = Some []"
| "decode_groups (p # q # r # s # rest) =
     (case (sextet_val p, sextet_val q) of
        (Some a, Some b) \<Rightarrow>
          if r = CHR ''='' \<and> s = CHR ''='' \<and> rest = [] then Some [a * 4 + b div 16]
          else (case sextet_val r of
            None \<Rightarrow> None
          | Some c \<Rightarrow>
              if s = CHR ''='' \<and> rest = []
              then Some [a * 4 + b div 16, b mod 16 * 16 + c div 4]
              else (case (sextet_val s, decode_groups rest) of
                (Some d, Some ds) \<Rightarrow>
                  Some ((a * 4 + b div 16) # (b mod 16 * 16 + c div 4) # (c mod 4 * 64 + d) # ds)
              | _ \<Rightarrow> None))
      | _ \<Rightarrow> None)"
| "decode_groups _ = None"

text \<open>\<^verbatim>\<open>DecodeString\<close> skips line feeds and carriage returns.\<close>

definition DecodeString :: "string \<Rightarrow> string option" where
  "DecodeString s =
     map_option (map char_of)
       (decode_groups (filter (\<lambda>c. c \<noteq> CHR 0x0A \<and> c \<noteq> CHR 0x0D) s))"

lemma sextet_bounds:
  fixes a b c :: nat
  assumes "a < 256" "b < 256" "c < 256"
  shows "a div 4 < 64" "a mod 4 * 16 < 64" "a mod 4 * 16 + b div 16 < 64"
    "b mod 16 * 4 < 64" "b mod 16 * 4 + c div 64 < 64" "c mod 64 < 64"
  using assms by auto

lemma sextet_join:
  fixes a b c :: nat
  assumes "a < 256" "b < 256" "c < 256"
  shows "a div 4 * 4 + (a mod 4 * 16) div 16 = a"
    "a div 4 * 4 + (a mod 4 * 16 + b div 16) div 16 = a"
    "(a mod 4 * 16 + b div 16) mod 16 * 16 + (b mod 16 * 4) div 4 = b"
    "(a mod 4 * 16 + b div 16) mod 16 * 16 + (b mod 16 * 4 + c div 64) div 4 = b"
    "(b mod 16 * 4 + c div 64) mod 4 * 64 + c mod 64 = c"
  using assms by auto

lemma decode_encode_bytes:
  "list_all (\<lambda>n. n < 256) xs \<Longrightarrow> decode_groups (encode_bytes std_alphabet True xs) = Some xs"
proof (induction std_alphabet True xs rule: encode_bytes.induct)
  case 1
  then show ?case by simp
next
  case (2 a)
  then show ?case using sextet_bounds [of a 0 0] sextet_join [of a 0 0] by simp
next
  case (3 a b)
  then show ?case using sextet_bounds [of a b 0] sextet_join [of a b 0] by simp
next
  case (4 a b c r)
  then have e: "b div 16 mod 16 * 16 + b mod 16 = b" and z: "b div 16 div 16 = 0" by auto
  show ?case using z 4 sextet_bounds [of a b c] sextet_join [of a b c] by (simp, metis e)
qed

lemma encode_bytes_no_newline:
  "list_all (\<lambda>n. n < 256) xs \<Longrightarrow>
   filter (\<lambda>c. c \<noteq> CHR 0x0A \<and> c \<noteq> CHR 0x0D) (encode_bytes std_alphabet True xs)
     = encode_bytes std_alphabet True xs"
proof (induction std_alphabet True xs rule: encode_bytes.induct)
  case 1
  then show ?case by simp
next
  case (2 a)
  then show ?case using sextet_bounds [of a 0 0] by simp
next
  case (3 a b)
  then show ?case using sextet_bounds [of a b 0] by simp
next
  case (4 a b c r)
  then show ?case using sextet_bounds [of a b c] by simp
qed

lemma bytes_bound: "list_all (\<lambda>n. n < 256) (bytes s)"
  by (simp add: bytes_def list_all_iff)

lemma char_of_bytes [simp]: "map char_of (bytes s) = s"
  by (simp add: bytes_def o_def)

lemma DecodeString_EncodeToString [simp]: "DecodeString (EncodeToString s) = Some s"
  by (simp add: DecodeString_def EncodeToString_def encode_bytes_no_newline decode_encode_bytes
      bytes_bound)

lemma EncodeToString_inject [simp]: "EncodeToString s = EncodeToString t \<longleftrightarrow> s = t"
  by (metis DecodeString_EncodeToString option.inject)

section \<open>The URL alphabet\<close>

text \<open>
  A file name made by \<^verbatim>\<open>RawURLEncoding\<close> uses the URL alphabet only and determines the encoded text: its
  standard form is found by translating the last two characters and adding the padding its length asks for.
\<close>

definition std_char :: "char \<Rightarrow> char" where
  "std_char c = (if c = CHR ''-'' then CHR ''+'' else if c = CHR ''_'' then CHR 0x2F else c)"

lemma std_char_all: "list_all (\<lambda>n. std_char (url_alphabet ! n) = std_alphabet ! n) [0..<64]"
  by code_simp

lemma std_char_url [simp]: "n < 64 \<Longrightarrow> std_char (url_alphabet ! n) = std_alphabet ! n"
  using std_char_all by (auto simp: list_all_iff)

definition std_of_url :: "string \<Rightarrow> string" where
  "std_of_url s = map std_char s @
     (if length s mod 4 = 2 then ''=='' else if length s mod 4 = 3 then ''='' else [])"

lemma std_of_url_group:
  "std_of_url (p # q # r # s # t) = std_char p # std_char q # std_char r # std_char s # std_of_url t"
proof -
  have "Suc (Suc (Suc (Suc (length t)))) mod 4 = length t mod 4" by presburger
  then show ?thesis by (simp add: std_of_url_def)
qed

lemma std_of_url_encode:
  "list_all (\<lambda>n. n < 256) xs \<Longrightarrow> std_of_url (encode_bytes url_alphabet False xs) = encode_bytes std_alphabet True xs"
proof (induction url_alphabet False xs rule: encode_bytes.induct)
  case 1
  then show ?case by (simp add: std_of_url_def)
next
  case (2 a)
  then show ?case using sextet_bounds [of a 0 0] by (simp add: std_of_url_def)
next
  case (3 a b)
  then show ?case using sextet_bounds [of a b 0] by (simp add: std_of_url_def)
next
  case (4 a b c r)
  then show ?case using sextet_bounds [of a b c] by (simp add: std_of_url_group)
qed

lemma RawURL_inject [simp]: "RawURL_EncodeToString s = RawURL_EncodeToString t \<longleftrightarrow> s = t"
  using std_of_url_encode [OF bytes_bound] EncodeToString_inject [of s t]
  unfolding RawURL_EncodeToString_def EncodeToString_def by metis

lemma url_alphabet_length: "n < 64 \<Longrightarrow> url_alphabet ! n \<in> set url_alphabet"
  by (rule nth_mem) (simp add: url_alphabet_def)

lemma encode_bytes_set:
  "list_all (\<lambda>n. n < 256) xs \<Longrightarrow> set (encode_bytes url_alphabet False xs) \<subseteq> set url_alphabet"
proof (induction url_alphabet False xs rule: encode_bytes.induct)
  case 1
  then show ?case by simp
next
  case (2 a)
  then show ?case using sextet_bounds [of a 0 0] by (simp add: url_alphabet_length)
next
  case (3 a b)
  then show ?case using sextet_bounds [of a b 0] by (simp add: url_alphabet_length)
next
  case (4 a b c r)
  then show ?case using sextet_bounds [of a b c] by (simp add: url_alphabet_length)
qed

lemma RawURL_set: "set (RawURL_EncodeToString s) \<subseteq> set url_alphabet"
  unfolding RawURL_EncodeToString_def by (rule encode_bytes_set [OF bytes_bound])

end
