(* ===== verification/SecretBox.thy ===== *)
theory SecretBox
  imports GoBase64
begin

text \<open>
  backend/pkg/secretbox: the box that encrypts app-passwords at rest.

  The cipher itself (AES-256 in GCM mode, standard library crypto) is a parameter: \<open>gcm_seal\<close> maps
  key, nonce and plaintext to a ciphertext, \<open>gcm_open\<close> maps key, nonce and ciphertext to the
  plaintext, or None if authentication fails. What the code relies on is \<open>gcm_ok\<close>: opening undoes
  sealing under the same key and nonce. The nonce read from the random source is an argument of
  \<open>Seal\<close>: a value of \<^verbatim>\<open>io.ReadFull(rand.Reader, nonce)\<close>, or its error.
\<close>

record gcm =
  gcm_seal :: "string \<Rightarrow> string \<Rightarrow> string \<Rightarrow> string"
  gcm_open :: "string \<Rightarrow> string \<Rightarrow> string \<Rightarrow> string option"

definition gcm_ok :: "gcm \<Rightarrow> bool" where
  "gcm_ok g = (\<forall>key nonce p. gcm_open g key nonce (gcm_seal g key nonce p) = Some p)"

text \<open>\<^verbatim>\<open>gcm.NonceSize()\<close> of the standard GCM.\<close>

definition NonceSize :: nat where
  "NonceSize = 12"

text \<open>A \<^verbatim>\<open>Box\<close> holds the key its cipher was built from.\<close>

record Box =
  box_key :: string

definition secretbox_New :: "string \<Rightarrow> Box result" where
  "secretbox_New key =
     (if length key \<noteq> 32
      then Inl (Msg (''secretbox key must be 32 bytes, got '' @ show_int (int (length key))))
      else Inr \<lparr>box_key = key\<rparr>)"

definition Seal :: "gcm \<Rightarrow> Box \<Rightarrow> string result \<Rightarrow> string \<Rightarrow> string result" where
  "Seal g b nonce plaintext =
     (case nonce of
        Inl e \<Rightarrow> Inl e
      | Inr n \<Rightarrow> Inr (EncodeToString (n @ gcm_seal g (box_key b) n plaintext)))"

definition Open :: "gcm \<Rightarrow> Box \<Rightarrow> string \<Rightarrow> string result" where
  "Open g b encoded =
     (case DecodeString encoded of
        None \<Rightarrow> Inl (Msg ''illegal base64 data'')
      | Some data \<Rightarrow>
          if length data < NonceSize then Inl (Msg ''ciphertext too short'')
          else (case gcm_open g (box_key b) (take NonceSize data) (drop NonceSize data) of
                  None \<Rightarrow> Inl (Msg ''cipher: message authentication failed'')
                | Some p \<Rightarrow> Inr p))"

lemma Seal_error: "Seal g b (Inl e) p = Inl e"
  by (simp add: Seal_def)

lemma Open_Seal:
  "gcm_ok g \<Longrightarrow> length n = NonceSize \<Longrightarrow> Seal g b (Inr n) p = Inr s \<Longrightarrow> Open g b s = Inr p"
  by (auto simp: Seal_def Open_def gcm_ok_def)

lemma Seal_total: "\<exists>s. Seal g b (Inr n) p = Inr s"
  by (simp add: Seal_def)

lemma secretbox_New_key: "secretbox_New key = Inr b \<Longrightarrow> box_key b = key \<and> length key = 32"
  by (auto simp: secretbox_New_def split: if_splits)

end
