(* ===== verification/LocalDB.thy ===== *)
theory LocalDB
  imports GoTime SecretBox
begin

text \<open>
  backend/pkg/localdb: the sidecar's own SQLite store, with its three tables \<^verbatim>\<open>automations\<close>,
  \<^verbatim>\<open>trigger_index\<close> and \<^verbatim>\<open>event_cursors\<close>, and the operations the other components call.

  A table is the list of its rows in row order; the primary keys are \<^verbatim>\<open>user_id\<close>, \<^verbatim>\<open>workflow_id\<close> and
  \<^verbatim>\<open>(user_id, drive_id)\<close>. The engine is a third-party package: a statement runs atomically or fails
  and changes nothing, and which statements fail is the schedule \<open>db_faults\<close>, one entry per
  statement (None: it succeeds; the empty schedule: all later ones do).

  The locale \<open>keyed_table\<close> states the contract of a table with a primary key; it is interpreted on
  each of the three tables, and the facts about the operations are instances of its lemmas.
\<close>

section \<open>Rows\<close>

record Automation =
  am_UserID :: string
  am_Username :: string
  am_AppPassword :: string
  am_ExpiresAt :: time
  am_ConnectedAt :: time

text \<open>A row of \<^verbatim>\<open>automations\<close>: the password encrypted, the instants as RFC 3339 texts.\<close>

record automation_row =
  ar_user_id :: string
  ar_username :: string
  ar_encrypted :: string
  ar_expires_at :: string
  ar_connected_at :: string

record TriggerIndexEntry =
  ti_WorkflowID :: string
  ti_UserID :: string
  ti_TriggerType :: string
  ti_Schedule :: string
  ti_EventType :: string
  ti_PathPrefix :: string
  ti_Extension :: string
  ti_SpaceID :: string

record EventCursor =
  ec_UserID :: string
  ec_DriveID :: string
  ec_LastChecked :: time
  ec_LastStatus :: string

record cursor_row =
  cr_user_id :: string
  cr_drive_id :: string
  cr_last_checked :: string
  cr_last_status :: string

definition MatchesFilters :: "TriggerIndexEntry \<Rightarrow> string \<Rightarrow> string \<Rightarrow> bool" where
  "MatchesFilters e path spaceID =
     (if ti_PathPrefix e \<noteq> [] \<and> \<not> HasPrefix path (ti_PathPrefix e) then False
      else if ti_Extension e \<noteq> [] \<and> \<not> HasSuffix path (ti_Extension e) then False
      else if ti_SpaceID e \<noteq> [] \<and> ti_SpaceID e \<noteq> spaceID then False
      else True)"

section \<open>Tables with a primary key\<close>

text \<open>\<^verbatim>\<open>INSERT ... ON CONFLICT(key) DO UPDATE SET\<close> every other column.\<close>

fun sql_upsert :: "('r \<Rightarrow> 'k) \<Rightarrow> 'r \<Rightarrow> 'r list \<Rightarrow> 'r list" where
  "sql_upsert key r [] = [r]"
| "sql_upsert key r (x # xs) = (if key x = key r then r # xs else x # sql_upsert key r xs)"

definition sql_delete :: "('r \<Rightarrow> bool) \<Rightarrow> 'r list \<Rightarrow> 'r list" where
  "sql_delete p rows = filter (\<lambda>r. \<not> p r) rows"

definition sql_select :: "('r \<Rightarrow> bool) \<Rightarrow> 'r list \<Rightarrow> 'r list" where
  "sql_select p rows = filter p rows"

text \<open>\<^verbatim>\<open>QueryRow\<close> scans the first row of the result, if there is one.\<close>

definition sql_first :: "('r \<Rightarrow> bool) \<Rightarrow> 'r list \<Rightarrow> 'r option" where
  "sql_first p rows = (case sql_select p rows of [] \<Rightarrow> None | r # _ \<Rightarrow> Some r)"

locale keyed_table =
  fixes key :: "'r \<Rightarrow> 'k"
    and upsert :: "'r \<Rightarrow> 'r list \<Rightarrow> 'r list"
    and remove :: "'k \<Rightarrow> 'r list \<Rightarrow> 'r list"
    and row :: "'r list \<Rightarrow> 'k \<Rightarrow> 'r option"
    and keys_ok :: "'r list \<Rightarrow> bool"
  assumes keys_ok_Nil: "keys_ok []"
    and keys_ok_upsert: "keys_ok t \<Longrightarrow> keys_ok (upsert r t)"
    and keys_ok_remove: "keys_ok t \<Longrightarrow> keys_ok (remove k t)"
    and row_Nil: "row [] k = None"
    and row_upsert: "keys_ok t \<Longrightarrow> row (upsert r t) = (row t)(key r := Some r)"
    and row_remove: "keys_ok t \<Longrightarrow> row (remove k t) = (row t)(k := None)"
    and row_iff: "keys_ok t \<Longrightarrow> row t k = Some r \<longleftrightarrow> r \<in> set t \<and> key r = k"
begin

lemma in_upsert_iff:
  assumes "keys_ok t"
  shows "r' \<in> set (upsert r t) \<longleftrightarrow> r' = r \<or> (r' \<in> set t \<and> key r' \<noteq> key r)"
proof -
  have "r' \<in> set (upsert r t) \<longleftrightarrow> row (upsert r t) (key r') = Some r'"
    using row_iff [OF keys_ok_upsert [OF assms]] by simp
  also have "\<dots> \<longleftrightarrow> ((row t)(key r := Some r)) (key r') = Some r'"
    using row_upsert [OF assms] by simp
  also have "\<dots> \<longleftrightarrow> r' = r \<or> (r' \<in> set t \<and> key r' \<noteq> key r)"
    using row_iff [OF assms] by auto
  finally show ?thesis .
qed

lemma in_remove_iff:
  assumes "keys_ok t"
  shows "r' \<in> set (remove k t) \<longleftrightarrow> r' \<in> set t \<and> key r' \<noteq> k"
proof -
  have "r' \<in> set (remove k t) \<longleftrightarrow> row (remove k t) (key r') = Some r'"
    using row_iff [OF keys_ok_remove [OF assms]] by simp
  also have "\<dots> \<longleftrightarrow> ((row t)(k := None)) (key r') = Some r'"
    using row_remove [OF assms] by simp
  also have "\<dots> \<longleftrightarrow> r' \<in> set t \<and> key r' \<noteq> k"
    using row_iff [OF assms] by auto
  finally show ?thesis .
qed

lemma key_unique: "keys_ok t \<Longrightarrow> r \<in> set t \<Longrightarrow> r' \<in> set t \<Longrightarrow> key r = key r' \<Longrightarrow> r = r'"
  using row_iff by (metis option.inject)

lemma upsert_twice: "keys_ok t \<Longrightarrow> key r = key r' \<Longrightarrow> row (upsert r (upsert r' t)) = row (upsert r t)"
  by (simp add: row_upsert keys_ok_upsert)

lemma upsert_remove: "keys_ok t \<Longrightarrow> row (remove (key r) (upsert r t)) = row (remove (key r) t)"
  by (simp add: row_upsert row_remove keys_ok_upsert)

lemma upsert_other: "keys_ok t \<Longrightarrow> k \<noteq> key r \<Longrightarrow> row (upsert r t) k = row t k"
  by (simp add: row_upsert)

lemma remove_other: "keys_ok t \<Longrightarrow> k \<noteq> k' \<Longrightarrow> row (remove k' t) k = row t k"
  by (simp add: row_remove)

end

definition pk_ok :: "('r \<Rightarrow> 'k) \<Rightarrow> 'r list \<Rightarrow> bool" where
  "pk_ok key rows = distinct (map key rows)"

lemma key_set_sql_upsert: "key ` set (sql_upsert key r rows) = insert (key r) (key ` set rows)"
  by (induction rows) auto

lemma pk_ok_sql_upsert: "pk_ok key rows \<Longrightarrow> pk_ok key (sql_upsert key r rows)"
  unfolding pk_ok_def
proof (induction rows)
  case Nil
  then show ?case by simp
next
  case (Cons x xs)
  then show ?case using key_set_sql_upsert [of key r xs] by (auto simp flip: set_map)
qed

lemma pk_ok_sql_delete: "pk_ok key rows \<Longrightarrow> pk_ok key (sql_delete p rows)"
  by (simp add: pk_ok_def sql_delete_def distinct_map_filter)

lemma sql_first_Nil [simp]: "sql_first p [] = None"
  by (simp add: sql_first_def sql_select_def)

lemma sql_first_Cons [simp]: "sql_first p (x # xs) = (if p x then Some x else sql_first p xs)"
  by (simp add: sql_first_def sql_select_def)

lemma sql_first_upsert:
  "sql_first (\<lambda>x. key x = k) (sql_upsert key r rows) =
   (if k = key r then Some r else sql_first (\<lambda>x. key x = k) rows)"
  by (induction rows) auto

lemma sql_first_delete:
  "sql_first (\<lambda>x. key x = k) (sql_delete (\<lambda>x. key x = k') rows) =
   (if k = k' then None else sql_first (\<lambda>x. key x = k) rows)"
  by (induction rows) (auto simp: sql_delete_def)

lemma sql_first_SomeD: "sql_first p rows = Some r \<Longrightarrow> r \<in> set rows \<and> p r"
  by (induction rows) (auto split: if_splits)

lemma sql_first_iff:
  "pk_ok key rows \<Longrightarrow> sql_first (\<lambda>x. key x = k) rows = Some r \<longleftrightarrow> r \<in> set rows \<and> key r = k"
  unfolding pk_ok_def by (induction rows) (auto simp: image_iff)

lemma keyed_table_sql:
  "keyed_table key (sql_upsert key) (\<lambda>k. sql_delete (\<lambda>r. key r = k))
     (\<lambda>t k. sql_first (\<lambda>r. key r = k) t) (pk_ok key)"
  by unfold_locales
    (auto simp: pk_ok_sql_upsert pk_ok_sql_delete sql_first_upsert sql_first_delete sql_first_iff
      fun_eq_iff, simp add: pk_ok_def)


section \<open>The three tables\<close>

abbreviation cursor_key :: "cursor_row \<Rightarrow> string \<times> string" where
  "cursor_key c \<equiv> (cr_user_id c, cr_drive_id c)"

definition automations_upsert :: "automation_row \<Rightarrow> automation_row list \<Rightarrow> automation_row list" where
  "automations_upsert = sql_upsert ar_user_id"

definition automations_delete :: "string \<Rightarrow> automation_row list \<Rightarrow> automation_row list" where
  "automations_delete userID = sql_delete (\<lambda>r. ar_user_id r = userID)"

definition automations_row :: "automation_row list \<Rightarrow> string \<Rightarrow> automation_row option" where
  "automations_row rows userID = sql_first (\<lambda>r. ar_user_id r = userID) rows"

definition trigger_index_upsert :: "TriggerIndexEntry \<Rightarrow> TriggerIndexEntry list \<Rightarrow> TriggerIndexEntry list" where
  "trigger_index_upsert = sql_upsert ti_WorkflowID"

definition trigger_index_delete :: "string \<Rightarrow> TriggerIndexEntry list \<Rightarrow> TriggerIndexEntry list" where
  "trigger_index_delete workflowID = sql_delete (\<lambda>e. ti_WorkflowID e = workflowID)"

definition trigger_index_row :: "TriggerIndexEntry list \<Rightarrow> string \<Rightarrow> TriggerIndexEntry option" where
  "trigger_index_row rows workflowID = sql_first (\<lambda>e. ti_WorkflowID e = workflowID) rows"

definition event_cursors_upsert :: "cursor_row \<Rightarrow> cursor_row list \<Rightarrow> cursor_row list" where
  "event_cursors_upsert = sql_upsert cursor_key"

definition event_cursors_row :: "cursor_row list \<Rightarrow> string \<times> string \<Rightarrow> cursor_row option" where
  "event_cursors_row rows k = sql_first (\<lambda>c. cursor_key c = k) rows"

interpretation automations: keyed_table ar_user_id automations_upsert automations_delete
    automations_row "pk_ok ar_user_id"
  unfolding automations_upsert_def automations_delete_def [abs_def] automations_row_def [abs_def]
  by (rule keyed_table_sql)

interpretation trigger_index: keyed_table ti_WorkflowID trigger_index_upsert trigger_index_delete
    trigger_index_row "pk_ok ti_WorkflowID"
  unfolding trigger_index_upsert_def trigger_index_delete_def [abs_def] trigger_index_row_def [abs_def]
  by (rule keyed_table_sql)

interpretation event_cursors: keyed_table cursor_key event_cursors_upsert
    "\<lambda>k. sql_delete (\<lambda>c. cursor_key c = k)" event_cursors_row "pk_ok cursor_key"
  unfolding event_cursors_upsert_def event_cursors_row_def [abs_def]
  by (rule keyed_table_sql)

section \<open>The database\<close>

record DB =
  db_box :: Box
  db_automations :: "automation_row list"
  db_triggers :: "TriggerIndexEntry list"
  db_cursors :: "cursor_row list"
  db_faults :: "go_error option list"

definition db_stmt :: "DB \<Rightarrow> go_error option \<times> DB" where
  "db_stmt d =
     (case db_faults d of [] \<Rightarrow> (None, d) | f # fs \<Rightarrow> (f, d\<lparr>db_faults := fs\<rparr>))"

definition db_exec :: "(DB \<Rightarrow> DB) \<Rightarrow> DB \<Rightarrow> unit result \<times> DB" where
  "db_exec f d = (case db_stmt d of (Some e, d') \<Rightarrow> (Inl e, d') | (None, d') \<Rightarrow> (Inr (), f d'))"

definition db_query :: "(DB \<Rightarrow> 'a result) \<Rightarrow> DB \<Rightarrow> 'a result \<times> DB" where
  "db_query f d = (case db_stmt d of (Some e, d') \<Rightarrow> (Inl e, d') | (None, d') \<Rightarrow> (f d', d'))"

definition UpsertAutomation :: "gcm \<Rightarrow> string result \<Rightarrow> Automation \<Rightarrow> DB \<Rightarrow> unit result \<times> DB" where
  "UpsertAutomation g nonce a d =
     (case Seal g (db_box d) nonce (am_AppPassword a) of
        Inl e \<Rightarrow> (Inl (Wrap ''encrypt app password'' e), d)
      | Inr encrypted \<Rightarrow>
          db_exec (\<lambda>d. d\<lparr>db_automations := automations_upsert
              \<lparr>ar_user_id = am_UserID a, ar_username = am_Username a, ar_encrypted = encrypted,
               ar_expires_at = format_rfc3339 (am_ExpiresAt a),
               ar_connected_at = format_rfc3339 (am_ConnectedAt a)\<rparr> (db_automations d)\<rparr>) d)"

text \<open>The part of \<^verbatim>\<open>GetAutomation\<close> and of the loop of \<^verbatim>\<open>ListAutomations\<close> that decodes one row.\<close>

definition scan_automation :: "gcm \<Rightarrow> Box \<Rightarrow> automation_row \<Rightarrow> Automation result" where
  "scan_automation g b r =
     (case Open g b (ar_encrypted r) of
        Inl e \<Rightarrow> Inl e
      | Inr plaintext \<Rightarrow> Inr \<lparr>am_UserID = ar_user_id r, am_Username = ar_username r,
          am_AppPassword = plaintext, am_ExpiresAt = parse_or_zero (ar_expires_at r),
          am_ConnectedAt = parse_or_zero (ar_connected_at r)\<rparr>)"

definition GetAutomation :: "gcm \<Rightarrow> string \<Rightarrow> DB \<Rightarrow> Automation result \<times> DB" where
  "GetAutomation g userID =
     db_query (\<lambda>d. case automations_row (db_automations d) userID of
         None \<Rightarrow> Inl DbNotFound
       | Some r \<Rightarrow> (case scan_automation g (db_box d) r of
             Inl e \<Rightarrow> Inl (Wrap ''decrypt app password'' e)
           | Inr a \<Rightarrow> Inr a))"

definition DeleteAutomation :: "string \<Rightarrow> DB \<Rightarrow> unit result \<times> DB" where
  "DeleteAutomation userID =
     db_exec (\<lambda>d. d\<lparr>db_automations := automations_delete userID (db_automations d)\<rparr>)"

fun scan_automations :: "gcm \<Rightarrow> Box \<Rightarrow> automation_row list \<Rightarrow> Automation list result" where
  "scan_automations g b [] = Inr []"
| "scan_automations g b (r # rs) =
     (case scan_automation g b r of
        Inl e \<Rightarrow> Inl (Wrap (''decrypt app password for user '' @ ar_user_id r) e)
      | Inr a \<Rightarrow> (case scan_automations g b rs of Inl e \<Rightarrow> Inl e | Inr as \<Rightarrow> Inr (a # as)))"

definition ListAutomations :: "gcm \<Rightarrow> DB \<Rightarrow> Automation list result \<times> DB" where
  "ListAutomations g = db_query (\<lambda>d. scan_automations g (db_box d) (db_automations d))"

definition UpsertTriggerIndexEntry :: "TriggerIndexEntry \<Rightarrow> DB \<Rightarrow> unit result \<times> DB" where
  "UpsertTriggerIndexEntry e =
     db_exec (\<lambda>d. d\<lparr>db_triggers := trigger_index_upsert e (db_triggers d)\<rparr>)"

definition DeleteTriggerIndexEntry :: "string \<Rightarrow> DB \<Rightarrow> unit result \<times> DB" where
  "DeleteTriggerIndexEntry workflowID =
     db_exec (\<lambda>d. d\<lparr>db_triggers := trigger_index_delete workflowID (db_triggers d)\<rparr>)"

definition listTriggers :: "string \<Rightarrow> DB \<Rightarrow> TriggerIndexEntry list result \<times> DB" where
  "listTriggers triggerType =
     db_query (\<lambda>d. Inr (sql_select (\<lambda>e. ti_TriggerType e = triggerType) (db_triggers d)))"

definition ListScheduleTriggers :: "DB \<Rightarrow> TriggerIndexEntry list result \<times> DB" where
  "ListScheduleTriggers = listTriggers ''schedule''"

definition ListEventTriggers :: "DB \<Rightarrow> TriggerIndexEntry list result \<times> DB" where
  "ListEventTriggers = listTriggers ''event''"

definition GetEventCursor :: "string \<Rightarrow> string \<Rightarrow> DB \<Rightarrow> EventCursor result \<times> DB" where
  "GetEventCursor userID driveID =
     db_query (\<lambda>d. case event_cursors_row (db_cursors d) (userID, driveID) of
         None \<Rightarrow> Inl DbNotFound
       | Some c \<Rightarrow> Inr \<lparr>ec_UserID = cr_user_id c, ec_DriveID = cr_drive_id c,
           ec_LastChecked = parse_or_zero (cr_last_checked c), ec_LastStatus = cr_last_status c\<rparr>)"

definition cursor_row_of :: "EventCursor \<Rightarrow> cursor_row" where
  "cursor_row_of c = \<lparr>cr_user_id = ec_UserID c, cr_drive_id = ec_DriveID c,
     cr_last_checked = format_rfc3339 (ec_LastChecked c), cr_last_status = ec_LastStatus c\<rparr>"

definition UpsertEventCursor :: "EventCursor \<Rightarrow> DB \<Rightarrow> unit result \<times> DB" where
  "UpsertEventCursor c =
     db_exec (\<lambda>d. d\<lparr>db_cursors := event_cursors_upsert (cursor_row_of c) (db_cursors d)\<rparr>)"

definition DeleteEventCursors :: "string \<Rightarrow> DB \<Rightarrow> unit result \<times> DB" where
  "DeleteEventCursors userID =
     db_exec (\<lambda>d. d\<lparr>db_cursors := sql_delete (\<lambda>c. cr_user_id c = userID) (db_cursors d)\<rparr>)"

definition GetReliability :: "string \<Rightarrow> DB \<Rightarrow> string result \<times> DB" where
  "GetReliability userID =
     db_query (\<lambda>d. case sql_first (\<lambda>c. cr_user_id c = userID \<and> cr_last_status c = ''sse-only'')
           (db_cursors d) of
         None \<Rightarrow> Inr ''full''
       | Some _ \<Rightarrow> Inr ''sse-only'')"

section \<open>Opening and migrating\<close>

text \<open>
  The schema of a database file: its tables with their columns. Each statement of the migration takes an entry of the
  fault schedule, as the other statements do: every \<^verbatim>\<open>CREATE\<close> of the script, of which \<^verbatim>\<open>Exec\<close> runs one after the
  other up to the first that fails, every query of the columns (its entry stands for a failure of the query or of reading
  its rows), and every \<^verbatim>\<open>ALTER\<close>.
\<close>

type_synonym schema = "(string \<times> string list) list"
type_synonym migration = "schema \<times> go_error option list"

definition sch_stmt :: "(schema \<Rightarrow> unit result \<times> schema) \<Rightarrow> migration \<Rightarrow> unit result \<times> migration" where
  "sch_stmt f = (\<lambda>(sch, faults). case faults of
       Some e # fs \<Rightarrow> (Inl e, sch, fs)
     | _ \<Rightarrow> (case f sch of (r, sch') \<Rightarrow> (r, sch', tl faults)))"

fun sch_all :: "(migration \<Rightarrow> unit result \<times> migration) list \<Rightarrow> migration \<Rightarrow> unit result \<times> migration" where
  "sch_all [] m = (Inr (), m)"
| "sch_all (x # xs) m = (case x m of (Inl e, m1) \<Rightarrow> (Inl e, m1) | (Inr _, m1) \<Rightarrow> sch_all xs m1)"

definition create_if_missing :: "string \<Rightarrow> string list \<Rightarrow> schema \<Rightarrow> schema" where
  "create_if_missing table cols sch =
     (if map_of sch table = None then sch @ [(table, cols)] else sch)"

definition create_table :: "string \<Rightarrow> string list \<Rightarrow> migration \<Rightarrow> unit result \<times> migration" where
  "create_table table cols = sch_stmt (\<lambda>sch. (Inr (), create_if_missing table cols sch))"

definition table_columns :: "schema \<Rightarrow> string \<Rightarrow> string list" where
  "table_columns sch table = (case map_of sch table of None \<Rightarrow> [] | Some cols \<Rightarrow> cols)"

definition add_column :: "string \<Rightarrow> string \<Rightarrow> schema \<Rightarrow> unit result \<times> schema" where
  "add_column table column sch =
     (if map_of sch table = None then (Inl (Msg (''no such table: '' @ table)), sch)
      else (Inr (), map (\<lambda>(t, cols). if t = table then (t, cols @ [column]) else (t, cols)) sch))"

definition addColumnIfMissing :: "string \<Rightarrow> string \<Rightarrow> migration \<Rightarrow> unit result \<times> migration" where
  "addColumnIfMissing table column m =
     (case sch_stmt (Pair (Inr ())) m of
        (Inl err, m1) \<Rightarrow> (Inl err, m1)
      | (Inr _, m1) \<Rightarrow>
          if column \<in> set (table_columns (fst m1) table) then (Inr (), m1)
          else sch_stmt (add_column table column) m1)"

definition create_script :: "(migration \<Rightarrow> unit result \<times> migration) list" where
  "create_script =
     [create_table ''automations'' [''user_id'', ''username'', ''encrypted_app_password'', ''expires_at'', ''connected_at''],
      create_table ''trigger_index'' [''workflow_id'', ''user_id'', ''trigger_type'', ''schedule'', ''event_type''],
      create_table ''event_cursors'' [''user_id'', ''drive_id'', ''last_checked'', ''last_status'']]"

definition migrate :: "migration \<Rightarrow> unit result \<times> migration" where
  "migrate m =
     (case sch_all create_script m of
        (Inl err, m1) \<Rightarrow> (Inl err, m1)
      | (Inr _, m1) \<Rightarrow> sch_all (map (addColumnIfMissing ''trigger_index'') [''path_prefix'', ''extension'', ''space_id'']) m1)"

text \<open>
  \<open>db_Open_file\<close> is \<^verbatim>\<open>Open\<close> on the file an earlier process left, whenever and however it ended, with its rows and its
  schema; \<open>opened\<close> is what \<^verbatim>\<open>sql.Open\<close> returns. The box is made of the key given now, and the statements after the
  migration go on with the schedule. It also gives the schema it leaves: an interrupted migration is finished by the next
  one (\<open>migrate_safe\<close>).
\<close>

definition db_Open_file :: "string \<Rightarrow> unit result \<Rightarrow> schema \<Rightarrow> go_error option list \<Rightarrow> DB \<Rightarrow> DB result \<times> schema" where
  "db_Open_file key opened sch faults file =
     (case secretbox_New key of
        Inl e \<Rightarrow> (Inl (Wrap ''init secretbox'' e), sch)
      | Inr b \<Rightarrow>
          (case opened of
             Inl e \<Rightarrow> (Inl e, sch)
           | Inr _ \<Rightarrow>
               (case migrate (sch, faults) of
                  (Inl e, sch', _) \<Rightarrow> (Inl e, sch')
                | (Inr _, sch', fs) \<Rightarrow> (Inr (file\<lparr>db_box := b, db_faults := fs\<rparr>), sch'))))"

text \<open>A database without rows: \<^verbatim>\<open>Open\<close> on a new file, or on one whose tables were made before but never used.\<close>

definition db_Open :: "string \<Rightarrow> unit result \<Rightarrow> schema \<Rightarrow> go_error option list \<Rightarrow> DB result" where
  "db_Open key opened sch faults =
     fst (db_Open_file key opened sch faults
       \<lparr>db_box = \<lparr>box_key = key\<rparr>, db_automations = [], db_triggers = [], db_cursors = [], db_faults = faults\<rparr>)"

section \<open>The well-formed database\<close>

definition db_ok :: "DB \<Rightarrow> bool" where
  "db_ok d = (pk_ok ar_user_id (db_automations d) \<and> pk_ok ti_WorkflowID (db_triggers d)
     \<and> pk_ok cursor_key (db_cursors d))"

definition no_faults :: "DB \<Rightarrow> bool" where
  "no_faults d = (db_faults d = [])"

named_theorems db_simps \<open>the database operations unfolded\<close>

lemmas db_ops_def =
  UpsertAutomation_def GetAutomation_def DeleteAutomation_def ListAutomations_def
  UpsertTriggerIndexEntry_def DeleteTriggerIndexEntry_def listTriggers_def ListScheduleTriggers_def
  ListEventTriggers_def GetEventCursor_def UpsertEventCursor_def DeleteEventCursors_def
  GetReliability_def

lemma db_stmt_cases:
  obtains (ok) d' where "db_stmt d = (None, d')" "db_automations d' = db_automations d"
      "db_triggers d' = db_triggers d" "db_cursors d' = db_cursors d" "db_box d' = db_box d"
  | (fault) e d' where "db_stmt d = (Some e, d')" "db_automations d' = db_automations d"
      "db_triggers d' = db_triggers d" "db_cursors d' = db_cursors d" "db_box d' = db_box d"
proof (cases "db_faults d")
  case Nil
  then show ?thesis using ok by (simp add: db_stmt_def)
next
  case (Cons f fs)
  then show ?thesis using ok fault by (cases f) (simp_all add: db_stmt_def)
qed

text \<open>A query never changes the tables; a failing statement changes none.\<close>

lemma db_query_frame:
  assumes "db_query f d = (r, d')"
  shows "db_automations d' = db_automations d" "db_triggers d' = db_triggers d"
    "db_cursors d' = db_cursors d" "db_box d' = db_box d"
  using assms by (cases rule: db_stmt_cases [of d]; auto simp: db_query_def)+

lemma db_exec_Inl:
  assumes "db_exec f d = (Inl e, d')"
  shows "db_automations d' = db_automations d" "db_triggers d' = db_triggers d"
    "db_cursors d' = db_cursors d" "db_box d' = db_box d"
  using assms by (cases rule: db_stmt_cases [of d]; auto simp: db_exec_def)+

lemma db_exec_Inr:
  assumes "db_exec f d = (Inr u, d')"
  obtains d1 where "d' = f d1" "db_automations d1 = db_automations d"
    "db_triggers d1 = db_triggers d" "db_cursors d1 = db_cursors d" "db_box d1 = db_box d"
  using assms by (cases rule: db_stmt_cases [of d]) (auto simp: db_exec_def)

lemma no_faults_stmt [db_simps]: "no_faults d \<Longrightarrow> db_stmt d = (None, d)"
  by (simp add: no_faults_def db_stmt_def)

lemma no_faults_exec [db_simps]: "no_faults d \<Longrightarrow> db_exec f d = (Inr (), f d)"
  by (simp add: db_exec_def db_simps)

lemma no_faults_query [db_simps]: "no_faults d \<Longrightarrow> db_query f d = (f d, d)"
  by (simp add: db_query_def db_simps)

lemma no_faults_update [simp]:
  "no_faults (d\<lparr>db_automations := a\<rparr>) = no_faults d" "no_faults (d\<lparr>db_triggers := t\<rparr>) = no_faults d"
  "no_faults (d\<lparr>db_cursors := c\<rparr>) = no_faults d"
  by (simp_all add: no_faults_def)

text \<open>Every operation that writes keeps the primary keys distinct.\<close>

lemma db_exec_ok:
  assumes "db_ok d" "\<And>x. db_ok x \<Longrightarrow> db_ok (f x)"
  shows "db_ok (snd (db_exec f d))"
  using assms by (cases rule: db_stmt_cases [of d]) (auto simp: db_exec_def db_ok_def)

lemma db_query_ok: "db_ok d \<Longrightarrow> db_ok (snd (db_query f d))"
  by (cases rule: db_stmt_cases [of d]) (auto simp: db_query_def db_ok_def)

lemma UpsertAutomation_ok: "db_ok d \<Longrightarrow> db_ok (snd (UpsertAutomation g n a d))"
  unfolding UpsertAutomation_def
  by (cases "Seal g (db_box d) n (am_AppPassword a)"; simp; intro db_exec_ok)
    (auto simp: db_ok_def automations.keys_ok_upsert)

lemma DeleteAutomation_ok: "db_ok d \<Longrightarrow> db_ok (snd (DeleteAutomation u d))"
  unfolding DeleteAutomation_def
  by (intro db_exec_ok) (auto simp: db_ok_def automations.keys_ok_remove)

lemma UpsertTriggerIndexEntry_ok: "db_ok d \<Longrightarrow> db_ok (snd (UpsertTriggerIndexEntry e d))"
  unfolding UpsertTriggerIndexEntry_def
  by (intro db_exec_ok) (auto simp: db_ok_def trigger_index.keys_ok_upsert)

lemma DeleteTriggerIndexEntry_ok: "db_ok d \<Longrightarrow> db_ok (snd (DeleteTriggerIndexEntry e d))"
  unfolding DeleteTriggerIndexEntry_def
  by (intro db_exec_ok) (auto simp: db_ok_def trigger_index.keys_ok_remove)

lemma UpsertEventCursor_ok: "db_ok d \<Longrightarrow> db_ok (snd (UpsertEventCursor c d))"
  unfolding UpsertEventCursor_def
  by (intro db_exec_ok) (auto simp: db_ok_def event_cursors.keys_ok_upsert)

lemma DeleteEventCursors_ok: "db_ok d \<Longrightarrow> db_ok (snd (DeleteEventCursors u d))"
  unfolding DeleteEventCursors_def
  by (intro db_exec_ok) (auto simp: db_ok_def pk_ok_sql_delete)

lemmas db_ok_intros =
  db_query_ok UpsertAutomation_ok DeleteAutomation_ok UpsertTriggerIndexEntry_ok
  DeleteTriggerIndexEntry_ok UpsertEventCursor_ok DeleteEventCursors_ok


section \<open>What the operations promise\<close>

lemma UpsertAutomation_Inr:
  assumes "UpsertAutomation g n a d = (Inr u, d')"
  obtains enc d1 where "Seal g (db_box d) n (am_AppPassword a) = Inr enc"
    "d' = d1\<lparr>db_automations := automations_upsert
        \<lparr>ar_user_id = am_UserID a, ar_username = am_Username a, ar_encrypted = enc,
         ar_expires_at = format_rfc3339 (am_ExpiresAt a),
         ar_connected_at = format_rfc3339 (am_ConnectedAt a)\<rparr> (db_automations d)\<rparr>"
    "db_box d1 = db_box d" "db_triggers d1 = db_triggers d" "db_cursors d1 = db_cursors d"
  using assms unfolding UpsertAutomation_def
  by (auto split: sum.splits elim!: db_exec_Inr)

lemma UpsertAutomation_Inl:
  assumes "UpsertAutomation g n a d = (Inl e, d')"
  shows "db_automations d' = db_automations d" "db_triggers d' = db_triggers d"
    "db_cursors d' = db_cursors d" "db_box d' = db_box d"
  using assms unfolding UpsertAutomation_def
  by (auto split: sum.splits dest: db_exec_Inl)

lemma scan_sealed:
  assumes "gcm_ok g" "length nonce = NonceSize" "Seal g b (Inr nonce) (am_AppPassword a) = Inr enc"
    "rfc_range (am_ExpiresAt a)" "rfc_range (am_ConnectedAt a)"
  shows "scan_automation g b \<lparr>ar_user_id = am_UserID a, ar_username = am_Username a,
      ar_encrypted = enc, ar_expires_at = format_rfc3339 (am_ExpiresAt a),
      ar_connected_at = format_rfc3339 (am_ConnectedAt a)\<rparr>
    = Inr (a\<lparr>am_ExpiresAt := whole_second (am_ExpiresAt a),
             am_ConnectedAt := whole_second (am_ConnectedAt a)\<rparr>)"
  using Open_Seal [OF assms(1,2,3)] assms(4,5) by (simp add: scan_automation_def)

text \<open>
  A stored credential comes back: after a successful \<^verbatim>\<open>UpsertAutomation\<close>, \<^verbatim>\<open>GetAutomation\<close> of that
  user returns the same credential, decrypted, with its two instants cut to whole seconds, and what
  any other user's lookup finds is unchanged.
\<close>

lemma automation_roundtrip:
  assumes "gcm_ok g" "length nonce = NonceSize" "rfc_range (am_ExpiresAt a)" "rfc_range (am_ConnectedAt a)"
    "db_ok d" "UpsertAutomation g (Inr nonce) a d = (Inr u, d')" "no_faults d'"
  shows "fst (GetAutomation g (am_UserID a) d') =
      Inr (a\<lparr>am_ExpiresAt := whole_second (am_ExpiresAt a),
             am_ConnectedAt := whole_second (am_ConnectedAt a)\<rparr>)
    \<and> (v \<noteq> am_UserID a \<longrightarrow>
        automations_row (db_automations d') v = automations_row (db_automations d) v)"
proof -
  from UpsertAutomation_Inr [OF assms(6)] obtain enc d1 where
    enc: "Seal g (db_box d) (Inr nonce) (am_AppPassword a) = Inr enc" and
    d': "d' = d1\<lparr>db_automations := automations_upsert
        \<lparr>ar_user_id = am_UserID a, ar_username = am_Username a, ar_encrypted = enc,
         ar_expires_at = format_rfc3339 (am_ExpiresAt a),
         ar_connected_at = format_rfc3339 (am_ConnectedAt a)\<rparr> (db_automations d)\<rparr>" and
    box: "db_box d1 = db_box d" by metis
  have keys: "pk_ok ar_user_id (db_automations d)" using assms(5) by (simp add: db_ok_def)
  show ?thesis
    using scan_sealed [OF assms(1,2) enc assms(3,4)] d' box assms(7)
    by (auto simp: GetAutomation_def db_simps automations.row_upsert [OF keys])
qed

definition demo_gcm :: gcm where
  "demo_gcm = \<lparr>gcm_seal = (\<lambda>k n p. p), gcm_open = (\<lambda>k n c. Some c)\<rparr>"

definition demo_db :: DB where
  "demo_db = \<lparr>db_box = \<lparr>box_key = replicate 32 CHR ''k''\<rparr>, db_automations = [], db_triggers = [],
     db_cursors = [], db_faults = []\<rparr>"

definition demo_automation :: Automation where
  "demo_automation = \<lparr>am_UserID = ''u1'', am_Username = ''alice'', am_AppPassword = ''secret'',
     am_ExpiresAt = 1724166769 * second + 5, am_ConnectedAt = 1724166769 * second\<rparr>"

lemma demo_gcm_ok [simp]: "gcm_ok demo_gcm"
  by (simp add: gcm_ok_def demo_gcm_def)

lemma demo_db_ok [simp]: "db_ok demo_db" "no_faults demo_db"
  by (simp_all add: db_ok_def demo_db_def pk_ok_def no_faults_def)

lemma GetReliability_select:
  "(case sql_first (\<lambda>c. cr_user_id c = u \<and> cr_last_status c = ''sse-only'') rows of
      None \<Rightarrow> (Inr ''full'' :: string result) | Some _ \<Rightarrow> Inr ''sse-only'') =
   Inr (if \<exists>c\<in>set rows. cr_user_id c = u \<and> cr_last_status c = ''sse-only'' then ''sse-only'' else ''full'')"
  by (induction rows) auto

text \<open>
  Reliability is reported exactly: \<^verbatim>\<open>GetReliability\<close> answers "sse-only" if and only if some cursor
  of that user is marked so, whatever the other users' cursors say, and after \<^verbatim>\<open>DeleteEventCursors\<close>
  of the user it answers "full".
\<close>

lemma reliability_exact:
  assumes "no_faults d"
  shows "fst (GetReliability u d) =
      Inr (if \<exists>c\<in>set (db_cursors d). cr_user_id c = u \<and> cr_last_status c = ''sse-only''
           then ''sse-only'' else ''full'')
    \<and> fst (GetReliability u (snd (DeleteEventCursors u d))) = Inr ''full''"
  using assms
  by (simp add: GetReliability_def DeleteEventCursors_def db_simps GetReliability_select sql_delete_def)

lemma cursor_after_upsert:
  assumes "db_ok d" "no_faults d" "rfc_range (ec_LastChecked c)"
  shows "fst (GetEventCursor (ec_UserID c) (ec_DriveID c) (snd (UpsertEventCursor c d))) =
    Inr (c\<lparr>ec_LastChecked := whole_second (ec_LastChecked c)\<rparr>)"
  using assms
  by (simp add: GetEventCursor_def UpsertEventCursor_def db_simps db_ok_def cursor_row_of_def
      event_cursors.row_upsert)

text \<open>
  One row that does not open under the current key fails the whole listing, not only its own entry.
\<close>

lemma scan_automations_blocked:
  "r \<in> set rows \<Longrightarrow> scan_automation g b r = Inl e \<Longrightarrow> \<exists>e'. scan_automations g b rows = Inl e'"
  by (induction rows) (auto split: sum.splits)

lemma scan_automations_Inr:
  "scan_automations g b rows = Inr as \<longleftrightarrow> map (scan_automation g b) rows = map Inr as"
  by (induction rows arbitrary: as) (auto split: sum.splits simp: Cons_eq_map_conv, blast)

section \<open>Migration\<close>

text \<open>What the migration makes of a schema when no statement fails.\<close>

definition with_column :: "string \<Rightarrow> string \<Rightarrow> schema \<Rightarrow> schema" where
  "with_column table column sch =
     (if column \<in> set (table_columns sch table) then sch else snd (add_column table column sch))"

definition with_tables :: "schema \<Rightarrow> schema" where
  "with_tables sch =
     create_if_missing ''event_cursors'' [''user_id'', ''drive_id'', ''last_checked'', ''last_status'']
       (create_if_missing ''trigger_index'' [''workflow_id'', ''user_id'', ''trigger_type'', ''schedule'', ''event_type'']
         (create_if_missing ''automations''
            [''user_id'', ''username'', ''encrypted_app_password'', ''expires_at'', ''connected_at''] sch))"

definition migrated :: "schema \<Rightarrow> schema" where
  "migrated sch = fold (with_column ''trigger_index'') [''path_prefix'', ''extension'', ''space_id''] (with_tables sch)"

lemma table_columns_create:
  "table_columns (create_if_missing t cols sch) t' =
   (if t' = t \<and> map_of sch t = None then cols else table_columns sch t')"
  by (auto simp: table_columns_def create_if_missing_def map_add_def split: option.splits)

lemma map_of_create [simp]:
  "map_of (create_if_missing t cols sch) t' = None \<longleftrightarrow> t' \<noteq> t \<and> map_of sch t' = None"
  by (auto simp: create_if_missing_def map_add_def split: option.splits)

lemma map_of_add_column:
  "map_of (snd (add_column t c sch)) t'' =
   (if t'' = t then map_option (\<lambda>cols. cols @ [c]) (map_of sch t'') else map_of sch t'')"
proof -
  have "map_of (map (\<lambda>(t', cols). if t' = t then (t', cols @ [c]) else (t', cols)) sch) t'' =
      (if t'' = t then map_option (\<lambda>cols. cols @ [c]) (map_of sch t'') else map_of sch t'')"
    by (induction sch) auto
  then show ?thesis by (auto simp: add_column_def)
qed

lemma table_columns_add:
  "map_of sch t \<noteq> None \<Longrightarrow> set (table_columns (with_column t c sch) t') =
   (if t' = t then insert c (set (table_columns sch t')) else set (table_columns sch t'))"
  by (auto simp: with_column_def table_columns_def map_of_add_column split: option.splits)

lemma map_of_with_column [simp]: "map_of (with_column t c sch) t' = None \<longleftrightarrow> map_of sch t' = None"
  by (auto simp: with_column_def map_of_add_column)

lemma with_column_there: "c \<in> set (table_columns sch t) \<Longrightarrow> with_column t c sch = sch"
  by (simp add: with_column_def)

lemma create_idem [simp]: "map_of sch t \<noteq> None \<Longrightarrow> create_if_missing t cols sch = sch"
  by (simp add: create_if_missing_def)

lemma table_columns_create_mono:
  "set (table_columns sch t') \<subseteq> set (table_columns (create_if_missing t cols sch) t')"
  unfolding table_columns_create by (auto simp: table_columns_def)

lemma table_columns_add_mono:
  "map_of sch t \<noteq> None \<Longrightarrow> set (table_columns sch t') \<subseteq> set (table_columns (with_column t c sch) t')"
  by (auto simp: table_columns_add)

definition has_tables :: "schema \<Rightarrow> bool" where
  "has_tables sch = list_all (\<lambda>t. map_of sch t \<noteq> None) [''automations'', ''trigger_index'', ''event_cursors'']"

lemma has_tables_facts [simp]:
  "has_tables (with_tables sch)" "has_tables (with_column t c sch) = has_tables sch"
  "has_tables sch \<Longrightarrow> with_tables sch = sch"
  by (simp_all add: has_tables_def with_tables_def del: not_None_eq)

lemma has_tables_trigger_index: "has_tables sch \<Longrightarrow> map_of sch ''trigger_index'' \<noteq> None"
  by (simp add: has_tables_def)

text \<open>A statement either fails and leaves the schema, or has its effect.\<close>

lemma create_table_cases:
  "create_table t cols (sch, fs) = (r, sch', fs') \<Longrightarrow> (\<exists>e. r = Inl e) \<and> sch' = sch \<or> r = Inr () \<and> sch' = create_if_missing t cols sch"
  by (auto simp: create_table_def sch_stmt_def split: list.splits option.splits)

lemma addColumnIfMissing_cases:
  "addColumnIfMissing t c (sch, fs) = (r, sch', fs') \<Longrightarrow> map_of sch t \<noteq> None \<Longrightarrow>
   (\<exists>e. r = Inl e) \<and> sch' = sch \<or> r = Inr () \<and> sch' = with_column t c sch"
  by (auto simp: addColumnIfMissing_def sch_stmt_def with_column_def add_column_def
      split: list.splits option.splits prod.splits sum.splits if_splits)

text \<open>Statements in a row do the work of a prefix: of all of them, or of those before the one that fails.\<close>

definition does :: "(schema \<Rightarrow> bool) \<Rightarrow> (migration \<Rightarrow> unit result \<times> migration) \<Rightarrow> (schema \<Rightarrow> schema) \<Rightarrow> bool" where
  "does J x g = (\<forall>s fs r s' fs'. J s \<and> x (s, fs) = (r, s', fs') \<longrightarrow>
     J s' \<and> ((\<exists>e. r = Inl e) \<and> s' = s \<or> r = Inr () \<and> s' = g s))"

lemma sch_all_prefix:
  "list_all2 (does J) xs gs \<Longrightarrow> J s \<Longrightarrow> sch_all xs (s, fs) = (r, s', fs') \<Longrightarrow>
   r = Inr () \<and> s' = fold (\<lambda>f. f) gs s \<or> (\<exists>e. r = Inl e) \<and> (\<exists>k<length gs. s' = fold (\<lambda>f. f) (take k gs) s)"
proof (induction xs gs arbitrary: s fs rule: list_all2_induct)
  case (Cons x xs g gs)
  obtain r1 s1 fs1 where x: "x (s, fs) = (r1, s1, fs1)" by (metis prod_cases3)
  then consider e where "r1 = Inl e" "s1 = s" | "r1 = Inr ()" "s1 = g s" "J s1"
    using Cons.hyps(1) Cons.prems(1) unfolding does_def by blast
  then show ?case
  proof cases
    case 1
    then show ?thesis using Cons.prems(2) x by (auto intro: exI [of _ 0])
  next
    case 2
    then have "r = Inr () \<and> s' = fold (\<lambda>f. f) gs s1 \<or> (\<exists>e. r = Inl e) \<and> (\<exists>k<length gs. s' = fold (\<lambda>f. f) (take k gs) s1)"
      using Cons.IH [of s1 fs1] Cons.prems(2) x by simp
    moreover have "\<exists>k<length (g # gs). s' = fold (\<lambda>f. f) (take k (g # gs)) s" if "k < length gs" "s' = fold (\<lambda>f. f) (take k gs) s1" for k
      using that 2(2) by (intro exI [of _ "Suc k"]) simp
    ultimately show ?thesis using 2(2) by auto
  qed
qed simp

lemma create_script_prefix:
  assumes "sch_all create_script (sch, fs) = (r, s, fs')"
  shows "r = Inr () \<and> s = with_tables sch \<or> (\<exists>e. r = Inl e) \<and> with_tables s = with_tables sch"
    "set (table_columns sch t) \<subseteq> set (table_columns s t)"
proof -
  let ?a = "create_if_missing ''automations'' [''user_id'', ''username'', ''encrypted_app_password'', ''expires_at'', ''connected_at'']"
  let ?t = "create_if_missing ''trigger_index'' [''workflow_id'', ''user_id'', ''trigger_type'', ''schedule'', ''event_type'']"
  let ?c = "create_if_missing ''event_cursors'' [''user_id'', ''drive_id'', ''last_checked'', ''last_status'']"
  have w: "with_tables s = ?c (?t (?a s))" for s by (simp add: with_tables_def)
  have "list_all2 (does (\<lambda>_. True)) create_script [?a, ?t, ?c]"
    by (auto simp: create_script_def does_def dest: create_table_cases)
  note p = sch_all_prefix [OF this TrueI assms]
  then have s: "r = Inr () \<and> s = with_tables sch \<or> (\<exists>e. r = Inl e) \<and> s \<in> {sch, ?a sch, ?t (?a sch)}"
    by (auto simp: w less_Suc_eq numeral_3_eq_3)
  then show "r = Inr () \<and> s = with_tables sch \<or> (\<exists>e. r = Inl e) \<and> with_tables s = with_tables sch"
    unfolding w by auto
  have "set (table_columns sch t) \<subseteq> set (table_columns (?a sch) t)"
    "set (table_columns sch t) \<subseteq> set (table_columns (?t (?a sch)) t)"
    "set (table_columns sch t) \<subseteq> set (table_columns (with_tables sch) t)"
    unfolding w by (intro order_trans [OF _ table_columns_create_mono] order_refl)+
  then show "set (table_columns sch t) \<subseteq> set (table_columns s t)" using s by auto
qed

lemma add_columns_prefix:
  assumes "sch_all (map (addColumnIfMissing ''trigger_index'') [''path_prefix'', ''extension'', ''space_id'']) (s, fs) = (r, s', fs')"
    "has_tables s"
  shows "r = Inr () \<longrightarrow> s' = migrated s" "migrated s' = migrated s" "set (table_columns s t) \<subseteq> set (table_columns s' t)"
proof -
  let ?w = "with_column ''trigger_index''" and ?cs = "[''path_prefix'', ''extension'', ''space_id'']"
  have add: "set (table_columns (?w c s) t') = (if t' = ''trigger_index'' then insert c (set (table_columns s t')) else set (table_columns s t'))"
    if "has_tables s" for c s t'
    using table_columns_add [OF has_tables_trigger_index [OF that]] .
  have "does has_tables (addColumnIfMissing ''trigger_index'' c) (?w c)" for c
    using addColumnIfMissing_cases [of "''trigger_index''" c] has_tables_trigger_index has_tables_facts(2) unfolding does_def by blast
  then have "list_all2 (does has_tables) (map (addColumnIfMissing ''trigger_index'') ?cs) (map ?w ?cs)" by simp
  then have "r = Inr () \<and> s' = fold (\<lambda>f. f) (map ?w ?cs) s
      \<or> (\<exists>e. r = Inl e) \<and> (\<exists>k<length (map ?w ?cs). s' = fold (\<lambda>f. f) (take k (map ?w ?cs)) s)"
    using sch_all_prefix [where J = has_tables] assms by blast
  then have p: "s' \<in> {s, ?w ''path_prefix'' s, ?w ''extension'' (?w ''path_prefix'' s), fold ?w ?cs s}
      \<and> (r = Inr () \<longrightarrow> s' = fold ?w ?cs s)"
    by (auto simp: less_Suc_eq numeral_3_eq_3)
  have m: "migrated s = fold ?w ?cs s" using assms(2) by (simp add: migrated_def)
  have "has_tables s'" using p assms(2) by auto
  then have "migrated s' = fold ?w ?cs s'" by (simp add: migrated_def)
  then show "migrated s' = migrated s" unfolding m using p add [OF assms(2)] assms(2) by (auto simp: with_column_there add)
  show "r = Inr () \<longrightarrow> s' = migrated s" using p m by simp
  show "set (table_columns s t) \<subseteq> set (table_columns s' t)" using p assms(2) by (auto simp: add)
qed

text \<open>
  A migration loses nothing and can be interrupted: when it succeeds it has made of the schema what \<open>migrated\<close> says,
  with the three filter columns that were added after the first release; wherever a failing statement stops it, every
  table and column of the old schema is still there, and the next migration that succeeds ends with the same schema
  as if there had been no interruption.
\<close>

lemma migrate_safe:
  assumes "migrate (sch, fs) = (r, sch', fs')"
  shows "(r = Inr () \<longrightarrow> sch' = migrated sch) \<and> migrated sch' = migrated sch
    \<and> set (table_columns sch t) \<subseteq> set (table_columns sch' t)"
proof -
  obtain r1 s1 fs1 where c: "sch_all create_script (sch, fs) = (r1, s1, fs1)" by (metis prod_cases3)
  note p = create_script_prefix [OF c]
  have m: "with_tables s1 = with_tables sch \<Longrightarrow> migrated s1 = migrated sch" by (simp add: migrated_def)
  show ?thesis
  proof (cases r1)
    case (Inl e)
    then show ?thesis using assms c p m by (auto simp: migrate_def)
  next
    case (Inr _)
    then have s1: "s1 = with_tables sch" using p(1) by simp
    have a: "sch_all (map (addColumnIfMissing ''trigger_index'') [''path_prefix'', ''extension'', ''space_id'']) (s1, fs1) = (r, sch', fs')"
      using assms c Inr by (simp add: migrate_def)
    show ?thesis using add_columns_prefix(1,2) [OF a] add_columns_prefix(3) [OF a, of t] p(2) [of t] m s1 by auto
  qed
qed

text \<open>Without failing statements it succeeds.\<close>

lemma migrate_clean: "migrate (sch, []) = (Inr (), migrated sch, [])"
proof -
  have c: "create_table t cols (s, []) = (Inr (), create_if_missing t cols s, [])" for t cols s
    by (simp add: create_table_def sch_stmt_def)
  have a: "addColumnIfMissing ''trigger_index'' col (s, []) = (Inr (), with_column ''trigger_index'' col s, [])" if "has_tables s" for col s
    using has_tables_trigger_index [OF that]
    by (auto simp: addColumnIfMissing_def sch_stmt_def with_column_def add_column_def)
  have "sch_all create_script (sch, []) = (Inr (), with_tables sch, [])"
    by (simp add: create_script_def c with_tables_def)
  then show ?thesis by (simp add: migrate_def a migrated_def)
qed

lemma migrated_idem [simp]: "migrated (migrated sch) = migrated sch"
  using migrate_safe [OF migrate_clean] by blast

section \<open>What opening gives\<close>

lemma db_Open_file_Inr:
  assumes "fst (db_Open_file key opened sch faults file) = Inr db"
  obtains b fs where "secretbox_New key = Inr b" "db = file\<lparr>db_box := b, db_faults := fs\<rparr>"
  using assms by (auto simp: db_Open_file_def split: sum.splits prod.splits)

lemma db_Open_Inr:
  assumes "db_Open key opened sch faults = Inr db"
  obtains b fs where "secretbox_New key = Inr b"
    "db = \<lparr>db_box = b, db_automations = [], db_triggers = [], db_cursors = [], db_faults = fs\<rparr>"
  using assms unfolding db_Open_def by (rule db_Open_file_Inr) (use that in simp)

lemma db_Open_clean:
  "secretbox_New key = Inr b \<Longrightarrow>
   db_Open key (Inr ()) sch [] = Inr \<lparr>db_box = b, db_automations = [], db_triggers = [], db_cursors = [], db_faults = []\<rparr>"
  by (simp add: db_Open_def db_Open_file_def migrate_clean)

end
