(* ===== verification/World.thy ===== *)
theory World
  imports GoTime "HOL-Library.Multiset"
begin

text \<open>
  The world outside the process. Its state is of a type \<open>'w\<close> nothing is assumed about: it holds the
  oCIS instance, the language model, the notification services, the clock, the source of
  randomness, and the state of every other goroutine. An operation on it is a function
  \<open>'w \<Rightarrow> 'a \<times> 'w\<close>; an operation that can fail returns a \<^typ>\<open>'a result\<close>.

  The record \<open>platform\<close> holds what the Go runtime and the small libraries take from it: the clock,
  fresh UUIDs, nonces, whether the context at hand is done, and the order in which a range
  loop visits a map (Go leaves it open, and it differs from loop to loop).
\<close>

record 'w platform =
  pf_Now :: "'w \<Rightarrow> time \<times> 'w"
  pf_NewUUID :: "'w \<Rightarrow> string \<times> 'w"
  pf_Nonce :: "'w \<Rightarrow> string result \<times> 'w"
  pf_CtxDone :: "'w \<Rightarrow> bool"
  pf_RangeVars :: "vars \<Rightarrow> 'w \<Rightarrow> vars \<times> 'w"
  pf_RangeKeys :: "string list \<Rightarrow> 'w \<Rightarrow> string list \<times> 'w"

text \<open>The language's promise about range loops: every entry is visited exactly once.\<close>

definition range_ok :: "'w platform \<Rightarrow> bool" where
  "range_ok P = ((\<forall>m w. mset (fst (pf_RangeVars P m w)) = mset m)
     \<and> (\<forall>ks w. mset (fst (pf_RangeKeys P ks w)) = mset ks))"

lemma range_ok_vars: "range_ok P \<Longrightarrow> pf_RangeVars P m w = (m', w') \<Longrightarrow> mset m' = mset m"
  by (metis range_ok_def fst_conv)

lemma range_ok_keys: "range_ok P \<Longrightarrow> pf_RangeKeys P ks w = (ks', w') \<Longrightarrow> mset ks' = mset ks"
  by (metis range_ok_def fst_conv)

text \<open>An instant for examples, in seconds.\<close>

abbreviation demo_now :: int where "demo_now \<equiv> 1724166769"

text \<open>A platform whose world is a counter, for concrete runs: every reading advances it.\<close>

definition demo_platform :: "int platform" where
  "demo_platform = \<lparr>pf_Now = (\<lambda>w. (w * second, w + 1)),
     pf_NewUUID = (\<lambda>w. (''uuid-'' @ show_int w, w + 1)),
     pf_Nonce = (\<lambda>w. (Inr (replicate 12 CHR ''n''), w + 1)), pf_CtxDone = (\<lambda>w. False),
     pf_RangeVars = (\<lambda>m w. (m, w)), pf_RangeKeys = (\<lambda>ks w. (ks, w))\<rparr>"

lemma demo_range_ok [simp]: "range_ok demo_platform"
  by (simp add: range_ok_def demo_platform_def)

end
