(* ===== verification/InternalPath.thy ===== *)
theory InternalPath
  imports GoPrelude
begin

text \<open>
  The bookkeeping folder of the backend inside a user's space (backend/pkg/webdavstore/store.go): its
  directory names, the test that keeps the backend's own writes from triggering workflows, and what
  that test accepts.
\<close>

definition rootDir :: string where "rootDir = ''.workflows''"

definition definitionsDir :: string where "definitionsDir = ''definitions''"

definition executionsDir :: string where "executionsDir = ''executions''"

definition IsInternalPath :: "string \<Rightarrow> bool" where
  "IsInternalPath davPath =
     (let trimmed = TrimPrefix davPath ''/'' in
      trimmed = rootDir \<or> HasPrefix trimmed (rootDir @ ''/''))"

lemma rootDir_no_slash: "CHR 0x2F \<notin> set rootDir"
  by (simp add: rootDir_def)

lemma HasPrefix_slash_Split:
  "c \<notin> set d \<Longrightarrow> (s = d \<or> HasPrefix s (d @ [c])) \<longleftrightarrow> hd (Split c s) = d"
proof (induction s arbitrary: d)
  case Nil
  then show ?case by (cases d) auto
next
  case (Cons x s)
  show ?case
  proof (cases d)
    case Nil
    then show ?thesis by (auto split: list.splits)
  next
    case (Cons y d')
    then have "c \<notin> set d'" "y \<noteq> c" using Cons.prems by auto
    then show ?thesis
      using Cons Cons.IH [of d'] by (auto split: list.splits)
  qed
qed

text \<open>The test looks at the first component of the path, with or without a leading slash.\<close>

lemma IsInternalPath_first:
  "IsInternalPath p \<longleftrightarrow> hd (Split (CHR 0x2F) (TrimPrefix p ''/'')) = rootDir"
  using HasPrefix_slash_Split [OF rootDir_no_slash] by (simp add: IsInternalPath_def Let_def)

lemma internal_below [intro]: "IsInternalPath (rootDir @ ''/'' @ rest)" "IsInternalPath (''/'' @ rootDir @ ''/'' @ rest)"
  by (simp_all add: IsInternalPath_def TrimPrefix_def rootDir_def)

lemma not_internal_Nil [simp]: "\<not> IsInternalPath []"
  by (simp add: IsInternalPath_def TrimPrefix_def rootDir_def)

end
