(* ===== verification/Runtime.thy ===== *)
theory Runtime
  imports LocalDB World Model InternalPath
begin

text \<open>
  What the three background engines (scheduler, SSE manager, reconciler) share: the interfaces they
  are built from, as a record of operations on the world; the Basic authorization header of a stored
  credential; and the step that loads a workflow, runs it if it is enabled, and stores the record.
  The local database is the value of type \<^typ>\<open>DB\<close> that LocalDB defines; every other interface acts on
  the world only.
\<close>

record Drive =
  dr_ID :: string
  dr_Name :: string
  dr_DriveType :: string

record Activity =
  ac_ID :: string
  ac_Message :: string
  ac_ResourceID :: string
  ac_ResourceName :: string
  ac_RecordedTime :: time

record 'w WorkflowStore =
  ws_Get :: "string \<Rightarrow> string \<Rightarrow> 'w \<Rightarrow> WorkflowDefinition result \<times> 'w"
  ws_PutExecution :: "string \<Rightarrow> ExecutionRecord \<Rightarrow> 'w \<Rightarrow> unit result \<times> 'w"

record 'w engine =
  en_platform :: "'w platform"
  en_gcm :: gcm
  en_store :: "'w WorkflowStore"
  en_Run :: "string \<Rightarrow> WorkflowDefinition \<Rightarrow> string \<Rightarrow> string \<Rightarrow> 'w \<Rightarrow> ExecutionRecord \<times> 'w"
  en_ItemPath :: "string \<Rightarrow> string \<Rightarrow> string \<Rightarrow> 'w \<Rightarrow> string result \<times> 'w"
  en_ListDrives :: "string \<Rightarrow> 'w \<Rightarrow> Drive list result \<times> 'w"
  en_ListActivities :: "string \<Rightarrow> string \<Rightarrow> time \<Rightarrow> 'w \<Rightarrow> Activity list result \<times> 'w"

definition BasicAuth :: "Automation \<Rightarrow> string" where
  "BasicAuth a = ''Basic '' @ EncodeToString (am_Username a @ '':'' @ am_AppPassword a)"

text \<open>
  Loading a workflow by its id, running it if it is enabled, and storing the record of the run.
  Errors are logged and end the step.
\<close>

definition load_and_run :: "'w engine \<Rightarrow> string \<Rightarrow> string \<Rightarrow> string \<Rightarrow> string \<Rightarrow> 'w \<Rightarrow> 'w" where
  "load_and_run en triggeredBy authHeader workflowID resourcePath w =
     (case ws_Get (en_store en) authHeader workflowID w of
        (Inl e, w1) \<Rightarrow> w1
      | (Inr flow, w1) \<Rightarrow>
          if \<not> wd_Enabled flow then w1
          else case en_Run en authHeader flow triggeredBy resourcePath w1 of (rec, w2) \<Rightarrow>
            snd (ws_PutExecution (en_store en) authHeader rec w2))"

lemma load_and_run_disabled:
  "ws_Get (en_store en) a i w = (Inr flow, w1) \<Longrightarrow> \<not> wd_Enabled flow \<Longrightarrow> load_and_run en by a i p w = w1"
  by (simp add: load_and_run_def)

text \<open>The credential can be read back from the header: the username ends at the first colon.\<close>

lemma BasicAuth_inject:
  assumes "BasicAuth a = BasicAuth b" "CHR '':'' \<notin> set (am_Username a)" "CHR '':'' \<notin> set (am_Username b)"
  shows "am_Username a = am_Username b \<and> am_AppPassword a = am_AppPassword b"
proof -
  have e: "am_Username a @ CHR '':'' # am_AppPassword a = am_Username b @ CHR '':'' # am_AppPassword b"
    using assms(1) by (simp add: BasicAuth_def)
  have tw: "takeWhile (\<lambda>c. c \<noteq> CHR '':'') (am_Username x @ CHR '':'' # p) = am_Username x"
    if "CHR '':'' \<notin> set (am_Username x)" for x p
    using that by (subst takeWhile_append2) auto
  have "am_Username a = am_Username b" using arg_cong [OF e, of "takeWhile (\<lambda>c. c \<noteq> CHR '':'')"] tw assms(2,3) by metis
  then show ?thesis using e by simp
qed

text \<open>
  Concrete values for the examples of the engines: a world that counts, an oCIS with two drives and
  one activity, and workflows that are enabled unless their id is "off".
\<close>

definition demo_flow :: "string \<Rightarrow> WorkflowDefinition" where
  "demo_flow i = \<lparr>wd_ID = i, wd_Name = ''n'', wd_Description = [], wd_Enabled = (i \<noteq> ''off''),
     wd_Trigger = zero_trigger, wd_Graph = zero_graph, wd_CreatedDateTime = [], wd_LastModifiedDateTime = []\<rparr>"

definition demo_activity :: "string \<Rightarrow> Activity" where
  "demo_activity i = \<lparr>ac_ID = i, ac_Message = ''{user} added {resource} to {folder}'', ac_ResourceID = ''st$sp!op'',
     ac_ResourceName = ''a.pdf'', ac_RecordedTime = 0\<rparr>"

definition demo_engine :: "int engine" where
  "demo_engine = \<lparr>en_platform = demo_platform, en_gcm = demo_gcm,
     en_store = \<lparr>ws_Get = (\<lambda>a i w. (Inr (demo_flow i), w)), ws_PutExecution = (\<lambda>a r w. (Inr (), w + 1))\<rparr>,
     en_Run = (\<lambda>a f t p w. (\<lparr>xr_ID = show_int w, xr_WorkflowID = wd_ID f, xr_TriggeredBy = t,
        xr_Status = ''succeeded'', xr_StartedDateTime = [], xr_CompletedDateTime = [],
        xr_NodeResults = [], xr_Error = None\<rparr>, w + 10)),
     en_ItemPath = (\<lambda>a s i w. (Inr (''/in/'' @ i), w + 100)),
     en_ListDrives = (\<lambda>a w. (Inr [\<lparr>dr_ID = ''d1'', dr_Name = ''P'', dr_DriveType = ''personal''\<rparr>,
        \<lparr>dr_ID = ''v'', dr_Name = ''S'', dr_DriveType = ''virtual''\<rparr>], w)),
     en_ListActivities = (\<lambda>a d t w. (Inr [demo_activity ''a1'', demo_activity ''a1''], w))\<rparr>"

definition demo_event_trigger :: "string \<Rightarrow> string \<Rightarrow> string \<Rightarrow> TriggerIndexEntry" where
  "demo_event_trigger i u ext = \<lparr>ti_WorkflowID = i, ti_UserID = u, ti_TriggerType = ''event'',
     ti_Schedule = [], ti_EventType = ''upload'', ti_PathPrefix = [], ti_Extension = ext, ti_SpaceID = []\<rparr>"

end
