(* ===== verification/OcisClient.thy ===== *)
theory OcisClient
  imports ModelJson Http Runtime
begin

text \<open>
  backend/pkg/ocisclient: the calls of oCIS's Graph, app-password, WebDAV-property and activity-log
  APIs, each as a function from the transport and the world. The record \<open>net\<close> holds what a client
  is built from: the transport, the JSON codec and the XML parser. The base URL is an argument.
\<close>

record 'w net =
  nt_http :: "'w http"
  nt_codec :: codec
  nt_xml :: "string \<Rightarrow> xml result"

definition Client_New :: "string \<Rightarrow> string" where
  "Client_New ocisURL = TrimRight (CHR ''/'') ocisURL"

text \<open>\<^verbatim>\<open>time.Duration\<close>'s \<^verbatim>\<open>String\<close>.\<close>

definition fraction_text :: "nat \<Rightarrow> int \<Rightarrow> string" where
  "fraction_text digits v =
     (let f = TrimRight (CHR ''0'') (pad digits (nat (v mod 10 ^ digits))) in
      show_int (v div 10 ^ digits) @ (if f = [] then [] else CHR ''.'' # f))"

definition duration_String :: "duration \<Rightarrow> string" where
  "duration_String d =
     (let u = \<bar>d\<bar>;
          body = (if u = 0 then ''0s''
            else if u < 1000 then show_int u @ ''ns''
            else if u < 1000000 then fraction_text 3 u @ [CHR 0xC2, CHR 0xB5, CHR ''s'']
            else if u < second then fraction_text 6 u @ ''ms''
            else let s = u div second; m = s div 60; h = m div 60 in
              (if h > 0 then show_int h @ ''h'' else []) @
              (if m > 0 then show_int (m mod 60) @ ''m'' else []) @
              fraction_text 9 (u - (m * 60) * second) @ ''s'')
      in (if d < 0 then ''-'' else []) @ body)"

section \<open>Identity\<close>

definition bearer :: "string \<Rightarrow> (string \<times> string) list" where
  "bearer authHeader = [(''Authorization'', authHeader)]"

definition dec_id :: "json \<Rightarrow> string result" where
  "dec_id = dec_struct (string_field ''id'') []"

definition Me :: "'w net \<Rightarrow> string \<Rightarrow> string \<Rightarrow> 'w \<Rightarrow> string result \<times> 'w" where
  "Me nt baseURL authHeader w =
     (case send (nt_http nt) ''GET'' (baseURL @ ''/graph/v1.0/me'') (bearer authHeader) [] w of
        (Inl err, w1) \<Rightarrow> (Inl err, w1)
      | (Inr res, w1) \<Rightarrow>
          (if rs_Status res \<noteq> 200
           then Inl (Msg (''graph /me returned status '' @ show_int (rs_Status res)))
           else check_err (DecodeBody (nt_codec nt) res) (\<lambda>j.
                check_err (dec_id j) (\<lambda>i.
                if i = [] then Inl (Msg ''graph /me response has no id'') else Inr i)), w1))"

definition Username :: "'w net \<Rightarrow> string \<Rightarrow> string \<Rightarrow> 'w \<Rightarrow> string result \<times> 'w" where
  "Username nt baseURL authHeader w =
     (case send (nt_http nt) ''GET'' (baseURL @ ''/graph/v1.0/me'') (bearer authHeader) [] w of
        (Inl err, w1) \<Rightarrow> (Inl err, w1)
      | (Inr res, w1) \<Rightarrow>
          (if rs_Status res \<noteq> 200
           then Inl (Msg (''graph /me returned status '' @ show_int (rs_Status res)))
           else check_err (DecodeBody (nt_codec nt) res) (\<lambda>j.
                check_err (dec_id j) (\<lambda>_.
                check_err (dec_struct (string_field ''onPremisesSamAccountName'') [] j) (\<lambda>u.
                if u = [] then Inl (Msg ''graph /me response has no onPremisesSamAccountName'') else Inr u))), w1))"

section \<open>App-passwords\<close>

text \<open>
  A \<^verbatim>\<open>time.Time\<close> field: a string in RFC 3339 form, with an optional fraction (digits after the ninth
  are dropped) and a zone.
\<close>

definition zone_offset :: "string \<Rightarrow> int option" where
  "zone_offset z =
     (if z = ''Z'' then Some 0
      else if length z = 6 \<and> z ! 3 = CHR '':'' \<and> (hd z = CHR ''+'' \<or> hd z = CHR ''-'')
      then (case (digits_val (take 2 (drop 1 z)), digits_val (drop 4 z)) of
              (Some h, Some m) \<Rightarrow>
                if h < 24 \<and> m < 60 then Some ((if hd z = CHR ''+'' then 1 else - 1) * (h * 3600 + m * 60) * second)
                else None
            | _ \<Rightarrow> None)
      else None)"

definition parse_time :: "string \<Rightarrow> time option" where
  "parse_time s =
     (let r = drop 19 s; point = (r \<noteq> [] \<and> hd r = CHR ''.'');
          frac = (if point then takeWhile (\<lambda>c. digit_val c \<noteq> None) (tl r) else []);
          z = (if point then dropWhile (\<lambda>c. digit_val c \<noteq> None) (tl r) else r)
      in if point \<and> frac = [] then None
         else case (parse_rfc3339 (take 19 s @ ''Z''), digits_val (take 9 (frac @ replicate 9 (CHR ''0''))), zone_offset z) of
                (Some t, Some ns, Some off) \<Rightarrow> Some (t + ns - off)
              | _ \<Rightarrow> None)"

definition dec_time :: "time \<Rightarrow> json \<Rightarrow> time result" where
  "dec_time cur v =
     (case v of JNull \<Rightarrow> Inr cur
      | JStr s \<Rightarrow> (case parse_time s of None \<Rightarrow> Inl (Msg ''parsing time'') | Some t \<Rightarrow> Inr t)
      | _ \<Rightarrow> Inl (Msg ''Time.UnmarshalJSON: input is not a JSON string''))"

definition dec_token :: "json \<Rightarrow> (string \<times> time) result" where
  "dec_token = dec_struct (\<lambda>cur kvs.
     check_err (string_field ''token'' (fst cur) kvs) (\<lambda>t.
     check_err (value_field ''expiration_date'' dec_time (snd cur) kvs) (\<lambda>e. Inr (t, e)))) ([], zero_time)"

definition MintAppPassword :: "'w net \<Rightarrow> string \<Rightarrow> string \<Rightarrow> duration \<Rightarrow> string \<Rightarrow> 'w
    \<Rightarrow> (string \<times> time) result \<times> 'w" where
  "MintAppPassword nt baseURL authHeader expiry label w =
     (case send (nt_http nt) ''POST''
             (baseURL @ ''/auth-app/tokens?'' @ Values_Encode [(''expiry'', duration_String expiry), (''label'', label)])
             (bearer authHeader) [] w of
        (Inl err, w1) \<Rightarrow> (Inl err, w1)
      | (Inr res, w1) \<Rightarrow>
          (if rs_Status res \<noteq> 200 \<and> rs_Status res \<noteq> 201
           then Inl (Msg (''mint app password returned status '' @ show_int (rs_Status res)))
           else case check_err (DecodeBody (nt_codec nt) res) dec_token of
                  Inl err \<Rightarrow> Inl (Wrap ''decode app password response'' err)
                | Inr (token, expires) \<Rightarrow>
                    if token = [] then Inl (Msg ''mint app password: response has no token'')
                    else Inr (token, expires), w1))"

definition RevokeAppPassword :: "'w net \<Rightarrow> string \<Rightarrow> string \<Rightarrow> string \<Rightarrow> 'w \<Rightarrow> unit result \<times> 'w" where
  "RevokeAppPassword nt baseURL authHeader token w =
     (case send (nt_http nt) ''DELETE'' (baseURL @ ''/auth-app/tokens?'' @ Values_Encode [(''token'', token)])
             (bearer authHeader) [] w of
        (Inl err, w1) \<Rightarrow> (Inl err, w1)
      | (Inr res, w1) \<Rightarrow>
          (if rs_Status res \<noteq> 200 \<and> rs_Status res \<noteq> 204
           then Inl (Msg (''revoke app password returned status '' @ show_int (rs_Status res)))
           else Inr (), w1))"

section \<open>Drives, items, activities\<close>

definition dec_item :: "json \<Rightarrow> (string \<times> string) result" where
  "dec_item = dec_struct (\<lambda>cur kvs.
     check_err (string_field ''name'' (fst cur) kvs) (\<lambda>n.
     check_err (value_field ''parentReference'' (dec_struct (string_field ''path'')) (snd cur) kvs) (\<lambda>p.
     Inr (n, p)))) ([], [])"

definition ItemPath :: "'w net \<Rightarrow> string \<Rightarrow> string \<Rightarrow> string \<Rightarrow> string \<Rightarrow> 'w \<Rightarrow> string result \<times> 'w" where
  "ItemPath nt baseURL authHeader spaceID itemID w =
     (case send (nt_http nt) ''GET''
             (baseURL @ ''/graph/v1.0/drives/'' @ PathEscape spaceID @ ''/items/'' @ PathEscape itemID)
             (bearer authHeader) [] w of
        (Inl err, w1) \<Rightarrow> (Inl err, w1)
      | (Inr res, w1) \<Rightarrow>
          (if rs_Status res \<noteq> 200
           then Inl (Msg (''resolve item path returned status '' @ show_int (rs_Status res)))
           else check_err (DecodeBody (nt_codec nt) res) (\<lambda>j.
                check_err (dec_item j) (\<lambda>(name, parent).
                if name = [] then Inl (Msg ''resolve item path: response has no name'')
                else Inr (TrimRight (CHR ''/'') parent @ ''/'' @ name))), w1))"

text \<open>The element type of a list response, and the list itself under its key "value".\<close>

definition dec_drive :: "Drive \<Rightarrow> json \<Rightarrow> Drive result" where
  "dec_drive = dec_struct (\<lambda>d kvs.
     check_err (string_field ''id'' (dr_ID d) kvs) (\<lambda>i.
     check_err (string_field ''name'' (dr_Name d) kvs) (\<lambda>n.
     check_err (string_field ''driveType'' (dr_DriveType d) kvs) (\<lambda>t.
     Inr \<lparr>dr_ID = i, dr_Name = n, dr_DriveType = t\<rparr>))))"

definition dec_value :: "('a \<Rightarrow> json \<Rightarrow> 'a result) \<Rightarrow> 'a \<Rightarrow> json \<Rightarrow> 'a list result" where
  "dec_value dec zero = dec_struct (value_field ''value'' (dec_slice dec zero)) []"

definition ListDrives :: "'w net \<Rightarrow> string \<Rightarrow> string \<Rightarrow> 'w \<Rightarrow> Drive list result \<times> 'w" where
  "ListDrives nt baseURL authHeader w =
     (case send (nt_http nt) ''GET'' (baseURL @ ''/graph/v1.0/me/drives'') (bearer authHeader) [] w of
        (Inl err, w1) \<Rightarrow> (Inl err, w1)
      | (Inr res, w1) \<Rightarrow>
          (if rs_Status res \<noteq> 200
           then Inl (Msg (''list drives returned status '' @ show_int (rs_Status res)))
           else check_err (DecodeBody (nt_codec nt) res)
                  (dec_value dec_drive \<lparr>dr_ID = [], dr_Name = [], dr_DriveType = []\<rparr>), w1))"

definition dec_activity :: "Activity \<Rightarrow> json \<Rightarrow> Activity result" where
  "dec_activity = dec_struct (\<lambda>a kvs.
     check_err (string_field ''id'' (ac_ID a) kvs) (\<lambda>i.
     check_err (value_field ''template'' (dec_struct (\<lambda>(m, r) kvs.
         check_err (string_field ''message'' m kvs) (\<lambda>m.
         check_err (value_field ''variables'' (dec_struct (value_field ''resource'' (dec_struct (\<lambda>(ri, rn) kvs.
             check_err (string_field ''id'' ri kvs) (\<lambda>ri.
             check_err (string_field ''name'' rn kvs) (\<lambda>rn. Inr (ri, rn))))))) r kvs) (\<lambda>r.
         Inr (m, r))))) (ac_Message a, (ac_ResourceID a, ac_ResourceName a)) kvs) (\<lambda>(m, (ri, rn)).
     check_err (value_field ''times'' (dec_struct (value_field ''recordedTime'' dec_time)) (ac_RecordedTime a) kvs) (\<lambda>t.
     Inr \<lparr>ac_ID = i, ac_Message = m, ac_ResourceID = ri, ac_ResourceName = rn, ac_RecordedTime = t\<rparr>))))"

definition zero_activity :: Activity where
  "zero_activity = \<lparr>ac_ID = [], ac_Message = [], ac_ResourceID = [], ac_ResourceName = [], ac_RecordedTime = zero_time\<rparr>"

definition ListActivities :: "'w net \<Rightarrow> string \<Rightarrow> string \<Rightarrow> string \<Rightarrow> time \<Rightarrow> 'w
    \<Rightarrow> Activity list result \<times> 'w" where
  "ListActivities nt baseURL authHeader driveID since w =
     (let kql = ''itemid:'' @ driveID @ '' AND depth:-1 AND timestamp>'' @ format_rfc3339 since in
      case send (nt_http nt) ''GET''
             (baseURL @ ''/graph/v1beta1/extensions/org.libregraph/activities?'' @ Values_Encode [(''kql'', kql)])
             (bearer authHeader) [] w of
        (Inl err, w1) \<Rightarrow> (Inl err, w1)
      | (Inr res, w1) \<Rightarrow>
          (if rs_Status res \<noteq> 200
           then Inl (Msg (''list activities returned status '' @ show_int (rs_Status res)))
           else check_err (DecodeBody (nt_codec nt) res) (dec_value dec_activity zero_activity), w1))"

section \<open>Item ids and tags\<close>

definition file_ids :: "xml \<Rightarrow> string list" where
  "file_ids doc = map (\<lambda>r. last_text (concat (map (children ''fileid'')
       (concat (map (children ''prop'') (children ''propstat'' r)))))) (children ''response'' doc)"

definition propfind_fileid :: string where
  "propfind_fileid = ''<?xml version=\"1.0\" encoding=\"utf-8\" ?><d:propfind xmlns:d=\"DAV:\" xmlns:oc=\"http://owncloud.org/ns\"><d:prop><oc:fileid/></d:prop></d:propfind>''"

definition ResolveItemID :: "'w net \<Rightarrow> string \<Rightarrow> string \<Rightarrow> string \<Rightarrow> 'w \<Rightarrow> string result \<times> 'w" where
  "ResolveItemID nt baseURL authHeader davPath w =
     (case Me nt baseURL authHeader w of
        (Inl err, w1) \<Rightarrow> (Inl (Wrap ''resolve current user'' err), w1)
      | (Inr userID, w1) \<Rightarrow>
          (case send (nt_http nt) ''PROPFIND''
                  (baseURL @ ''/remote.php/dav/files/'' @ userID @ ''/'' @ EscapedPath (Trim (CHR ''/'') davPath))
                  [(''Authorization'', authHeader), (''Content-Type'', ''application/xml''), (''Depth'', ''0'')]
                  propfind_fileid w1 of
             (Inl err, w2) \<Rightarrow> (Inl err, w2)
           | (Inr res, w2) \<Rightarrow>
               (if rs_Status res \<noteq> 207
                then Inl (Msg (''resolve item id for '' @ Quote davPath @ '' returned status '' @ show_int (rs_Status res)))
                else check_err (ReadAll res) (\<lambda>data.
                  case nt_xml nt data of
                    Inl err \<Rightarrow> Inl (Wrap ''decode PROPFIND response'' err)
                  | Inr doc \<Rightarrow>
                      (case file_ids doc of
                         [] \<Rightarrow> Inl (Msg (''resolve item id for '' @ Quote davPath @ '': no oc:fileid in PROPFIND response''))
                       | i # _ \<Rightarrow> if i = []
                           then Inl (Msg (''resolve item id for '' @ Quote davPath @ '': no oc:fileid in PROPFIND response''))
                           else Inr i)), w2)))"

definition AssignTag :: "'w net \<Rightarrow> string \<Rightarrow> string \<Rightarrow> string \<Rightarrow> string \<Rightarrow> 'w \<Rightarrow> unit result \<times> 'w" where
  "AssignTag nt baseURL authHeader itemID tag w =
     (let body = json_Marshal (nt_codec nt) (JObj [(''resourceId'', JStr itemID), (''tags'', JArr [JStr tag])]) in
      case send (nt_http nt) ''PUT'' (baseURL @ ''/graph/v1.0/extensions/org.libregraph/tags'')
             [(''Authorization'', authHeader), (''Content-Type'', ''application/json'')] body w of
        (Inl err, w1) \<Rightarrow> (Inl err, w1)
      | (Inr res, w1) \<Rightarrow>
          (if rs_Status res \<noteq> 200 \<and> rs_Status res \<noteq> 204
           then Inl (Msg (''assign tag '' @ Quote tag @ '' returned status '' @ show_int (rs_Status res)))
           else Inr (), w1))"

end
