(* ===== verification/WebdavStore.thy ===== *)
theory WebdavStore
  imports OcisClient
begin

text \<open>
  backend/pkg/webdavstore/store.go: workflow definitions and execution records as JSON files in the
  folder \<^verbatim>\<open>.workflows\<close> of the caller's own space. Every operation asks oCIS who the caller is and then
  talks WebDAV. \<open>Store\<close> holds what the Go struct holds: the base URL, the oCIS client (its own
  transport and base URL) and the store's transport. \<^verbatim>\<open>sort.Slice\<close> leaves the order of equal elements
  open, so the sorting of the history is an argument, with \<open>sort_ok\<close> as its documented law.
\<close>

record 'w Store =
  st_ocisURL :: string
  st_client :: "'w net"
  st_clientURL :: string
  st_net :: "'w net"
  st_sort :: "ExecutionRecord list \<Rightarrow> ExecutionRecord list"

definition Store_New :: "string \<Rightarrow> 'w net \<Rightarrow> string \<Rightarrow> 'w net
    \<Rightarrow> (ExecutionRecord list \<Rightarrow> ExecutionRecord list) \<Rightarrow> 'w Store" where
  "Store_New ocisURL client clientURL nt srt =
     \<lparr>st_ocisURL = TrimRight (CHR ''/'') ocisURL, st_client = client, st_clientURL = clientURL,
      st_net = nt, st_sort = srt\<rparr>"

section \<open>URLs\<close>

definition davBase :: "'w Store \<Rightarrow> string \<Rightarrow> string" where
  "davBase s userID = st_ocisURL s @ ''/remote.php/dav/files/'' @ userID"

definition definitionPath :: "'w Store \<Rightarrow> string \<Rightarrow> string \<Rightarrow> string" where
  "definitionPath s userID i =
     davBase s userID @ ''/'' @ rootDir @ ''/'' @ definitionsDir @ ''/'' @ i @ ''.json''"

definition executionsDirURL :: "'w Store \<Rightarrow> string \<Rightarrow> string \<Rightarrow> string" where
  "executionsDirURL s userID workflowID =
     davBase s userID @ ''/'' @ rootDir @ ''/'' @ executionsDir @ ''/'' @ workflowID"

definition executionPath :: "'w Store \<Rightarrow> string \<Rightarrow> string \<Rightarrow> string \<Rightarrow> string" where
  "executionPath s userID workflowID execID = executionsDirURL s userID workflowID @ ''/'' @ execID @ ''.json''"

section \<open>Folders\<close>

text \<open>Who the caller is.\<close>

definition caller :: "'w Store \<Rightarrow> string \<Rightarrow> 'w \<Rightarrow> string result \<times> 'w" where
  "caller s authHeader w = wrap_err ''resolve current user'' (Me (st_client s) (st_clientURL s) authHeader w)"

definition mkcol :: "'w Store \<Rightarrow> string \<Rightarrow> string \<Rightarrow> 'w \<Rightarrow> unit result \<times> 'w" where
  "mkcol s authHeader url w =
     and_then (send (nt_http (st_net s)) ''MKCOL'' url (bearer authHeader) [] w) (\<lambda>res w1.
       (if rs_Status res = 201 \<or> rs_Status res = 405 \<or> rs_Status res = 409 then Inr ()
        else Inl (Msg (''MKCOL '' @ url @ '' returned status '' @ show_int (rs_Status res))), w1))"

text \<open>The loop over the folders to create, each below \<open>base\<close>.\<close>

fun mkcols :: "'w Store \<Rightarrow> string \<Rightarrow> string \<Rightarrow> string list \<Rightarrow> 'w \<Rightarrow> unit result \<times> 'w" where
  "mkcols s authHeader base [] w = (Inr (), w)"
| "mkcols s authHeader base (segment # segments) w =
     and_then (mkcol s authHeader (base @ ''/'' @ segment) w)
       (\<lambda>_ w1. mkcols s authHeader base segments w1)"

definition ensureDirs :: "'w Store \<Rightarrow> string \<Rightarrow> string \<Rightarrow> 'w \<Rightarrow> unit result \<times> 'w" where
  "ensureDirs s authHeader userID w =
     mkcols s authHeader (davBase s userID) [rootDir, rootDir @ ''/'' @ definitionsDir] w"

section \<open>Listing a folder\<close>

text \<open>\<^verbatim>\<open>path.Base\<close>.\<close>

definition path_Base :: "string \<Rightarrow> string" where
  "path_Base p =
     (if p = [] then ''.''
      else let q = TrimRight (CHR ''/'') p in
           if q = [] then ''/'' else last (Split (CHR ''/'') q))"

text \<open>The \<^verbatim>\<open>multistatus\<close> struct: a document with that root, and the href of every response.\<close>

definition multistatus_hrefs :: "xml \<Rightarrow> string list result" where
  "multistatus_hrefs doc =
     (if xml_name doc = ''multistatus''
      then Inr (map (\<lambda>r. last_text (children ''href'' r)) (children ''response'' doc))
      else Inl (Msg (''expected element type <multistatus> but have <'' @ xml_name doc @ ''>'')))"

definition json_names :: "string list \<Rightarrow> string list" where
  "json_names hrefs =
     filter (\<lambda>n. HasSuffix n ''.json'') (map (\<lambda>h. path_Base (TrimSuffix h ''/'')) hrefs)"

definition propfind_types :: string where
  "propfind_types = ''<?xml version=\"1.0\" encoding=\"utf-8\" ?><d:propfind xmlns:d=\"DAV:\"><d:prop><d:resourcetype/></d:prop></d:propfind>''"

definition propfindJSONNames :: "'w Store \<Rightarrow> string \<Rightarrow> string \<Rightarrow> 'w \<Rightarrow> string list result \<times> 'w" where
  "propfindJSONNames s authHeader dirURL w =
     and_then (send (nt_http (st_net s)) ''PROPFIND'' dirURL
         [(''Authorization'', authHeader), (''Content-Type'', ''application/xml''), (''Depth'', ''1'')]
         propfind_types w) (\<lambda>res w1.
       (if rs_Status res \<noteq> 207
        then Inl (Msg (''PROPFIND '' @ dirURL @ '' returned status '' @ show_int (rs_Status res)))
        else check_err (ReadAll res) (\<lambda>data.
             case check_err (nt_xml (st_net s) data) multistatus_hrefs of
               Inl err \<Rightarrow> Inl (Wrap ''decode PROPFIND response'' err)
             | Inr hrefs \<Rightarrow> Inr (json_names hrefs)), w1))"

section \<open>Workflow definitions\<close>

definition getByPath :: "'w Store \<Rightarrow> string \<Rightarrow> string \<Rightarrow> 'w \<Rightarrow> WorkflowDefinition result \<times> 'w" where
  "getByPath s authHeader url w =
     and_then (send (nt_http (st_net s)) ''GET'' url (bearer authHeader) [] w) (\<lambda>res w1.
       (if rs_Status res = 404 then Inl StoreNotFound
        else if rs_Status res \<noteq> 200
        then Inl (Msg (''GET workflow definition returned status '' @ show_int (rs_Status res)))
        else check_err (ReadAll res) (\<lambda>data.
             case check_err (json_Unmarshal (nt_codec (st_net s)) data) (dec_workflow zero_workflow) of
               Inl err \<Rightarrow> Inl (Wrap ''decode stored workflow definition'' err)
             | Inr flow \<Rightarrow> Inr flow), w1))"

definition Store_Get :: "'w Store \<Rightarrow> string \<Rightarrow> string \<Rightarrow> 'w \<Rightarrow> WorkflowDefinition result \<times> 'w" where
  "Store_Get s authHeader i w =
     and_then (caller s authHeader w) (\<lambda>userID w1. getByPath s authHeader (definitionPath s userID i) w1)"

text \<open>The loop over the names found; a file that is gone by now is left out.\<close>

fun get_all :: "'w Store \<Rightarrow> string \<Rightarrow> string \<Rightarrow> string list \<Rightarrow> 'w \<Rightarrow> WorkflowDefinition list result \<times> 'w" where
  "get_all s authHeader userID [] w = (Inr [], w)"
| "get_all s authHeader userID (name # names) w =
     (case getByPath s authHeader (definitionPath s userID (TrimSuffix name ''.json'')) w of
        (Inl err, w1) \<Rightarrow> if errors_is err StoreNotFound then get_all s authHeader userID names w1 else (Inl err, w1)
      | (Inr flow, w1) \<Rightarrow>
          and_then (get_all s authHeader userID names w1) (\<lambda>flows w2. (Inr (flow # flows), w2)))"

definition Store_List :: "'w Store \<Rightarrow> string \<Rightarrow> 'w \<Rightarrow> WorkflowDefinition list result \<times> 'w" where
  "Store_List s authHeader w =
     and_then (caller s authHeader w) (\<lambda>userID w1.
     and_then (wrap_err ''ensure storage folders'' (ensureDirs s authHeader userID w1)) (\<lambda>_ w2.
     and_then (propfindJSONNames s authHeader (davBase s userID @ ''/'' @ rootDir @ ''/'' @ definitionsDir) w2)
       (\<lambda>names w3. get_all s authHeader userID names w3)))"

definition Store_Put :: "'w Store \<Rightarrow> string \<Rightarrow> WorkflowDefinition \<Rightarrow> 'w \<Rightarrow> unit result \<times> 'w" where
  "Store_Put s authHeader flow w =
     and_then (caller s authHeader w) (\<lambda>userID w1.
     and_then (wrap_err ''ensure storage folders'' (ensureDirs s authHeader userID w1)) (\<lambda>_ w2.
     and_then (send (nt_http (st_net s)) ''PUT'' (definitionPath s userID (wd_ID flow))
         [(''Authorization'', authHeader), (''Content-Type'', ''application/json'')]
         (json_Marshal (nt_codec (st_net s)) (enc_workflow flow)) w2) (\<lambda>res w3.
       (if rs_Status res \<noteq> 201 \<and> rs_Status res \<noteq> 204
        then Inl (Msg (''PUT workflow definition returned status '' @ show_int (rs_Status res)))
        else Inr (), w3))))"

definition Store_Delete :: "'w Store \<Rightarrow> string \<Rightarrow> string \<Rightarrow> 'w \<Rightarrow> unit result \<times> 'w" where
  "Store_Delete s authHeader i w =
     and_then (caller s authHeader w) (\<lambda>userID w1.
     and_then (send (nt_http (st_net s)) ''DELETE'' (definitionPath s userID i) (bearer authHeader) [] w1) (\<lambda>res w2.
       (if rs_Status res = 204 \<or> rs_Status res = 200 then Inr ()
        else if rs_Status res = 404 then Inl StoreNotFound
        else Inl (Msg (''DELETE workflow definition returned status '' @ show_int (rs_Status res))), w2)))"

section \<open>Execution records\<close>

definition PutExecution :: "'w Store \<Rightarrow> string \<Rightarrow> ExecutionRecord \<Rightarrow> 'w \<Rightarrow> unit result \<times> 'w" where
  "PutExecution s authHeader x w =
     and_then (caller s authHeader w) (\<lambda>userID w1.
     and_then (wrap_err ''ensure execution storage folders'' (mkcols s authHeader (davBase s userID)
         [rootDir, rootDir @ ''/'' @ executionsDir, rootDir @ ''/'' @ executionsDir @ ''/'' @ xr_WorkflowID x] w1)) (\<lambda>_ w2.
     and_then (send (nt_http (st_net s)) ''PUT'' (executionPath s userID (xr_WorkflowID x) (xr_ID x))
         [(''Authorization'', authHeader), (''Content-Type'', ''application/json'')]
         (json_Marshal (nt_codec (st_net s)) (enc_execution x)) w2) (\<lambda>res w3.
       (if rs_Status res \<noteq> 201 \<and> rs_Status res \<noteq> 204
        then Inl (Msg (''PUT execution record returned status '' @ show_int (rs_Status res)))
        else Inr (), w3))))"

definition GetExecution :: "'w Store \<Rightarrow> string \<Rightarrow> string \<Rightarrow> string \<Rightarrow> 'w \<Rightarrow> ExecutionRecord result \<times> 'w" where
  "GetExecution s authHeader workflowID execID w =
     and_then (caller s authHeader w) (\<lambda>userID w1.
     and_then (send (nt_http (st_net s)) ''GET'' (executionPath s userID workflowID execID) (bearer authHeader) [] w1) (\<lambda>res w2.
       (if rs_Status res = 404 then Inl StoreNotFound
        else if rs_Status res \<noteq> 200
        then Inl (Msg (''GET execution record returned status '' @ show_int (rs_Status res)))
        else check_err (ReadAll res) (\<lambda>data.
             case check_err (json_Unmarshal (nt_codec (st_net s)) data) (dec_execution zero_execution) of
               Inl err \<Rightarrow> Inl (Wrap ''decode stored execution record'' err)
             | Inr x \<Rightarrow> Inr x), w2)))"

fun get_executions :: "'w Store \<Rightarrow> string \<Rightarrow> string \<Rightarrow> string list \<Rightarrow> 'w \<Rightarrow> ExecutionRecord list result \<times> 'w" where
  "get_executions s authHeader workflowID [] w = (Inr [], w)"
| "get_executions s authHeader workflowID (name # names) w =
     (case GetExecution s authHeader workflowID (TrimSuffix name ''.json'') w of
        (Inl err, w1) \<Rightarrow> if errors_is err StoreNotFound then get_executions s authHeader workflowID names w1 else (Inl err, w1)
      | (Inr x, w1) \<Rightarrow>
          and_then (get_executions s authHeader workflowID names w1) (\<lambda>xs w2. (Inr (x # xs), w2)))"

text \<open>Go compares strings byte by byte; the history is sorted by falling start time as text.\<close>

fun string_less :: "string \<Rightarrow> string \<Rightarrow> bool" where
  "string_less s [] = False"
| "string_less [] (d # t) = True"
| "string_less (c # s) (d # t) = ((of_char c :: nat) < of_char d \<or> c = d \<and> string_less s t)"

definition later :: "ExecutionRecord \<Rightarrow> ExecutionRecord \<Rightarrow> bool" where
  "later x y = string_less (xr_StartedDateTime y) (xr_StartedDateTime x)"

definition ListExecutions :: "'w Store \<Rightarrow> string \<Rightarrow> string \<Rightarrow> 'w \<Rightarrow> ExecutionRecord list result \<times> 'w" where
  "ListExecutions s authHeader workflowID w =
     and_then (caller s authHeader w) (\<lambda>userID w1.
       (case propfindJSONNames s authHeader (executionsDirURL s userID workflowID) w1 of
          (Inl err, w2) \<Rightarrow> (Inr [], w2)
        | (Inr names, w2) \<Rightarrow>
            and_then (get_executions s authHeader workflowID names w2) (\<lambda>xs w3. (Inr (st_sort s xs), w3))))"

section \<open>What the store asks of the network\<close>

text \<open>
  A path a server can only read as it is written: unreserved characters and slashes, so no percent escape, query or fragment.
\<close>

definition url_plain :: "string \<Rightarrow> bool" where
  "url_plain = list_all (\<lambda>c. unreserved c \<or> c = CHR 0x2F)"

lemma url_plain_append [simp]: "url_plain (x @ y) \<longleftrightarrow> url_plain x \<and> url_plain y"
  by (simp add: url_plain_def)

lemma url_plain_Cons [simp]: "url_plain (c # x) \<longleftrightarrow> (unreserved c \<or> c = CHR 0x2F) \<and> url_plain x"
  by (simp add: url_plain_def)

lemma url_plain_Nil [simp]: "url_plain []"
  by (simp add: url_plain_def)

lemma url_plain_names [simp]: "url_plain rootDir" "url_plain definitionsDir" "url_plain executionsDir"
    "unreserved CHR ''.''" "unreserved CHR ''j''" "unreserved CHR ''s''" "unreserved CHR ''o''" "unreserved CHR ''n''"
  by (simp_all add: rootDir_def definitionsDir_def executionsDir_def unreserved_def)

text \<open>
  Ids come from URLs and from stored files, and the code uses them as they are. \<open>id_ok\<close> is what holds of a UUID, as
  every id the service makes.
\<close>

definition plain_id :: "string \<Rightarrow> bool" where
  "plain_id i = (CHR 0x2F \<notin> set i \<and> url_plain i)"

definition id_ok :: "string \<Rightarrow> bool" where
  "id_ok i = (plain_id i \<and> i \<noteq> ''.'' \<and> i \<noteq> ''..'')"

text \<open>
  A request into the bookkeeping folder: below a user's files, on a plain path the internal-path test
  accepts, without a component that could lead out of it.
\<close>

definition inside :: "string \<Rightarrow> bool" where
  "inside rest = (IsInternalPath rest \<and> url_plain rest \<and> ''.'' \<notin> set (Split (CHR 0x2F) rest) \<and> ''..'' \<notin> set (Split (CHR 0x2F) rest))"

definition callers :: "'w Store \<Rightarrow> string \<Rightarrow> string set" where
  "callers s a = {u. \<exists>w. fst (Me (st_client s) (st_clientURL s) a w) = Inr u}"

definition dav_method :: "string \<Rightarrow> bool" where
  "dav_method m = (m \<in> {''MKCOL'', ''PUT'', ''GET'', ''DELETE'', ''PROPFIND''})"

lemma dav_methods [simp]: "dav_method ''MKCOL''" "dav_method ''PUT''" "dav_method ''GET''" "dav_method ''DELETE''" "dav_method ''PROPFIND''"
  by (simp_all add: dav_method_def)

definition bookkeeping_request :: "'w Store \<Rightarrow> string \<Rightarrow> Request \<Rightarrow> bool" where
  "bookkeeping_request s a req =
     (dav_method (rq_Method req) \<and> (\<exists>userID\<in>callers s a. \<exists>rest. rq_URL req = davBase s userID @ ''/'' @ rest \<and> inside rest))"

definition me_request :: "'w Store \<Rightarrow> Request \<Rightarrow> bool" where
  "me_request s req = (rq_Method req = ''GET'' \<and> rq_URL req = st_clientURL s @ ''/graph/v1.0/me'')"

text \<open>A predicate on worlds that identity and bookkeeping requests cannot break.\<close>

definition kept_by_bookkeeping :: "'w Store \<Rightarrow> string \<Rightarrow> ('w \<Rightarrow> bool) \<Rightarrow> bool" where
  "kept_by_bookkeeping s a P =
     ((\<forall>req w. me_request s req \<longrightarrow> P w \<longrightarrow> P (snd (ht_Do (nt_http (st_client s)) req w)))
      \<and> (\<forall>req w. bookkeeping_request s a req \<longrightarrow> P w \<longrightarrow> P (snd (ht_Do (nt_http (st_net s)) req w))))"

lemma and_then_keeps:
  "P (snd x) \<Longrightarrow> (\<And>v w. P w \<Longrightarrow> P (snd (f v w))) \<Longrightarrow> P (snd (and_then x f))"
  by (auto simp: and_then_def split: prod.split sum.split)

lemma send_keeps:
  "P w \<Longrightarrow> (\<And>req. rq_Method req = method \<Longrightarrow> rq_URL req = url \<Longrightarrow> P (snd (ht_Do ht req w)))
   \<Longrightarrow> P (snd (send ht method url headers body w))"
  by (cases "ht_ParseURL ht url") (auto simp: send_def NewRequest_def)

lemma snd_Me: "snd (Me nt b a w) = snd (send (nt_http nt) ''GET'' (b @ ''/graph/v1.0/me'') (bearer a) [] w)"
proof -
  obtain r w1 where s: "send (nt_http nt) ''GET'' (b @ ''/graph/v1.0/me'') (bearer a) [] w = (r, w1)" by fastforce
  show ?thesis by (cases r) (simp_all add: Me_def s)
qed

lemma kept_me: "kept_by_bookkeeping s a P \<Longrightarrow> me_request s req \<Longrightarrow> P w \<Longrightarrow> P (snd (ht_Do (nt_http (st_client s)) req w))"
  by (simp add: kept_by_bookkeeping_def)

lemma caller_keeps: "kept_by_bookkeeping s a P \<Longrightarrow> P w \<Longrightarrow> P (snd (caller s a w))"
proof -
  assume k: "kept_by_bookkeeping s a P" and p: "P w"
  have "P (snd (send (nt_http (st_client s)) ''GET'' (st_clientURL s @ ''/graph/v1.0/me'') (bearer a) [] w))"
    by (rule send_keeps [where P = P, OF p]) (simp add: kept_me [OF k _ p] me_request_def)
  then show ?thesis
    by (simp add: caller_def snd_Me)
qed

lemma send_bookkeeping:
  assumes "kept_by_bookkeeping s a P" "u \<in> callers s a" "P w" "url = davBase s u @ ''/'' @ rest" "inside rest" "dav_method method"
  shows "P (snd (send (nt_http (st_net s)) method url headers body w))"
proof (rule send_keeps [where P = P])
  show "P w" by fact
  fix req :: Request assume "rq_URL req = url" "rq_Method req = method"
  then have "bookkeeping_request s a req" using assms unfolding bookkeeping_request_def by blast
  then show "P (snd (ht_Do (nt_http (st_net s)) req w))"
    using assms(1,3) by (simp add: kept_by_bookkeeping_def)
qed

text \<open>The paths the store uses.\<close>

lemma no_slash_json: "CHR 0x2F \<notin> set i \<Longrightarrow> CHR 0x2F \<notin> set (i @ ''.json'') \<and> i @ ''.json'' \<noteq> ''.'' \<and> i @ ''.json'' \<noteq> ''..''"
proof -
  assume "CHR 0x2F \<notin> set i"
  moreover have "last (i @ ''.json'') \<noteq> last ''..''" by simp
  moreover have "last (i @ ''.json'') \<noteq> last ''.''" by simp
  ultimately show ?thesis by auto
qed

lemma Split_slash:
  "CHR 0x2F \<notin> set d \<Longrightarrow> Split (CHR 0x2F) (d @ CHR 0x2F # t) = d # Split (CHR 0x2F) t"
  by (simp add: Split_append)

lemma inside_root: "inside rootDir"
  by (simp add: inside_def IsInternalPath_def) (simp add: rootDir_def TrimPrefix_def)

lemma inside_below: "inside (rootDir @ CHR 0x2F # t) \<longleftrightarrow>
    url_plain t \<and> ''.'' \<notin> set (Split (CHR 0x2F) t) \<and> ''..'' \<notin> set (Split (CHR 0x2F) t)"
proof -
  have "rootDir \<noteq> ''.''" "rootDir \<noteq> ''..''" by (simp_all add: rootDir_def)
  then show ?thesis using internal_below(1) [of t] by (auto simp: inside_def Split_slash [OF rootDir_no_slash])
qed

lemma folders_no_slash: "CHR 0x2F \<notin> set definitionsDir" "CHR 0x2F \<notin> set executionsDir"
    "definitionsDir \<noteq> ''.''" "executionsDir \<noteq> ''.''" "definitionsDir \<noteq> ''..''" "executionsDir \<noteq> ''..''"
  by (simp_all add: definitionsDir_def executionsDir_def)

lemma inside_definitions:
  "inside (rootDir @ CHR 0x2F # definitionsDir)"
  "plain_id i \<Longrightarrow> inside (rootDir @ CHR 0x2F # definitionsDir @ CHR 0x2F # i @ ''.json'')"
  using no_slash_json [of i] folders_no_slash by (auto simp: inside_below Split_slash plain_id_def)

lemma inside_executions:
  "inside (rootDir @ CHR 0x2F # executionsDir)"
  "id_ok i \<Longrightarrow> inside (rootDir @ CHR 0x2F # executionsDir @ CHR 0x2F # i)"
  "id_ok i \<Longrightarrow> plain_id j \<Longrightarrow> inside (rootDir @ CHR 0x2F # executionsDir @ CHR 0x2F # i @ CHR 0x2F # j @ ''.json'')"
  using no_slash_json [of j] folders_no_slash by (auto simp: inside_below Split_slash id_ok_def plain_id_def)

lemma store_urls:
  "definitionPath s u i = davBase s u @ ''/'' @ (rootDir @ CHR 0x2F # definitionsDir @ CHR 0x2F # i @ ''.json'')"
  "executionsDirURL s u i = davBase s u @ ''/'' @ (rootDir @ CHR 0x2F # executionsDir @ CHR 0x2F # i)"
  "executionPath s u i j = davBase s u @ ''/'' @ (rootDir @ CHR 0x2F # executionsDir @ CHR 0x2F # i @ CHR 0x2F # j @ ''.json'')"
  by (simp_all add: definitionPath_def executionsDirURL_def executionPath_def)

lemmas inside_intros = inside_root inside_definitions inside_executions

text \<open>Each operation keeps such a predicate.\<close>

lemma mkcol_keeps:
  "kept_by_bookkeeping s a P \<Longrightarrow> u \<in> callers s a \<Longrightarrow> P w \<Longrightarrow> inside rest \<Longrightarrow> P (snd (mkcol s a (davBase s u @ ''/'' @ rest) w))"
  unfolding mkcol_def by (rule and_then_keeps [where P = P], rule send_bookkeeping) auto

lemma mkcols_keeps:
  "kept_by_bookkeeping s a P \<Longrightarrow> u \<in> callers s a \<Longrightarrow> P w \<Longrightarrow> list_all inside rests \<Longrightarrow> P (snd (mkcols s a (davBase s u) rests w))"
proof (induction rests arbitrary: w)
  case (Cons r rs)
  have "P (snd (mkcol s a (davBase s u @ ''/'' @ r) w))" 
    by (rule mkcol_keeps [where P = P, OF Cons.prems(1-3)]) (use Cons.prems(4) in simp)
  moreover have "P (snd (mkcols s a (davBase s u) rs w'))" if "P w'" for w'
    by (rule Cons.IH [OF Cons.prems(1,2) that]) (use Cons.prems(4) in simp)
  ultimately show ?case unfolding mkcols.simps by (rule and_then_keeps [where P = P])
qed simp

lemma ensureDirs_keeps: "kept_by_bookkeeping s a P \<Longrightarrow> u \<in> callers s a \<Longrightarrow> P w \<Longrightarrow> P (snd (ensureDirs s a u w))"
  unfolding ensureDirs_def by (rule mkcols_keeps) (auto intro: inside_intros)

lemma propfind_keeps:
  "kept_by_bookkeeping s a P \<Longrightarrow> u \<in> callers s a \<Longrightarrow> P w \<Longrightarrow> url = davBase s u @ ''/'' @ rest \<Longrightarrow> inside rest
   \<Longrightarrow> P (snd (propfindJSONNames s a url w))"
  unfolding propfindJSONNames_def by (rule and_then_keeps [where P = P], rule send_bookkeeping) auto

lemma getByPath_keeps:
  "kept_by_bookkeeping s a P \<Longrightarrow> u \<in> callers s a \<Longrightarrow> P w \<Longrightarrow> plain_id i \<Longrightarrow> P (snd (getByPath s a (definitionPath s u i) w))"
  unfolding getByPath_def definitionPath_def
  by (rule and_then_keeps [where P = P], rule send_bookkeeping) (auto intro: inside_intros)

lemma json_names_no_slash: "n \<in> set (json_names hrefs) \<Longrightarrow> CHR 0x2F \<notin> set n \<and> HasSuffix n ''.json''"
proof -
  assume "n \<in> set (json_names hrefs)"
  then obtain h where n: "n = path_Base h" and s: "HasSuffix n ''.json''" by (auto simp: json_names_def)
  have "n \<noteq> ''/''" using s by (auto simp: HasSuffix_def)
  then have "CHR 0x2F \<notin> set n"
    using Split_parts [OF last_in_set [OF Split_not_Nil], of "CHR 0x2F" "TrimRight (CHR 0x2F) h"]
    unfolding n path_Base_def by (auto simp: Let_def split: if_splits)
  then show ?thesis using s by simp
qed

lemma propfind_names:
  "fst (propfindJSONNames s a url w) = Inr names \<Longrightarrow> n \<in> set names \<Longrightarrow> CHR 0x2F \<notin> set n \<and> HasSuffix n ''.json''"
  unfolding propfindJSONNames_def and_then_def
  by (auto split: prod.splits sum.splits if_splits elim!: check_err_InrE dest: json_names_no_slash)

lemma set_TrimSuffix: "set (TrimSuffix s p) \<subseteq> set s"
  by (auto simp: TrimSuffix_def dest: in_set_takeD)

lemma plain_TrimSuffix: "plain_id s \<Longrightarrow> plain_id (TrimSuffix s p)"
  using set_TrimSuffix [of s p] by (auto simp: plain_id_def url_plain_def list_all_iff)

text \<open>The names a server lists in a folder come from the server; this says that, in the worlds of \<open>P\<close>, they are plain.\<close>

definition lists_plain :: "'w Store \<Rightarrow> string \<Rightarrow> ('w \<Rightarrow> bool) \<Rightarrow> bool" where
  "lists_plain s a P = (\<forall>dir w names. P w \<and> fst (propfindJSONNames s a dir w) = Inr names \<longrightarrow> list_all url_plain names)"

lemma listed_plain:
  assumes "lists_plain s a P" "P w" "fst (propfindJSONNames s a dir w) = Inr names"
  shows "list_all plain_id names"
proof -
  have "list_all url_plain names" using assms unfolding lists_plain_def by blast
  then show ?thesis using propfind_names [OF assms(3)] by (auto simp: list_all_iff plain_id_def)
qed

lemma get_all_keeps:
  "kept_by_bookkeeping s a P \<Longrightarrow> u \<in> callers s a \<Longrightarrow> P w \<Longrightarrow> list_all plain_id names \<Longrightarrow> P (snd (get_all s a u names w))"
proof (induction names arbitrary: w)
  case (Cons n ns)
  have "plain_id (TrimSuffix n ''.json'')" by (rule plain_TrimSuffix) (use Cons.prems in simp)
  then have g: "P (snd (getByPath s a (definitionPath s u (TrimSuffix n ''.json'')) w))"
    by (rule getByPath_keeps [where P = P, OF Cons.prems(1-3)])
  have k: "P (snd (get_all s a u ns w'))" if "P w'" for w'
    by (rule Cons.IH [OF Cons.prems(1,2) that]) (use Cons.prems(4) in simp)
  obtain r w1 where r: "getByPath s a (definitionPath s u (TrimSuffix n ''.json'')) w = (r, w1)" by fastforce
  have p: "P w1" using g r by simp
  have "P (snd (and_then (get_all s a u ns w1) (\<lambda>flows w2. (Inr (f # flows), w2))))" for f
    by (rule and_then_keeps [where P = P, OF k [OF p]]) simp
  then show ?case using k [OF p] p by (simp add: r split: sum.split)
qed simp

lemma and_then_keeps_value:
  "P (snd x) \<Longrightarrow> (\<And>v w. x = (Inr v, w) \<Longrightarrow> P w \<Longrightarrow> P (snd (f v w))) \<Longrightarrow> P (snd (and_then x f))"
  by (auto simp: and_then_def split: prod.split sum.split)

lemma caller_then:
  assumes "kept_by_bookkeeping s a P" "P w" "\<And>u w1. u \<in> callers s a \<Longrightarrow> P w1 \<Longrightarrow> P (snd (f u w1))"
  shows "P (snd (and_then (caller s a w) f))"
proof (rule and_then_keeps_value [where P = P], rule caller_keeps [where P = P, OF assms(1,2)])
  fix u w1 assume c: "caller s a w = (Inr u, w1)" and "P w1"
  have "fst (Me (st_client s) (st_clientURL s) a w) = Inr u"
    using c by (cases "Me (st_client s) (st_clientURL s) a w"; cases "fst (Me (st_client s) (st_clientURL s) a w)")
      (auto simp: caller_def)
  then have "u \<in> callers s a" by (auto simp: callers_def)
  then show "P (snd (f u w1))" using assms(3) \<open>P w1\<close> by blast
qed

lemma GetExecution_keeps:
  assumes "kept_by_bookkeeping s a P" "P w" "id_ok i" "plain_id j"
  shows "P (snd (GetExecution s a i j w))"
  unfolding GetExecution_def
proof (rule caller_then [where P = P, OF assms(1,2)])
  fix u w' assume u: "u \<in> callers s a" and p: "P w'"
  have "P (snd (send (nt_http (st_net s)) ''GET'' (executionPath s u i j) (bearer a) [] w'))"
    by (rule send_bookkeeping [where P = P, OF assms(1) u p store_urls(3) inside_executions(3) [OF assms(3,4)]]) simp
  then show "P (snd (and_then (send (nt_http (st_net s)) ''GET'' (executionPath s u i j) (bearer a) [] w') (\<lambda>res w2.
       (if rs_Status res = 404 then Inl StoreNotFound
        else if rs_Status res \<noteq> 200
        then Inl (Msg (''GET execution record returned status '' @ show_int (rs_Status res)))
        else check_err (ReadAll res) (\<lambda>data.
             case check_err (json_Unmarshal (nt_codec (st_net s)) data) (dec_execution zero_execution) of
               Inl err \<Rightarrow> Inl (Wrap ''decode stored execution record'' err)
             | Inr x \<Rightarrow> Inr x), w2))))"
    by (rule and_then_keeps [where P = P]) simp
qed

lemma get_executions_keeps:
  "kept_by_bookkeeping s a P \<Longrightarrow> P w \<Longrightarrow> id_ok i \<Longrightarrow> list_all plain_id names
   \<Longrightarrow> P (snd (get_executions s a i names w))"
proof (induction names arbitrary: w)
  case (Cons n ns)
  have "plain_id (TrimSuffix n ''.json'')" by (rule plain_TrimSuffix) (use Cons.prems in simp)
  then have g: "P (snd (GetExecution s a i (TrimSuffix n ''.json'') w))"
    by (rule GetExecution_keeps [where P = P, OF Cons.prems(1,2,3)])
  have k: "P (snd (get_executions s a i ns w'))" if "P w'" for w'
    by (rule Cons.IH [OF Cons.prems(1) that Cons.prems(3)]) (use Cons.prems(4) in simp)
  obtain r w1 where r: "GetExecution s a i (TrimSuffix n ''.json'') w = (r, w1)" by fastforce
  have p: "P w1" using g r by simp
  have "P (snd (and_then (get_executions s a i ns w1) (\<lambda>xs w2. (Inr (x # xs), w2))))" for x
    by (rule and_then_keeps [where P = P, OF k [OF p]]) simp
  then show ?case using k [OF p] p by (simp add: r split: sum.split)
qed simp

lemma ListExecutions_keeps:
  assumes "kept_by_bookkeeping s a P" "P w" "id_ok i" "lists_plain s a P"
  shows "P (snd (ListExecutions s a i w))"
  unfolding ListExecutions_def
proof (rule caller_then [where P = P, OF assms(1,2)])
  fix u w' assume u: "u \<in> callers s a" and p: "P w'"
  obtain r w2 where r: "propfindJSONNames s a (executionsDirURL s u i) w' = (r, w2)" by fastforce
  have "P (snd (propfindJSONNames s a (executionsDirURL s u i) w'))"
    by (rule propfind_keeps [where P = P, OF assms(1) u p])
      (auto simp: executionsDirURL_def intro: inside_executions assms(3))
  then have p2: "P w2" using r by simp
  have "P (snd (and_then (get_executions s a i names w2) (\<lambda>xs w3. (Inr (st_sort s xs), w3))))" if "r = Inr names" for names
    by (rule and_then_keeps [where P = P], rule get_executions_keeps [where P = P, OF assms(1) p2 assms(3)])
      (use listed_plain [OF assms(4) p, of "executionsDirURL s u i"] r that in auto)
  then show "P (snd (case propfindJSONNames s a (executionsDirURL s u i) w' of
          (Inl err, w2) \<Rightarrow> (Inr [], w2)
        | (Inr names, w2) \<Rightarrow>
            and_then (get_executions s a i names w2) (\<lambda>xs w3. (Inr (st_sort s xs), w3))))"
    using p2 by (simp add: r split: sum.split)
qed

lemma Store_List_keeps:
  assumes "kept_by_bookkeeping s a P" "P w" "lists_plain s a P"
  shows "P (snd (Store_List s a w))"
  unfolding Store_List_def
proof (rule caller_then [where P = P, OF assms(1,2)])
  fix u w1 assume u: "u \<in> callers s a" and "P w1"
  show "P (snd (and_then (wrap_err ''ensure storage folders'' (ensureDirs s a u w1)) (\<lambda>_ w2.
    and_then (propfindJSONNames s a (davBase s u @ ''/'' @ rootDir @ ''/'' @ definitionsDir) w2)
       (\<lambda>names w3. get_all s a u names w3))))"
  proof (rule and_then_keeps [where P = P], unfold snd_wrap_err, rule ensureDirs_keeps [where P = P, OF assms(1) u \<open>P w1\<close>])
    fix v w2 assume "P w2"
    show "P (snd (and_then (propfindJSONNames s a (davBase s u @ ''/'' @ rootDir @ ''/'' @ definitionsDir) w2)
       (\<lambda>names w3. get_all s a u names w3)))"
    proof (rule and_then_keeps_value [where P = P], rule propfind_keeps [where P = P, OF assms(1) u \<open>P w2\<close>])
      fix names w3 assume x: "propfindJSONNames s a (davBase s u @ ''/'' @ rootDir @ ''/'' @ definitionsDir) w2 = (Inr names, w3)" and "P w3"
      show "P (snd (get_all s a u names w3))"
        by (rule get_all_keeps [where P = P, OF assms(1) u \<open>P w3\<close>])
          (use listed_plain [OF assms(3) \<open>P w2\<close>, of "davBase s u @ ''/'' @ rootDir @ ''/'' @ definitionsDir"] x in auto)
    qed (auto intro: inside_intros)
  qed
qed

lemma Store_Put_keeps:
  assumes "kept_by_bookkeeping s a P" "P w" "plain_id (wd_ID flow)"
  shows "P (snd (Store_Put s a flow w))"
  unfolding Store_Put_def
proof (rule caller_then [where P = P, OF assms(1,2)], rule and_then_keeps [where P = P], unfold snd_wrap_err, rule ensureDirs_keeps [where P = P, OF assms(1)], assumption, assumption,
    rule and_then_keeps [where P = P])
  fix u v w2 assume u: "u \<in> callers s a" and "P w2"
  from this(2) show "P (snd (send (nt_http (st_net s)) ''PUT'' (definitionPath s u (wd_ID flow))
      [(''Authorization'', a), (''Content-Type'', ''application/json'')]
      (json_Marshal (nt_codec (st_net s)) (enc_workflow flow)) w2))"
    by (rule send_bookkeeping [where P = P, OF assms(1) u _ store_urls(1) inside_definitions(2) [OF assms(3)]]) simp
qed simp

lemma PutExecution_keeps:
  assumes "kept_by_bookkeeping s a P" "P w" "id_ok (xr_WorkflowID x)" "plain_id (xr_ID x)"
  shows "P (snd (PutExecution s a x w))"
  unfolding PutExecution_def
proof (rule caller_then [where P = P, OF assms(1,2)], rule and_then_keeps [where P = P], unfold snd_wrap_err, rule mkcols_keeps [where P = P, OF assms(1)], assumption, assumption)
  fix u v w2 assume u: "u \<in> callers s a" and "P w2"
  show "P (snd (and_then (send (nt_http (st_net s)) ''PUT'' (executionPath s u (xr_WorkflowID x) (xr_ID x))
         [(''Authorization'', a), (''Content-Type'', ''application/json'')]
         (json_Marshal (nt_codec (st_net s)) (enc_execution x)) w2) (\<lambda>res w3.
       (if rs_Status res \<noteq> 201 \<and> rs_Status res \<noteq> 204
        then Inl (Msg (''PUT execution record returned status '' @ show_int (rs_Status res)))
        else Inr (), w3))))"
    by (rule and_then_keeps [where P = P],
        rule send_bookkeeping [where P = P, OF assms(1) u \<open>P w2\<close> store_urls(3) inside_executions(3) [OF assms(3,4)]]) simp_all
qed (simp add: inside_root inside_executions assms)

lemma Store_Get_keeps:
  assumes "kept_by_bookkeeping s a P" "P w" "plain_id i"
  shows "P (snd (Store_Get s a i w))"
  unfolding Store_Get_def
  by (rule caller_then [where P = P, OF assms(1,2)], rule getByPath_keeps [where P = P, OF assms(1) _ _ assms(3)])

lemma Store_Delete_keeps:
  assumes "kept_by_bookkeeping s a P" "P w" "plain_id i"
  shows "P (snd (Store_Delete s a i w))"
  unfolding Store_Delete_def
proof (rule caller_then [where P = P, OF assms(1,2)], rule and_then_keeps [where P = P])
  fix u w1 assume u: "u \<in> callers s a" and "P w1"
  from this(2) show "P (snd (send (nt_http (st_net s)) ''DELETE'' (definitionPath s u i) (bearer a) [] w1))"
    by (rule send_bookkeeping [where P = P, OF assms(1) u _ store_urls(1) inside_definitions(2) [OF assms(3)]]) simp
qed simp

text \<open>
  C23. For the ids the service makes, the store stays in its own folder: given ids of unreserved characters other than a dot or
  two, as UUIDs are, every request of an operation asks who the
  caller is, or is addressed below \<^verbatim>\<open>.workflows\<close> in the files of the user oCIS says the caller is, on
  a path that reads as it is written, that the internal-path test accepts and that does not climb out; the two listings do so
  too when the names that the server lists are of such characters. So a predicate on the world that such requests cannot break
  (all other files are as they were, nobody else's data is touched) survives every operation,
  whatever the server answers. The code checks no id; what another id can do is shown by \<open>stored_id_climbs_out\<close>.
\<close>

theorem store_stays_internal:
  assumes "kept_by_bookkeeping s a P" "P w" "id_ok i" "plain_id j"
  shows "P (snd (Store_Get s a i w)) \<and> P (snd (Store_Delete s a i w))
    \<and> P (snd (Store_Put s a (flow\<lparr>wd_ID := i\<rparr>) w)) \<and> P (snd (GetExecution s a i j w))
    \<and> P (snd (PutExecution s a (x\<lparr>xr_ID := j, xr_WorkflowID := i\<rparr>) w))
    \<and> (lists_plain s a P \<longrightarrow> P (snd (Store_List s a w)) \<and> P (snd (ListExecutions s a i w)))"
proof (intro conjI impI)
  have i: "plain_id i" using assms(3) by (simp add: id_ok_def)
  note k = assms(1,2)
  show "P (snd (Store_Get s a i w))" by (rule Store_Get_keeps [where P = P, OF k i])
  show "P (snd (Store_Delete s a i w))" by (rule Store_Delete_keeps [where P = P, OF k i])
  show "P (snd (Store_Put s a (flow\<lparr>wd_ID := i\<rparr>) w))" by (rule Store_Put_keeps [where P = P, OF k]) (simp add: i)
  show "P (snd (GetExecution s a i j w))" by (rule GetExecution_keeps [where P = P, OF k assms(3,4)])
  show "P (snd (PutExecution s a (x\<lparr>xr_ID := j, xr_WorkflowID := i\<rparr>) w))"
    by (rule PutExecution_keeps [where P = P, OF k]) (simp_all add: assms)
  show "P (snd (Store_List s a w))" if "lists_plain s a P" by (rule Store_List_keeps [where P = P, OF k that])
  show "P (snd (ListExecutions s a i w))" if "lists_plain s a P" by (rule ListExecutions_keeps [where P = P, OF k assms(3) that])
qed

text \<open>
  An id from a stored file, which the user's other applications can write, or from the path of a request leads out of the folder
  when it has such components, plain or escaped.
\<close>

lemma stored_id_climbs_out:
  "definitionPath s u ''../../notes'' = davBase s u @ ''/'' @ rest \<Longrightarrow> \<not> inside rest"
  "definitionPath s u ''..%2F..%2Fnotes'' = davBase s u @ ''/'' @ rest \<Longrightarrow> \<not> inside rest"
proof -
  have "rest = rootDir @ CHR 0x2F # definitionsDir @ CHR 0x2F # ''../../notes.json''"
    if "definitionPath s u ''../../notes'' = davBase s u @ ''/'' @ rest" using that by (simp add: store_urls)
  then show "definitionPath s u ''../../notes'' = davBase s u @ ''/'' @ rest \<Longrightarrow> \<not> inside rest"
    by (simp add: inside_below Split_slash folders_no_slash)
  have "rest = rootDir @ CHR 0x2F # definitionsDir @ CHR 0x2F # ''..%2F..%2Fnotes.json''"
    if "definitionPath s u ''..%2F..%2Fnotes'' = davBase s u @ ''/'' @ rest" using that by (simp add: store_urls)
  then show "definitionPath s u ''..%2F..%2Fnotes'' = davBase s u @ ''/'' @ rest \<Longrightarrow> \<not> inside rest"
    by (simp add: inside_below unreserved_def)
qed

end
