(* ===== verification/SSEStream.thy ===== *)
theory SSEStream
  imports GoJson Runtime
begin

text \<open>
  backend/pkg/sse, the event path: splitting the response of oCIS's notification endpoint into lines
  (bufio.Scanner), assembling the lines of a block into an event (\<open>streamOnce\<close>), matching the event
  with the trigger index (\<open>handleEvent\<close>), and running a workflow (\<open>runWorkflow\<close>). The goroutines
  \<open>handleEvent\<close> starts are returned as the list of the calls of \<open>runWorkflow\<close> they make.
\<close>

section \<open>Lines\<close>

text \<open>\<^verbatim>\<open>strings.TrimSpace\<close>: the UTF-8 encodings of the white space characters of Unicode.\<close>

definition space_runes :: "string list" where
  "space_runes = [[CHR 0x09], [CHR 0x0A], [CHR 0x0B], [CHR 0x0C], [CHR 0x0D], [CHR 0x20],
     [CHR 0xC2, CHR 0x85], [CHR 0xC2, CHR 0xA0], [CHR 0xE1, CHR 0x9A, CHR 0x80],
     [CHR 0xE2, CHR 0x80, CHR 0x80], [CHR 0xE2, CHR 0x80, CHR 0x81], [CHR 0xE2, CHR 0x80, CHR 0x82],
     [CHR 0xE2, CHR 0x80, CHR 0x83], [CHR 0xE2, CHR 0x80, CHR 0x84], [CHR 0xE2, CHR 0x80, CHR 0x85],
     [CHR 0xE2, CHR 0x80, CHR 0x86], [CHR 0xE2, CHR 0x80, CHR 0x87], [CHR 0xE2, CHR 0x80, CHR 0x88],
     [CHR 0xE2, CHR 0x80, CHR 0x89], [CHR 0xE2, CHR 0x80, CHR 0x8A], [CHR 0xE2, CHR 0x80, CHR 0xA8],
     [CHR 0xE2, CHR 0x80, CHR 0xA9], [CHR 0xE2, CHR 0x80, CHR 0xAF], [CHR 0xE2, CHR 0x81, CHR 0x9F],
     [CHR 0xE3, CHR 0x80, CHR 0x80]]"

lemma space_runes_nonempty: "r \<in> set space_runes \<Longrightarrow> r \<noteq> []"
  by (auto simp: space_runes_def)

function trim_space_left :: "string \<Rightarrow> string" where
  "trim_space_left s =
     (case find (HasPrefix s) space_runes of
        None \<Rightarrow> s
      | Some r \<Rightarrow> trim_space_left (drop (length r) s))"
  by pat_completeness auto
termination
proof (relation "measure length")
  fix s r assume "find (HasPrefix s) space_runes = Some r"
  then have "HasPrefix s r" "r \<noteq> []"
    using space_runes_nonempty by (auto simp: find_Some_iff)
  then show "(drop (length r) s, s) \<in> measure length" by (cases s) auto
qed simp

function trim_space_right :: "string \<Rightarrow> string" where
  "trim_space_right s =
     (case find (HasSuffix s) space_runes of
        None \<Rightarrow> s
      | Some r \<Rightarrow> trim_space_right (take (length s - length r) s))"
  by pat_completeness auto
termination
proof (relation "measure length")
  fix s r assume "find (HasSuffix s) space_runes = Some r"
  then have "HasSuffix s r" "r \<noteq> []"
    using space_runes_nonempty by (auto simp: find_Some_iff)
  then show "(take (length s - length r) s, s) \<in> measure length"
    by (cases s; cases r) (auto simp: HasSuffix_def)
qed simp

declare trim_space_left.simps [simp del] trim_space_right.simps [simp del]

definition TrimSpace :: "string \<Rightarrow> string" where
  "TrimSpace s = trim_space_right (trim_space_left s)"

text \<open>
  \<^verbatim>\<open>bufio.ScanLines\<close>: lines end at a newline, one trailing carriage return is dropped, and a
  last line without a newline counts if it is not empty. The scanner's buffer is limited to 65536
  bytes: a line that fills it without its newline ends the scan with an error.
\<close>

abbreviation newline :: char where "newline \<equiv> CHR 0x0A"

definition maxScanTokenSize :: nat where "maxScanTokenSize = 65536"

definition drop_cr :: "string \<Rightarrow> string" where
  "drop_cr line = (if line \<noteq> [] \<and> last line = CHR 0x0D then butlast line else line)"

definition scan_lines :: "string \<Rightarrow> string list \<times> bool" where
  "scan_lines body =
     (let parts = Split newline body;
          toks = (if last parts = [] then butlast parts else parts);
          fit = takeWhile (\<lambda>l. length l < maxScanTokenSize) toks
      in (map drop_cr fit, length fit < length toks))"

section \<open>Events\<close>

definition eventTypeMap :: "(string \<times> string) list" where
  "eventTypeMap =
     [(''postprocessing-finished'', ''upload''),
      (''item-renamed'', ''move''),
      (''share-created'', ''share''),
      (''link-created'', ''share''),
      (''file-locked'', ''lock'')]"

record eventPayload =
  ep_ItemID :: string
  ep_SpaceID :: string

definition decode_payload :: "codec \<Rightarrow> string \<Rightarrow> eventPayload result" where
  "decode_payload c data =
     (case json_Unmarshal c data of
        Inl e \<Rightarrow> Inl e
      | Inr JNull \<Rightarrow> Inr \<lparr>ep_ItemID = [], ep_SpaceID = []\<rparr>
      | Inr (JObj kvs) \<Rightarrow>
          (case string_field ''itemid'' [] kvs of
             Inl e \<Rightarrow> Inl e
           | Inr item \<Rightarrow> (case string_field ''spaceid'' [] kvs of
                Inl e \<Rightarrow> Inl e
              | Inr space \<Rightarrow> Inr \<lparr>ep_ItemID = item, ep_SpaceID = space\<rparr>))
      | Inr _ \<Rightarrow> Inl (Msg ''json: cannot unmarshal value into Go value of type sse.eventPayload''))"

type_synonym run_call = "string \<times> string"

text \<open>
  The loop over the index entries. Its local variables are \<open>resolvedOnce\<close> and \<open>resolvedPath\<close>; a started
  goroutine is the workflow id and the path it is given.
\<close>

fun handle_entries :: "'w engine \<Rightarrow> string \<Rightarrow> string \<Rightarrow> string \<Rightarrow> eventPayload \<Rightarrow> TriggerIndexEntry list
    \<Rightarrow> bool \<Rightarrow> string \<Rightarrow> 'w \<Rightarrow> run_call list \<times> 'w" where
  "handle_entries en userID authHeader triggerType payload [] resolvedOnce resolvedPath w = ([], w)"
| "handle_entries en userID authHeader triggerType payload (e # es) resolvedOnce resolvedPath w =
     (if ti_UserID e \<noteq> userID \<or> ti_EventType e \<noteq> triggerType
      then handle_entries en userID authHeader triggerType payload es resolvedOnce resolvedPath w
      else
        let (path, w1) =
          (if \<not> resolvedOnce \<and> ep_SpaceID payload \<noteq> [] \<and> ep_ItemID payload \<noteq> []
           then (case en_ItemPath en authHeader (ep_SpaceID payload) (ep_ItemID payload) w of
                   (Inl err, w1) \<Rightarrow> (resolvedPath, w1)
                 | (Inr p, w1) \<Rightarrow> (p, w1))
           else (resolvedPath, w))
        in if IsInternalPath path \<or> \<not> MatchesFilters e path (ep_SpaceID payload)
           then handle_entries en userID authHeader triggerType payload es True path w1
           else let (runs, w2) = handle_entries en userID authHeader triggerType payload es True path w1
             in ((ti_WorkflowID e, path) # runs, w2))"

definition handleEvent :: "'w engine \<Rightarrow> codec \<Rightarrow> string \<Rightarrow> string \<Rightarrow> string \<Rightarrow> string \<Rightarrow> DB \<Rightarrow> 'w
    \<Rightarrow> run_call list \<times> DB \<times> 'w" where
  "handleEvent en c userID authHeader sseEventType data db w =
     (case map_of eventTypeMap sseEventType of
        None \<Rightarrow> ([], db, w)
      | Some triggerType \<Rightarrow>
          (case decode_payload c data of
             Inl err \<Rightarrow> ([], db, w)
           | Inr payload \<Rightarrow>
               (case ListEventTriggers db of
                  (Inl err, db1) \<Rightarrow> ([], db1, w)
                | (Inr entries, db1) \<Rightarrow>
                    let (runs, w1) = handle_entries en userID authHeader triggerType payload entries False [] w
                    in (runs, db1, w1))))"

definition runWorkflow :: "'w engine \<Rightarrow> string \<Rightarrow> string \<Rightarrow> string \<Rightarrow> 'w \<Rightarrow> 'w" where
  "runWorkflow en authHeader workflowID resourcePath w =
     load_and_run en ''event'' authHeader workflowID resourcePath w"

section \<open>Blocks\<close>

text \<open>The loop of \<^verbatim>\<open>streamOnce\<close> over the scanned lines, with its variables \<open>eventType\<close> and \<open>data\<close>.\<close>

fun scan_loop :: "'w engine \<Rightarrow> codec \<Rightarrow> string \<Rightarrow> string \<Rightarrow> string list \<Rightarrow> string \<Rightarrow> string \<Rightarrow> DB \<Rightarrow> 'w
    \<Rightarrow> run_call list \<times> DB \<times> 'w" where
  "scan_loop en c userID authHeader [] eventType data db w = ([], db, w)"
| "scan_loop en c userID authHeader (line # ls) eventType data db w =
     (if HasPrefix line ''event:''
      then scan_loop en c userID authHeader ls (TrimSpace (TrimPrefix line ''event:'')) data db w
      else if HasPrefix line ''data:''
      then scan_loop en c userID authHeader ls eventType (TrimSpace (TrimPrefix line ''data:'')) db w
      else if line = []
      then let (runs, db1, w1) =
                 (if data \<noteq> [] then handleEvent en c userID authHeader eventType data db w else ([], db, w));
               (runs', db2, w2) = scan_loop en c userID authHeader ls [] [] db1 w1
           in (runs @ runs', db2, w2)
      else scan_loop en c userID authHeader ls eventType data db w)"

text \<open>
  One connection: the endpoint answers with an error, or with a status, the bytes of its body and the
  error that ended it (\<open>None\<close> is end of file). The result says whether \<open>onConnected\<close> was called.
\<close>

type_synonym 'w sse_endpoint = "string \<Rightarrow> 'w \<Rightarrow> (int \<times> string \<times> go_error option) result \<times> 'w"

definition streamOnce :: "'w engine \<Rightarrow> codec \<Rightarrow> 'w sse_endpoint \<Rightarrow> string \<Rightarrow> string \<Rightarrow> DB \<Rightarrow> 'w
    \<Rightarrow> go_error option \<times> bool \<times> run_call list \<times> DB \<times> 'w" where
  "streamOnce en c endpoint userID authHeader db w =
     (case endpoint authHeader w of
        (Inl e, w1) \<Rightarrow> (Some e, False, [], db, w1)
      | (Inr (status, body, ended), w1) \<Rightarrow>
          if status \<noteq> 200
          then (Some (Msg (''sse endpoint returned status '' @ show_int status)), False, [], db, w1)
          else let (ls, too_long) = scan_lines body;
                   (runs, db1, w2) = scan_loop en c userID authHeader ls [] [] db w1
            in (if too_long then Some (Msg ''bufio.Scanner: token too long'') else ended,
                True, runs, db1, w2))"

section \<open>Dispatch\<close>

definition candidate :: "string \<Rightarrow> string \<Rightarrow> TriggerIndexEntry \<Rightarrow> bool" where
  "candidate userID triggerType e = (ti_UserID e = userID \<and> ti_EventType e = triggerType)"

text \<open>The calls an event on \<open>path\<close> in \<open>space\<close> must lead to, given the entries of the index.\<close>

definition dispatched :: "string \<Rightarrow> string \<Rightarrow> string \<Rightarrow> string \<Rightarrow> TriggerIndexEntry list \<Rightarrow> run_call list" where
  "dispatched userID triggerType path space es =
     map (\<lambda>e. (ti_WorkflowID e, path))
       (filter (\<lambda>e. candidate userID triggerType e \<and> \<not> IsInternalPath path \<and> MatchesFilters e path space) es)"

text \<open>The path of an event: resolved if both ids are known, and empty if that fails.\<close>

definition event_path :: "'w engine \<Rightarrow> string \<Rightarrow> eventPayload \<Rightarrow> 'w \<Rightarrow> string \<times> 'w" where
  "event_path en authHeader payload w =
     (if ep_SpaceID payload \<noteq> [] \<and> ep_ItemID payload \<noteq> []
      then (case en_ItemPath en authHeader (ep_SpaceID payload) (ep_ItemID payload) w of
              (Inl err, w1) \<Rightarrow> ([], w1)
            | (Inr p, w1) \<Rightarrow> (p, w1))
      else ([], w))"

lemma dispatched_Nil [simp]: "dispatched u t p sp [] = []"
  by (simp add: dispatched_def)

lemma dispatched_Cons [simp]:
  "dispatched u t p sp (e # es) =
    (if candidate u t e \<and> \<not> IsInternalPath p \<and> MatchesFilters e p sp
     then (ti_WorkflowID e, p) # dispatched u t p sp es else dispatched u t p sp es)"
  by (simp add: dispatched_def)

lemma dispatched_internal [simp]: "IsInternalPath p \<Longrightarrow> dispatched u t p sp es = []"
  by (simp add: dispatched_def)

lemma handle_entries_resolved:
  "handle_entries en u a t pl es True p w = (dispatched u t p (ep_SpaceID pl) es, w)"
  by (induction es) (auto simp: candidate_def)

lemma handle_entries_spec:
  "handle_entries en u a t pl es False [] w =
    (if list_ex (candidate u t) es
     then (case event_path en a pl w of (p, w1) \<Rightarrow> (dispatched u t p (ep_SpaceID pl) es, w1))
     else ([], w))"
proof (induction es)
  case (Cons e es)
  show ?case
  proof (cases "candidate u t e")
    case True
    then show ?thesis
      by (auto simp: candidate_def event_path_def handle_entries_resolved split: prod.splits sum.splits)
  next
    case False
    then have "handle_entries en u a t pl (e # es) False [] w = handle_entries en u a t pl es False [] w"
      by (auto simp: candidate_def)
    then show ?thesis using Cons.IH False by (simp split: prod.splits)
  qed
qed simp

text \<open>
  C1. An event starts exactly the matching workflows: for a known event type and a readable payload,
  the started runs are, in the order of the index, the user's workflows with a trigger of that type
  whose path, extension and space filters accept the event, each once and with the event's path. The
  path is asked for at most once, and only if some trigger of the user has the type. An event inside
  the backend's own folder starts nothing.
\<close>

theorem handleEvent_dispatch:
  assumes "map_of eventTypeMap evt = Some t" "decode_payload c data = Inr payload"
    "ListEventTriggers db = (Inr entries, db1)" "event_path en a payload w = (p, w1)"
  shows "handleEvent en c u a evt data db w =
      (dispatched u t p (ep_SpaceID payload) entries, db1,
       if list_ex (candidate u t) entries then w1 else w)
    \<and> (IsInternalPath p \<longrightarrow> fst (handleEvent en c u a evt data db w) = [])"
proof -
  have "dispatched u t p (ep_SpaceID payload) entries = []" if "\<not> list_ex (candidate u t) entries"
    using that by (auto simp: dispatched_def list_ex_iff filter_empty_conv)
  then show ?thesis
    using assms by (auto simp: handleEvent_def handle_entries_spec)
qed

text \<open>
  When the path of an event cannot be resolved, the guard against the backend's own folder sees an
  empty path: a trigger without a path and extension filter is started.
\<close>

lemma unresolved_event_dispatched:
  "candidate u t e \<Longrightarrow> ti_PathPrefix e = [] \<Longrightarrow> ti_Extension e = [] \<Longrightarrow> ti_SpaceID e = [] \<Longrightarrow>
   en_ItemPath en a (ep_SpaceID pl) (ep_ItemID pl) w = (Inl err, w1) \<Longrightarrow>
   fst (handle_entries en u a t pl [e] False [] w) = [(ti_WorkflowID e, [])]"
  by (auto simp: handle_entries_spec event_path_def MatchesFilters_def)

text \<open>A codec that reads one payload, for concrete runs.\<close>

definition demo_codec :: codec where
  "demo_codec = \<lparr>json_Marshal = (\<lambda>j. ''json''),
     json_Unmarshal = (\<lambda>s. if s = ''bad'' then Inl (Msg s)
        else Inr (JObj [(''itemid'', JStr s), (''spaceid'', JStr ''sp''), (''other'', JNull)])),
     json_Decode = (\<lambda>s. Inl (Msg s))\<rparr>"

lemma demo_decode: "s \<noteq> ''bad'' \<Longrightarrow> decode_payload demo_codec s = Inr \<lparr>ep_ItemID = s, ep_SpaceID = ''sp''\<rparr>"
  by (simp add: decode_payload_def demo_codec_def key_matches_def ascii_lower_def)

definition demo_triggers :: "TriggerIndexEntry list" where
  "demo_triggers = [demo_event_trigger ''w1'' ''u1'' ''.pdf'', demo_event_trigger ''w2'' ''u2'' [],
     demo_event_trigger ''w3'' ''u1'' ''.txt'', demo_event_trigger ''w4'' ''u1'' []]"

lemma demo_list_triggers:
  "ListEventTriggers (demo_db\<lparr>db_triggers := demo_triggers\<rparr>) = (Inr demo_triggers, demo_db\<lparr>db_triggers := demo_triggers\<rparr>)"
  by (simp add: ListEventTriggers_def listTriggers_def db_simps sql_select_def demo_triggers_def
      demo_event_trigger_def)

theorem handleEvent_dispatch_witness:
  "handleEvent demo_engine demo_codec ''u1'' ''Basic x'' ''postprocessing-finished'' ''a.pdf''
      (demo_db\<lparr>db_triggers := demo_triggers\<rparr>) 7
    = ([(''w1'', ''/in/a.pdf''), (''w4'', ''/in/a.pdf'')], demo_db\<lparr>db_triggers := demo_triggers\<rparr>, 107)"
proof -
  have p: "event_path demo_engine ''Basic x'' \<lparr>ep_ItemID = ''a.pdf'', ep_SpaceID = ''sp''\<rparr> 7 = (''/in/a.pdf'', 107)"
    by (simp add: event_path_def demo_engine_def)
  have t: "map_of eventTypeMap ''postprocessing-finished'' = Some ''upload''"
    by (simp add: eventTypeMap_def)
  have d: "dispatched ''u1'' ''upload'' ''/in/a.pdf'' ''sp'' demo_triggers
      = [(''w1'', ''/in/a.pdf''), (''w4'', ''/in/a.pdf'')]" "list_ex (candidate ''u1'' ''upload'') demo_triggers"
    by (simp_all add: dispatched_def candidate_def demo_triggers_def demo_event_trigger_def
        IsInternalPath_def TrimPrefix_def rootDir_def MatchesFilters_def HasSuffix_def)
  show ?thesis
    using handleEvent_dispatch [where u = "''u1''", OF t demo_decode [of "''a.pdf''"] demo_list_triggers p] d
    by simp
qed

section \<open>Blocks of lines\<close>

text \<open>
  A block as the server may send it: an event type and data in either order, with any number of other
  lines between, ended by an empty line.
\<close>

record sse_block =
  bk_event :: string
  bk_data :: string
  bk_data_first :: bool
  bk_noise :: "string list \<times> string list \<times> string list"

definition noise_line :: "string \<Rightarrow> bool" where
  "noise_line l = (l \<noteq> [] \<and> \<not> HasPrefix l ''event:'' \<and> \<not> HasPrefix l ''data:'')"

definition noise_ok :: "sse_block \<Rightarrow> bool" where
  "noise_ok b = (case bk_noise b of (xs, ys, zs) \<Rightarrow> list_all noise_line (xs @ ys @ zs))"

definition block_lines :: "sse_block \<Rightarrow> string list" where
  "block_lines b = (case bk_noise b of (xs, ys, zs) \<Rightarrow>
     (let ev = ''event:'' @ bk_event b; dat = ''data:'' @ bk_data b in
      if bk_data_first b then xs @ dat # ys @ ev # zs @ [[]] else xs @ ev # ys @ dat # zs @ [[]]))"

text \<open>Handling a list of events one after the other.\<close>

fun handle_all :: "'w engine \<Rightarrow> codec \<Rightarrow> string \<Rightarrow> string \<Rightarrow> (string \<times> string) list \<Rightarrow> DB \<Rightarrow> 'w
    \<Rightarrow> run_call list \<times> DB \<times> 'w" where
  "handle_all en c u a [] db w = ([], db, w)"
| "handle_all en c u a ((evt, data) # evs) db w =
     (let (runs, db1, w1) = handleEvent en c u a evt data db w;
          (runs', db2, w2) = handle_all en c u a evs db1 w1
      in (runs @ runs', db2, w2))"

lemma HasPrefix_data_event [simp]: "\<not> HasPrefix (''data:'' @ x) ''event:''"
  by (simp add: HasPrefix_def)

lemma scan_loop_noise:
  "list_all noise_line xs \<Longrightarrow> scan_loop en c u a (xs @ ls) evt dat db w = scan_loop en c u a ls evt dat db w"
  by (induction xs) (auto simp: noise_line_def)

lemma scan_loop_event:
  "scan_loop en c u a ((''event:'' @ x) # ls) evt dat db w = scan_loop en c u a ls (TrimSpace x) dat db w"
  using HasPrefix_append [of "''event:''" x] TrimPrefix_append [of "''event:''" x] by simp

lemma scan_loop_data:
  "scan_loop en c u a ((''data:'' @ x) # ls) evt dat db w = scan_loop en c u a ls evt (TrimSpace x) db w"
  using HasPrefix_append [of "''data:''" x] TrimPrefix_append [of "''data:''" x] HasPrefix_data_event [of x] by simp

lemma scan_loop_open:
  "[] \<notin> set ls \<Longrightarrow> scan_loop en c u a ls evt dat db w = ([], db, w)"
  by (induction ls arbitrary: evt dat) auto

lemma scan_loop_block:
  assumes "noise_ok b"
  shows "scan_loop en c u a (block_lines b @ ls) [] [] db w =
    (let (runs, db1, w1) = (if TrimSpace (bk_data b) \<noteq> []
           then handleEvent en c u a (TrimSpace (bk_event b)) (TrimSpace (bk_data b)) db w else ([], db, w));
         (runs', db2, w2) = scan_loop en c u a ls [] [] db1 w1
     in (runs @ runs', db2, w2))"
proof -
  obtain xs ys zs where n: "bk_noise b = (xs, ys, zs)" by (metis prod_cases3)
  then have noise: "list_all noise_line xs" "list_all noise_line ys" "list_all noise_line zs"
    using assms by (auto simp: noise_ok_def)
  note steps = scan_loop_noise [OF noise(1)] scan_loop_noise [OF noise(2)] scan_loop_noise [OF noise(3)]
    scan_loop_event scan_loop_data
  show ?thesis
  proof (cases "bk_data_first b")
    case True
    then have l: "block_lines b @ ls = xs @ (''data:'' @ bk_data b) # ys @ (''event:'' @ bk_event b) # zs @ [] # ls"
      by (simp add: block_lines_def n)
    show ?thesis unfolding l steps by (simp add: Let_def split: prod.splits)
  next
    case False
    then have l: "block_lines b @ ls = xs @ (''event:'' @ bk_event b) # ys @ (''data:'' @ bk_data b) # zs @ [] # ls"
      by (simp add: block_lines_def n)
    show ?thesis unfolding l steps by (simp add: Let_def split: prod.splits)
  qed
qed

lemma scan_loop_blocks:
  assumes "list_all noise_ok bs" "[] \<notin> set rest"
  shows "scan_loop en c u a (concat (map block_lines bs) @ rest) [] [] db w =
    handle_all en c u a
      [(TrimSpace (bk_event b), TrimSpace (bk_data b)). b \<leftarrow> bs, TrimSpace (bk_data b) \<noteq> []] db w"
  using assms(1)
proof (induction bs arbitrary: db w)
  case Nil
  then show ?case using scan_loop_open [OF assms(2)] by simp
next
  case (Cons b bs)
  then show ?case by (simp add: scan_loop_block split: prod.splits)
qed

section \<open>Bytes\<close>

text \<open>Lines as bytes, each ended by LF or by CR LF.\<close>

definition raw_line :: "string \<times> bool \<Rightarrow> string" where
  "raw_line l = fst l @ (if snd l then [CHR 0x0D] else [])"

definition render_lines :: "(string \<times> bool) list \<Rightarrow> string" where
  "render_lines ls = concat (map (\<lambda>l. raw_line l @ [newline]) ls)"

definition line_ok :: "string \<times> bool \<Rightarrow> bool" where
  "line_ok l = (newline \<notin> set (fst l) \<and> length (fst l) < maxScanTokenSize - 1
     \<and> (fst l = [] \<or> last (fst l) \<noteq> CHR 0x0D))"

lemma raw_line_ok:
  assumes "line_ok l"
  shows "newline \<notin> set (raw_line l)" "length (raw_line l) < maxScanTokenSize" "drop_cr (raw_line l) = fst l"
  using assms by (auto simp: line_ok_def raw_line_def drop_cr_def)

lemma Split_render:
  "list_all line_ok ls \<Longrightarrow> Split newline (render_lines ls) = map raw_line ls @ [[]]"
proof (induction ls)
  case (Cons l ls)
  have "render_lines (l # ls) = raw_line l @ newline # render_lines ls" by (simp add: render_lines_def)
  then show ?case using Cons raw_line_ok(1) [of l] Split_append [of newline "raw_line l" "render_lines ls"]
    by simp
qed (simp add: render_lines_def)

lemma scan_lines_render:
  assumes "list_all line_ok ls"
  shows "scan_lines (render_lines ls) = (map fst ls, False)"
proof -
  have "takeWhile (\<lambda>l. length l < maxScanTokenSize) (map raw_line ls) = map raw_line ls"
    using assms raw_line_ok(2) by (auto simp: takeWhile_eq_all_conv list_all_iff)
  moreover have "map (drop_cr \<circ> raw_line) ls = map fst ls"
    using assms raw_line_ok(3) by (auto simp: list_all_iff)
  ultimately show ?thesis
    using assms by (simp add: scan_lines_def Split_render Let_def del: takeWhile_eq_all_conv)
qed

text \<open>
  C30. The stream is read as it is sent: when the endpoint answers 200 and its bytes are blocks of lines
  ended by LF or CR LF, followed by an unfinished block, exactly the finished blocks with data are
  handled, in order, each with the type and data of that block, trimmed, whichever of the two came
  first and whatever other lines stood between. The unfinished block is not handled, and the
  connection counts as established.
\<close>

theorem stream_blocks:
  assumes "endpoint a w = (Inr (200, render_lines ls, ended), w1)"
    "map fst ls = concat (map block_lines bs) @ rest"
    "list_all line_ok ls" "list_all noise_ok bs" "[] \<notin> set rest"
  shows "streamOnce en c endpoint u a db w =
    (case handle_all en c u a
       [(TrimSpace (bk_event b), TrimSpace (bk_data b)). b \<leftarrow> bs, TrimSpace (bk_data b) \<noteq> []] db w1 of
       (runs, db1, w2) \<Rightarrow> (ended, True, runs, db1, w2))"
  using assms by (simp add: streamOnce_def scan_lines_render scan_loop_blocks)

definition demo_blocks :: "sse_block list" where
  "demo_blocks = [
     \<lparr>bk_event = '' postprocessing-finished'', bk_data = '' a.pdf'', bk_data_first = True,
      bk_noise = ([], [''id: 1''], [])\<rparr>,
     \<lparr>bk_event = ''ping'', bk_data = [], bk_data_first = False, bk_noise = ([], [], [])\<rparr>]"

definition demo_bytes :: "(string \<times> bool) list" where
  "demo_bytes = [(''data: a.pdf'', False), (''id: 1'', True), (''event: postprocessing-finished'', True),
     ([], False), (''event:ping'', False), (''data:'', False), ([], True), (''data: cut'', False)]"

lemma demo_trim:
  "TrimSpace '' postprocessing-finished'' = ''postprocessing-finished''" "TrimSpace '' a.pdf'' = ''a.pdf''"
  "TrimSpace ''ping'' = ''ping''" "TrimSpace [] = []"
  by code_simp+

theorem stream_blocks_witness:
  "streamOnce demo_engine demo_codec (\<lambda>a w. (Inr (200, render_lines demo_bytes, None), w + 1)) ''u1'' ''Basic x''
      (demo_db\<lparr>db_triggers := demo_triggers\<rparr>) 6
    = (None, True, [(''w1'', ''/in/a.pdf''), (''w4'', ''/in/a.pdf'')], demo_db\<lparr>db_triggers := demo_triggers\<rparr>, 107)"
proof -
  have evs: "[(TrimSpace (bk_event b), TrimSpace (bk_data b)). b \<leftarrow> demo_blocks, TrimSpace (bk_data b) \<noteq> []]
      = [(''postprocessing-finished'', ''a.pdf'')]"
    by (simp add: demo_blocks_def demo_trim)
  have "map fst demo_bytes = concat (map block_lines demo_blocks) @ [''data: cut'']" "list_all line_ok demo_bytes"
    "list_all noise_ok demo_blocks"
    by (simp_all add: demo_bytes_def demo_blocks_def block_lines_def line_ok_def maxScanTokenSize_def
        noise_ok_def noise_line_def)
  note r = stream_blocks [where endpoint = "\<lambda>a w. (Inr (200, render_lines demo_bytes, None), w + 1)"
      and a = "''Basic x''" and w = 6, OF refl this, of demo_engine demo_codec "''u1''"]
  have ev: "handleEvent demo_engine demo_codec ''u1'' ''Basic x'' ''postprocessing-finished'' ''a.pdf''
      (demo_db\<lparr>db_triggers := demo_triggers\<rparr>) 7
    = ([(''w1'', ''/in/a.pdf''), (''w4'', ''/in/a.pdf'')], demo_db\<lparr>db_triggers := demo_triggers\<rparr>, 107)"
    by code_simp
  show ?thesis using r [of "demo_db\<lparr>db_triggers := demo_triggers\<rparr>"] ev unfolding evs by simp
qed

end
