(* ===== verification/SSEManager.thy ===== *)
theory SSEManager
  imports SSEStream "HOL-Library.Word"
begin

text \<open>
  backend/pkg/sse, the manager: which users have a consumer goroutine. The \<^verbatim>\<open>Manager\<close> keeps the map
  \<open>active\<close> from users to consumers and the 64-bit counter \<open>nextID\<close>. What the Go runtime keeps is
  modelled beside it: the contexts created so far are numbered, \<open>cancelled\<close> holds the numbers of
  those whose cancel function was called, \<open>root\<close> tells whether the context of \<^verbatim>\<open>Start\<close> is done, and
  \<open>running\<close> holds the goroutines that have not returned. Every method holds the mutex throughout, so
  it is one step; the goroutines interleave with them in any order.
\<close>

section \<open>State and methods\<close>

record activeConsumer =
  cs_ctx :: nat
  cs_id :: "64 word"

record goroutine =
  go_user :: string
  go_ctx :: nat
  go_id :: "64 word"

record Manager =
  mg_active :: "(string \<times> activeConsumer) list"
  mg_nextID :: "64 word"
  mg_kick :: bool
  mg_contexts :: nat
  mg_cancelled :: "nat list"
  mg_root :: bool
  mg_running :: "goroutine list"

definition manager_New :: Manager where
  "manager_New = \<lparr>mg_active = [], mg_nextID = 0, mg_kick = False, mg_contexts = 0, mg_cancelled = [],
     mg_root = False, mg_running = []\<rparr>"

definition Kick :: "Manager \<Rightarrow> Manager" where
  "Kick m = (if mg_kick m then m else m\<lparr>mg_kick := True\<rparr>)"

definition stop_unwanted :: "string list \<Rightarrow> Manager \<Rightarrow> Manager" where
  "stop_unwanted wanted m =
     m\<lparr>mg_cancelled := map (\<lambda>(u, c). cs_ctx c) (filter (\<lambda>(u, c). u \<notin> set wanted) (mg_active m)) @ mg_cancelled m,
       mg_active := filter (\<lambda>(u, c). u \<in> set wanted) (mg_active m)\<rparr>"

definition start_missing :: "string \<Rightarrow> Manager \<Rightarrow> Manager" where
  "start_missing userID m =
     (if map_of (mg_active m) userID \<noteq> None then m
      else let ctx = mg_contexts m; i = mg_nextID m + 1 in
        m\<lparr>mg_contexts := ctx + 1, mg_nextID := i,
          mg_active := (userID, \<lparr>cs_ctx = ctx, cs_id = i\<rparr>) # mg_active m,
          mg_running := \<lparr>go_user = userID, go_ctx = ctx, go_id = i\<rparr> # mg_running m\<rparr>)"

text \<open>\<open>order\<close> is the order in which the second range loop visits the keys of \<open>wanted\<close>.\<close>

definition reconcile_wanted :: "string list \<Rightarrow> string list \<Rightarrow> Manager \<Rightarrow> Manager" where
  "reconcile_wanted wanted order m = fold start_missing order (stop_unwanted wanted m)"

definition manager_reconcile :: "'w platform \<Rightarrow> DB \<Rightarrow> Manager \<Rightarrow> 'w \<Rightarrow> DB \<times> Manager \<times> 'w" where
  "manager_reconcile P db m w =
     (case ListEventTriggers db of
        (Inl err, db1) \<Rightarrow> (db1, m, w)
      | (Inr entries, db1) \<Rightarrow>
          let wanted = remdups (map ti_UserID entries);
              (order, w1) = pf_RangeKeys P wanted w
          in (db1, reconcile_wanted wanted order m, w1))"

definition stopAll :: "Manager \<Rightarrow> Manager" where
  "stopAll m = m\<lparr>mg_cancelled := map (\<lambda>(u, c). cs_ctx c) (mg_active m) @ mg_cancelled m, mg_active := []\<rparr>"

definition deactivate :: "string \<Rightarrow> 64 word \<Rightarrow> Manager \<Rightarrow> Manager" where
  "deactivate userID i m =
     (case map_of (mg_active m) userID of
        Some c \<Rightarrow> if cs_id c = i
                  then m\<lparr>mg_active := filter (\<lambda>(u, c). u \<noteq> userID) (mg_active m)\<rparr> else m
      | None \<Rightarrow> m)"

definition ctx_done :: "Manager \<Rightarrow> nat \<Rightarrow> bool" where
  "ctx_done m ctx = (mg_root m \<or> ctx \<in> set (mg_cancelled m))"

definition returned :: "goroutine \<Rightarrow> Manager \<Rightarrow> Manager" where
  "returned g m = m\<lparr>mg_running := remove1 g (mg_running m)\<rparr>"

section \<open>The steps of the manager and its goroutines\<close>

inductive mgr_step :: "Manager \<Rightarrow> Manager \<Rightarrow> bool" where
  reconciled: "distinct wanted \<Longrightarrow> set order = set wanted \<Longrightarrow> mgr_step m (reconcile_wanted wanted order m)"
| stopped: "mgr_step m (stopAll m)"
| no_automation: "g \<in> set (mg_running m) \<Longrightarrow>
    mgr_step m (returned g (deactivate (go_user g) (go_id g) m))"
| cancelled: "g \<in> set (mg_running m) \<Longrightarrow> ctx_done m (go_ctx g) \<Longrightarrow> mgr_step m (returned g m)"
| shutdown: "mgr_step m (m\<lparr>mg_root := True\<rparr>)"
| kicked: "mgr_step m (Kick m)"
| kick_taken: "mg_kick m \<Longrightarrow> mgr_step m (m\<lparr>mg_kick := False\<rparr>)"

inductive mgr_reach :: "Manager \<Rightarrow> bool" where
  init: "mgr_reach manager_New"
| step: "mgr_reach m \<Longrightarrow> mgr_step m m' \<Longrightarrow> mgr_reach m'"

inductive_cases mgr_stepE [elim!]: "mgr_step m m'"

section \<open>Invariant\<close>

definition consumer_of :: "goroutine \<Rightarrow> string \<times> activeConsumer" where
  "consumer_of g = (go_user g, \<lparr>cs_ctx = go_ctx g, cs_id = go_id g\<rparr>)"

definition goroutine_of :: "string \<times> activeConsumer \<Rightarrow> goroutine" where
  "goroutine_of uc = \<lparr>go_user = fst uc, go_ctx = cs_ctx (snd uc), go_id = cs_id (snd uc)\<rparr>"

definition id_ok :: "nat \<Rightarrow> nat \<Rightarrow> 64 word \<Rightarrow> bool" where
  "id_ok n ctx i = (ctx < n \<and> i = of_nat (ctx + 1))"

definition active_ok :: "Manager \<Rightarrow> string \<times> activeConsumer \<Rightarrow> bool" where
  "active_ok m uc = (id_ok (mg_contexts m) (cs_ctx (snd uc)) (cs_id (snd uc))
     \<and> cs_ctx (snd uc) \<notin> set (mg_cancelled m)
     \<and> (mg_root m \<or> goroutine_of uc \<in> set (mg_running m)))"

definition running_ok :: "Manager \<Rightarrow> goroutine \<Rightarrow> bool" where
  "running_ok m g = (id_ok (mg_contexts m) (go_ctx g) (go_id g)
     \<and> (go_ctx g \<in> set (mg_cancelled m) \<or> consumer_of g \<in> set (mg_active m)))"

definition mgr_ok :: "Manager \<Rightarrow> bool" where
  "mgr_ok m =
    (distinct (map fst (mg_active m)) \<and> distinct (map (cs_ctx \<circ> snd) (mg_active m))
     \<and> distinct (map go_ctx (mg_running m)) \<and> mg_nextID m = of_nat (mg_contexts m)
     \<and> (\<forall>uc \<in> set (mg_active m). active_ok m uc) \<and> (\<forall>g \<in> set (mg_running m). running_ok m g)
     \<and> (\<forall>ctx \<in> set (mg_cancelled m). ctx < mg_contexts m))"

lemma goroutine_consumer [simp]: "goroutine_of (consumer_of g) = g" "consumer_of (goroutine_of uc) = uc"
  by (simp_all add: goroutine_of_def consumer_of_def prod_eq_iff)

lemma consumer_of_sel [simp]: "fst (consumer_of g) = go_user g" "cs_ctx (snd (consumer_of g)) = go_ctx g"
    "cs_id (snd (consumer_of g)) = go_id g"
  by (simp_all add: consumer_of_def)

lemma goroutine_of_sel [simp]: "go_user (goroutine_of uc) = fst uc" "go_ctx (goroutine_of uc) = cs_ctx (snd uc)"
    "go_id (goroutine_of uc) = cs_id (snd uc)"
  by (simp_all add: goroutine_of_def)

lemma of_nat_word64_eq: "(of_nat a :: 64 word) = of_nat b \<longleftrightarrow> take_bit 64 a = take_bit 64 b"
  by (simp add: word_of_nat_eq_iff)

lemma id_ok_inject:
  assumes "id_ok n ctx i" "id_ok n ctx' i" "n < 2 ^ 64"
  shows "ctx = ctx'"
proof -
  have "take_bit 64 (ctx + 1) = take_bit 64 (ctx' + 1)"
    using assms unfolding id_ok_def by (metis of_nat_word64_eq)
  then show ?thesis using assms by (simp add: id_ok_def take_bit_nat_eq_self)
qed

lemma distinct_map_eqD: "distinct (map f xs) \<Longrightarrow> x \<in> set xs \<Longrightarrow> y \<in> set xs \<Longrightarrow> f x = f y \<Longrightarrow> x = y"
  by (auto simp: distinct_map inj_on_def)

lemma mgr_ok_New: "mgr_ok manager_New"
  by (simp add: mgr_ok_def manager_New_def)

lemma stop_unwanted_sel [simp]:
  "mg_active (stop_unwanted ws m) = filter (\<lambda>uc. fst uc \<in> set ws) (mg_active m)"
  "set (mg_cancelled (stop_unwanted ws m)) =
     (cs_ctx \<circ> snd) ` {uc \<in> set (mg_active m). fst uc \<notin> set ws} \<union> set (mg_cancelled m)"
  "mg_nextID (stop_unwanted ws m) = mg_nextID m" "mg_contexts (stop_unwanted ws m) = mg_contexts m"
  "mg_running (stop_unwanted ws m) = mg_running m" "mg_root (stop_unwanted ws m) = mg_root m"
  by (auto simp: stop_unwanted_def case_prod_beta intro: filter_cong)

lemma mgr_ok_stop_unwanted:
  assumes ok: "mgr_ok m"
  shows "mgr_ok (stop_unwanted ws m)"
proof -
  have dist: "distinct (map (cs_ctx \<circ> snd) (mg_active m))" using ok by (simp add: mgr_ok_def)
  have "active_ok (stop_unwanted ws m) uc" if "uc \<in> set (mg_active m)" "fst uc \<in> set ws" for uc
  proof -
    have "active_ok m uc" using ok that by (simp add: mgr_ok_def)
    moreover have "cs_ctx (snd uc) \<noteq> cs_ctx (snd x)" if "x \<in> set (mg_active m)" "fst x \<notin> set ws" for x
      using distinct_map_eqD [OF dist \<open>uc \<in> set (mg_active m)\<close> that(1)] \<open>fst uc \<in> set ws\<close> that(2) by auto
    ultimately show ?thesis by (auto simp: active_ok_def)
  qed
  moreover have "running_ok (stop_unwanted ws m) g" if "g \<in> set (mg_running m)" for g
  proof -
    have "running_ok m g" using ok that by (simp add: mgr_ok_def)
    then show ?thesis
      by (cases "go_user g \<in> set ws")
        (force simp: running_ok_def image_iff consumer_of_def)+
  qed
  ultimately show ?thesis
    using ok by (auto simp: mgr_ok_def distinct_map_filter active_ok_def id_ok_def)
qed

lemma mgr_ok_start_missing:
  assumes ok: "mgr_ok m"
  shows "mgr_ok (start_missing u m)"
proof (cases "map_of (mg_active m) u")
  case None
  define m' where "m' = start_missing u m"
  define uc where "uc = (u, \<lparr>cs_ctx = mg_contexts m, cs_id = mg_nextID m + 1\<rparr>)"
  have m': "mg_active m' = uc # mg_active m" "mg_running m' = goroutine_of uc # mg_running m"
    "mg_contexts m' = Suc (mg_contexts m)" "mg_nextID m' = mg_nextID m + 1"
    "mg_cancelled m' = mg_cancelled m" "mg_root m' = mg_root m"
    using None by (simp_all add: m'_def uc_def start_missing_def goroutine_of_def Let_def)
  have u: "u \<notin> fst ` set (mg_active m)" using None by (simp add: map_of_eq_None_iff)
  have lt: "cs_ctx (snd x) < mg_contexts m" if "x \<in> set (mg_active m)" for x
    using ok that by (auto simp: mgr_ok_def active_ok_def id_ok_def)
  have lt': "go_ctx g < mg_contexts m" if "g \<in> set (mg_running m)" for g
    using ok that by (auto simp: mgr_ok_def running_ok_def id_ok_def)
  have new: "active_ok m' uc" "running_ok m' (goroutine_of uc)"
    using ok by (auto simp: m' uc_def active_ok_def running_ok_def id_ok_def mgr_ok_def)
  have old: "active_ok m x \<Longrightarrow> active_ok m' x" "running_ok m g \<Longrightarrow> running_ok m' g" for x g
    by (auto simp: m' active_ok_def running_ok_def id_ok_def)
  have "mgr_ok m'"
    using ok u new old lt lt' by (auto simp: mgr_ok_def m' uc_def less_SucI) (metis less_irrefl)+
  then show ?thesis by (simp add: m'_def)
next
  case (Some c)
  then show ?thesis using ok by (simp add: start_missing_def)
qed

lemma mgr_ok_fold: "mgr_ok m \<Longrightarrow> mgr_ok (fold start_missing us m)"
  by (induction us arbitrary: m) (auto intro: mgr_ok_start_missing)

lemma mgr_ok_reconcile: "mgr_ok m \<Longrightarrow> mgr_ok (reconcile_wanted wanted order m)"
  by (simp add: reconcile_wanted_def mgr_ok_fold mgr_ok_stop_unwanted)

lemma stopAll_stop_unwanted: "stopAll m = stop_unwanted [] m"
  by (simp add: stopAll_def stop_unwanted_def)

lemma mgr_ok_stopAll: "mgr_ok m \<Longrightarrow> mgr_ok (stopAll m)"
  by (simp add: stopAll_stop_unwanted mgr_ok_stop_unwanted)

lemma mgr_ok_returned:
  assumes "mgr_ok m" "ctx_done m (go_ctx g)"
  shows "mgr_ok (returned g m)"
proof -
  have "active_ok (returned g m) uc" if "uc \<in> set (mg_active m)" for uc
  proof -
    have "active_ok m uc" using assms that by (simp add: mgr_ok_def)
    moreover from this have "mg_root m \<or> goroutine_of uc \<noteq> g"
      using assms(2) by (auto simp: active_ok_def ctx_done_def)
    ultimately show ?thesis by (auto simp: active_ok_def returned_def)
  qed
  moreover have "running_ok (returned g m) h" if "h \<in> set (mg_running m)" for h
    using assms that by (auto simp: mgr_ok_def returned_def running_ok_def)
  moreover have "distinct (map go_ctx (remove1 g (mg_running m)))"
    using assms by (auto simp: mgr_ok_def distinct_map intro: inj_on_subset)
  ultimately show ?thesis
    using assms(1) set_remove1_subset [of g "mg_running m"] by (auto simp: mgr_ok_def returned_def)
qed

text \<open>
  The check of the id: a goroutine only ever removes its own entry, even if a newer consumer of the
  same user is in the map.
\<close>

lemma deactivate_own:
  assumes ok: "mgr_ok m" and "mg_contexts m < 2 ^ 64" "g \<in> set (mg_running m)"
  shows "deactivate (go_user g) (go_id g) m = m\<lparr>mg_active := filter (\<lambda>uc. uc \<noteq> consumer_of g) (mg_active m)\<rparr>"
proof (cases "map_of (mg_active m) (go_user g)")
  case None
  then have "consumer_of g \<notin> set (mg_active m)"
    by (metis consumer_of_sel(1) map_of_eq_None_iff image_eqI)
  then have "filter (\<lambda>uc. uc \<noteq> consumer_of g) (mg_active m) = mg_active m" by (auto simp: filter_id_conv)
  then show ?thesis using None by (simp add: deactivate_def)
next
  case (Some c)
  have dist: "distinct (map fst (mg_active m))" using ok by (simp add: mgr_ok_def)
  have c: "(go_user g, c) \<in> set (mg_active m)" using Some by (rule map_of_SomeD)
  have idc: "id_ok (mg_contexts m) (cs_ctx c) (cs_id c)" using ok c by (auto simp: mgr_ok_def active_ok_def)
  have idg: "id_ok (mg_contexts m) (go_ctx g) (go_id g)" using ok assms(3) by (auto simp: mgr_ok_def running_ok_def)
  have other: "uc = (go_user g, c)" if "uc \<in> set (mg_active m)" "fst uc = go_user g" for uc
    using distinct_map_eqD [OF dist that(1) c] that(2) by simp
  show ?thesis
  proof (cases "cs_id c = go_id g")
    case True
    then have "c = snd (consumer_of g)"
      using id_ok_inject [OF idc _ assms(2), of "go_ctx g"] idg by (simp add: consumer_of_def)
    then have "filter (\<lambda>(u, c). u \<noteq> go_user g) (mg_active m) = filter (\<lambda>uc. uc \<noteq> consumer_of g) (mg_active m)"
      using other by (intro filter_cong) (auto simp: consumer_of_def)
    then show ?thesis using Some True by (simp add: deactivate_def)
  next
    case False
    then have "consumer_of g \<notin> set (mg_active m)" using other [of "consumer_of g"] by (auto simp: consumer_of_def)
    then have "filter (\<lambda>uc. uc \<noteq> consumer_of g) (mg_active m) = mg_active m" by (auto simp: filter_id_conv)
    then show ?thesis using Some False by (simp add: deactivate_def)
  qed
qed

lemma mgr_ok_deactivate_returned:
  assumes ok: "mgr_ok m" and "mg_contexts m < 2 ^ 64" "g \<in> set (mg_running m)"
  shows "mgr_ok (returned g (deactivate (go_user g) (go_id g) m))" (is "mgr_ok ?m'")
proof -
  have dist: "distinct (map go_ctx (mg_running m))" using ok by (simp add: mgr_ok_def)
  then have run: "set (mg_running ?m') = set (mg_running m) - {g}"
    by (simp add: deactivate_own [OF assms] returned_def distinct_map set_remove1_eq)
  have act: "mg_active ?m' = filter (\<lambda>uc. uc \<noteq> consumer_of g) (mg_active m)"
    "mg_contexts ?m' = mg_contexts m" "mg_cancelled ?m' = mg_cancelled m" "mg_root ?m' = mg_root m"
    "mg_nextID ?m' = mg_nextID m" "mg_running ?m' = remove1 g (mg_running m)"
    by (simp_all add: deactivate_own [OF assms] returned_def)
  have "active_ok ?m' uc" if "uc \<in> set (mg_active m)" "uc \<noteq> consumer_of g" for uc
  proof -
    have "goroutine_of uc \<noteq> g" using that(2) by (metis goroutine_consumer(2))
    then show ?thesis using ok that(1) by (auto simp: mgr_ok_def active_ok_def act run)
  qed
  moreover have "running_ok ?m' h" if "h \<in> set (mg_running m)" "h \<noteq> g" for h
  proof -
    have "consumer_of h \<noteq> consumer_of g" using that(2) by (metis goroutine_consumer(1))
    then show ?thesis using ok that(1) by (auto simp: mgr_ok_def running_ok_def act run)
  qed
  moreover have "distinct (map go_ctx (remove1 g (mg_running m)))"
    using dist by (auto simp: distinct_map intro: inj_on_subset)
  ultimately show ?thesis
    using ok run by (auto simp: mgr_ok_def act distinct_map_filter)
qed

lemma mgr_ok_flags: "mgr_ok m \<Longrightarrow> mgr_ok (m\<lparr>mg_root := True\<rparr>)" "mgr_ok m \<Longrightarrow> mgr_ok (m\<lparr>mg_kick := b\<rparr>)"
  by (auto simp: mgr_ok_def active_ok_def running_ok_def)

lemma contexts_start_missing: "mg_contexts m \<le> mg_contexts (start_missing u m)"
  by (simp add: start_missing_def Let_def)

lemma contexts_fold: "mg_contexts m \<le> mg_contexts (fold start_missing us m)"
  by (induction us arbitrary: m) (auto intro: order_trans [OF contexts_start_missing])

lemma mgr_step_contexts: "mgr_step m m' \<Longrightarrow> mg_contexts m \<le> mg_contexts m'"
proof (elim mgr_stepE)
  fix wanted order
  show "m' = reconcile_wanted wanted order m \<Longrightarrow> mg_contexts m \<le> mg_contexts m'"
    using stop_unwanted_sel(4) [of wanted m] contexts_fold [of "stop_unwanted wanted m"]
    by (simp add: reconcile_wanted_def)
qed (auto simp: stopAll_def returned_def deactivate_def Kick_def split: option.splits)

lemma mgr_step_ok: "mgr_step m m' \<Longrightarrow> mgr_ok m \<Longrightarrow> mg_contexts m < 2 ^ 64 \<Longrightarrow> mgr_ok m'"
  by (auto simp: mgr_ok_reconcile stopAll_stop_unwanted mgr_ok_stop_unwanted mgr_ok_returned
      mgr_ok_deactivate_returned mgr_ok_flags Kick_def)

lemma mgr_reach_ok: "mgr_reach m \<Longrightarrow> mg_contexts m < 2 ^ 64 \<Longrightarrow> mgr_ok m"
proof (induction rule: mgr_reach.induct)
  case init
  then show ?case by (simp add: mgr_ok_New)
next
  case (step m m')
  then show ?case using mgr_step_contexts mgr_step_ok by (meson le_less_trans)
qed

section \<open>What the manager guarantees\<close>

lemma live_unique:
  assumes ok: "mgr_ok m" and "g \<in> set (mg_running m)" "go_ctx g \<notin> set (mg_cancelled m)"
    "h \<in> set (mg_running m)" "go_ctx h \<notin> set (mg_cancelled m)" "go_user g = go_user h"
  shows "g = h"
proof -
  have "consumer_of g \<in> set (mg_active m)" "consumer_of h \<in> set (mg_active m)"
    using assms(1-5) by (auto simp: mgr_ok_def running_ok_def)
  then have "consumer_of g = consumer_of h"
    using ok assms(6) by (intro distinct_map_eqD [of fst "mg_active m"]) (auto simp: mgr_ok_def)
  then show ?thesis by (metis goroutine_consumer(1))
qed

text \<open>
  One consumer per user: whatever the order in which reconciliations, failing goroutines,
  cancelled goroutines and the shutdown interleave, two running goroutines of the same user whose
  contexts were not cancelled are the same goroutine, as long as fewer than 2^64 consumers have
  been started.
\<close>

lemma at_most_one_consumer:
  assumes "mgr_reach m" "mg_contexts m < 2 ^ 64"
    "g \<in> set (mg_running m)" "go_ctx g \<notin> set (mg_cancelled m)"
    "h \<in> set (mg_running m)" "go_ctx h \<notin> set (mg_cancelled m)" "go_user g = go_user h"
  shows "g = h"
  by (rule live_unique [OF mgr_reach_ok [OF assms(1,2)] assms(3-7)])

lemma start_missing_users: "fst ` set (mg_active (start_missing u m)) = insert u (fst ` set (mg_active m))"
proof (cases "map_of (mg_active m) u")
  case None
  then show ?thesis by (simp add: start_missing_def Let_def)
next
  case (Some c)
  then have "u \<in> fst ` set (mg_active m)" by (metis map_of_eq_None_iff option.distinct(1))
  then show ?thesis using Some by (simp add: start_missing_def insert_absorb)
qed

lemma start_missing_keeps [simp]: "mg_cancelled (start_missing u m) = mg_cancelled m"
    "mg_root (start_missing u m) = mg_root m"
  by (auto simp: start_missing_def Let_def)

lemma fold_start_missing:
  "fst ` set (mg_active (fold start_missing us m)) = set us \<union> fst ` set (mg_active m)"
  "mg_cancelled (fold start_missing us m) = mg_cancelled m" "mg_root (fold start_missing us m) = mg_root m"
  by (induction us arbitrary: m) (auto simp: start_missing_users)

lemma reconcile_users:
  assumes "set order = set wanted"
  shows "fst ` set (mg_active (reconcile_wanted wanted order m)) = set wanted"
  using assms by (auto simp: reconcile_wanted_def fold_start_missing)

lemma live_users:
  assumes "mgr_ok m" "\<not> mg_root m"
  shows "go_user ` {g \<in> set (mg_running m). go_ctx g \<notin> set (mg_cancelled m)} = fst ` set (mg_active m)"
proof (intro equalityI subsetI; elim imageE)
  fix u g assume "u = go_user g" "g \<in> {g \<in> set (mg_running m). go_ctx g \<notin> set (mg_cancelled m)}"
  then show "u \<in> fst ` set (mg_active m)"
    using assms(1) by (force simp: mgr_ok_def running_ok_def consumer_of_def)
next
  fix u uc assume "u = fst uc" "uc \<in> set (mg_active m)"
  then show "u \<in> go_user ` {g \<in> set (mg_running m). go_ctx g \<notin> set (mg_cancelled m)}"
    using assms by (intro image_eqI [of _ _ "goroutine_of uc"]) (auto simp: mgr_ok_def active_ok_def)
qed

lemma reconcile_converges_live:
  assumes "mgr_reach m" "mg_contexts m < 2 ^ 64" "\<not> mg_root m"
    "ListEventTriggers db = (Inr entries, db1)" "range_ok P" "manager_reconcile P db m w = (db2, m', w')"
  shows "go_user ` {g \<in> set (mg_running m'). go_ctx g \<notin> set (mg_cancelled m')} = ti_UserID ` set entries"
    "mgr_ok m'"
proof -
  obtain order w1 where o: "pf_RangeKeys P (remdups (map ti_UserID entries)) w = (order, w1)" by fastforce
  have "set order = ti_UserID ` set entries"
    using range_ok_keys [OF assms(5) o] by (metis set_mset_mset set_remdups list.set_map)
  moreover have m': "m' = reconcile_wanted (remdups (map ti_UserID entries)) order m"
    using assms(4,6) o by (simp add: manager_reconcile_def)
  moreover show ok: "mgr_ok m'" unfolding m' by (rule mgr_ok_reconcile [OF mgr_reach_ok [OF assms(1,2)]])
  moreover have "\<not> mg_root m'" using assms(3) m' by (simp add: reconcile_wanted_def fold_start_missing)
  ultimately show "go_user ` {g \<in> set (mg_running m'). go_ctx g \<notin> set (mg_cancelled m')} = ti_UserID ` set entries"
    by (simp add: live_users reconcile_users)
qed

text \<open>
  C22. Reconciliation converges in one pass: after it, the users with a live consumer (a running
  goroutine whose context was not cancelled) are exactly the users with an event trigger in the
  index; and after \<^verbatim>\<open>stopAll\<close> every running goroutine's context is cancelled and none is registered.
\<close>

theorem reconcile_converges:
  assumes "mgr_reach m" "mg_contexts m < 2 ^ 64" "\<not> mg_root m"
    "ListEventTriggers db = (Inr entries, db1)" "range_ok P" "manager_reconcile P db m w = (db2, m', w')"
  shows "go_user ` {g \<in> set (mg_running m'). go_ctx g \<notin> set (mg_cancelled m')} = ti_UserID ` set entries
    \<and> mg_active (stopAll m') = []
    \<and> (\<forall>g \<in> set (mg_running (stopAll m')). ctx_done (stopAll m') (go_ctx g))"
proof -
  note live = reconcile_converges_live [OF assms]
  have "ctx_done (stopAll m') (go_ctx g)" if "g \<in> set (mg_running (stopAll m'))" for g
    using mgr_ok_stopAll [OF live(2)] that by (auto simp: mgr_ok_def running_ok_def ctx_done_def stopAll_def)
  then show ?thesis using live(1) by (simp add: stopAll_def)
qed

text \<open>Two users, one of whom has gone, with the old consumer of the other still winding down.\<close>

definition demo_manager :: Manager where
  "demo_manager =
     reconcile_wanted [''u2'', ''u1''] [''u1'', ''u2''] (stopAll (reconcile_wanted [''u1''] [''u1''] manager_New))"

lemma demo_manager_reach: "mgr_reach demo_manager"
proof -
  have s: "mgr_step m (reconcile_wanted [''u1''] [''u1''] m)" "mgr_step m (reconcile_wanted [''u2'', ''u1''] [''u1'', ''u2''] m)" for m
    by (auto intro: reconciled)
  show ?thesis unfolding demo_manager_def
    by (rule mgr_reach.step [OF mgr_reach.step [OF mgr_reach.step [OF mgr_reach.init s(1)] mgr_step.stopped] s(2)])
qed

lemma demo_manager_eval:
  "mg_contexts demo_manager = 3" "mg_cancelled demo_manager = [0]" "\<not> mg_root demo_manager"
  "mg_running demo_manager =
     [\<lparr>go_user = ''u2'', go_ctx = 2, go_id = 3\<rparr>, \<lparr>go_user = ''u1'', go_ctx = 1, go_id = 2\<rparr>,
      \<lparr>go_user = ''u1'', go_ctx = 0, go_id = 1\<rparr>]"
  by (simp_all add: demo_manager_def reconcile_wanted_def start_missing_def stopAll_def stop_unwanted_def
      manager_New_def Let_def)

theorem reconcile_converges_witness:
  "go_user ` {g \<in> set (mg_running (fst (snd (manager_reconcile demo_platform (demo_db\<lparr>db_triggers := demo_triggers\<rparr>) demo_manager 7)))).
      go_ctx g \<notin> set (mg_cancelled (fst (snd (manager_reconcile demo_platform (demo_db\<lparr>db_triggers := demo_triggers\<rparr>) demo_manager 7))))}
    = {''u1'', ''u2''}"
proof -
  obtain db2 m' w' where r: "manager_reconcile demo_platform (demo_db\<lparr>db_triggers := demo_triggers\<rparr>) demo_manager (7::int)
      = (db2, m', w')" by (metis prod_cases3)
  have "ti_UserID ` set demo_triggers = {''u1'', ''u2''}"
    by (auto simp: demo_triggers_def demo_event_trigger_def)
  then show ?thesis
    using reconcile_converges [OF demo_manager_reach _ demo_manager_eval(3) demo_list_triggers demo_range_ok r]
    by (simp add: demo_manager_eval r)
qed

section \<open>One consumer\<close>

text \<open>
  \<^verbatim>\<open>consumeForUser\<close>: read the credential, then connect again and again. One turn of its loop takes the
  current backoff; the turn says whether the goroutine returns, with how long it waited, what
  the stream started, and the next backoff. The context is asked through \<open>pf_CtxDone\<close>; the wait is
  interrupted if the context is done after it.
\<close>

datatype spawned =
    SpawnReconcile string string
  | SpawnRun string string string

fun spawn_runs :: "string \<Rightarrow> run_call list \<Rightarrow> spawned list" where
  "spawn_runs authHeader [] = []"
| "spawn_runs authHeader ((i, p) # rs) = SpawnRun authHeader i p # spawn_runs authHeader rs"

definition next_backoff :: "duration \<Rightarrow> duration" where
  "next_backoff backoff = (if backoff < 30 * second then backoff * 2 else backoff)"

text \<open>
  \<open>reconciler\<close> tells whether the manager was given one. A turn results in the wait it made and the next
  backoff, or in None when the goroutine returns.
\<close>

definition consume_turn :: "'w engine \<Rightarrow> codec \<Rightarrow> 'w sse_endpoint \<Rightarrow> (duration \<Rightarrow> 'w \<Rightarrow> 'w) \<Rightarrow> bool
    \<Rightarrow> string \<Rightarrow> string \<Rightarrow> duration \<Rightarrow> DB \<Rightarrow> 'w \<Rightarrow> duration option \<times> spawned list \<times> DB \<times> 'w" where
  "consume_turn en c endpoint wait reconciler userID authHeader backoff db w =
     (if pf_CtxDone (en_platform en) w then (None, [], db, w)
      else case streamOnce en c endpoint userID authHeader db w of (err, connected, runs, db1, w1) \<Rightarrow>
        let sp = (if connected \<and> reconciler then [SpawnReconcile userID authHeader] else [])
                   @ spawn_runs authHeader runs
        in if pf_CtxDone (en_platform en) w1 then (None, sp, db1, w1)
           else let w2 = wait backoff w1 in
             if pf_CtxDone (en_platform en) w2 then (None, sp, db1, w2)
             else (Some (next_backoff backoff), sp, db1, w2))"

text \<open>
  The whole goroutine, for at most \<open>fuel\<close> turns; \<open>None\<close> is a goroutine that is still running then. It
  reports whether it called \<open>deactivate\<close>, and the backoffs of its turns.
\<close>

fun consume_loop :: "'w engine \<Rightarrow> codec \<Rightarrow> 'w sse_endpoint \<Rightarrow> (duration \<Rightarrow> 'w \<Rightarrow> 'w) \<Rightarrow> bool
    \<Rightarrow> string \<Rightarrow> string \<Rightarrow> nat \<Rightarrow> duration \<Rightarrow> DB \<Rightarrow> 'w
    \<Rightarrow> bool \<times> duration list \<times> spawned list \<times> DB \<times> 'w" where
  "consume_loop en c endpoint wait rc u a 0 backoff db w = (False, [], [], db, w)"
| "consume_loop en c endpoint wait rc u a (Suc fuel) backoff db w =
     (case consume_turn en c endpoint wait rc u a backoff db w of
        (None, sp, db1, w1) \<Rightarrow> (True, [backoff], sp, db1, w1)
      | (Some backoff', sp, db1, w1) \<Rightarrow>
          (case consume_loop en c endpoint wait rc u a fuel backoff' db1 w1 of
             (ended, bs, sp', db2, w2) \<Rightarrow> (ended, backoff # bs, sp @ sp', db2, w2)))"

definition consumeForUser :: "'w engine \<Rightarrow> codec \<Rightarrow> 'w sse_endpoint \<Rightarrow> (duration \<Rightarrow> 'w \<Rightarrow> 'w) \<Rightarrow> bool
    \<Rightarrow> string \<Rightarrow> 64 word \<Rightarrow> nat \<Rightarrow> Manager \<Rightarrow> DB \<Rightarrow> 'w
    \<Rightarrow> bool \<times> Manager \<times> duration list \<times> spawned list \<times> DB \<times> 'w" where
  "consumeForUser en c endpoint wait rc userID i fuel m db w =
     (case GetAutomation (en_gcm en) userID db of
        (Inl err, db1) \<Rightarrow> (True, deactivate userID i m, [], [], db1, w)
      | (Inr automation, db1) \<Rightarrow>
          (case consume_loop en c endpoint wait rc userID (BasicAuth automation) fuel second db1 w of
             (ended, bs, sp, db2, w1) \<Rightarrow> (ended, m, bs, sp, db2, w1)))"

lemma backoff_power:
  "(next_backoff ^^ n) second = (if n \<le> 5 then 2 ^ n * second else 32 * second)"
proof (induction n)
  case (Suc n)
  have IH: "(next_backoff ^^ Suc n) second = next_backoff (if n \<le> 5 then 2 ^ n * second else 32 * second)"
    using Suc.IH by simp
  consider "n \<le> 4" | "n = 5" | "5 < n" by linarith
  then show ?case
  proof cases
    case 1
    then have "n \<in> {0, 1, 2, 3, 4}" by auto
    then show ?thesis unfolding IH by (auto simp: next_backoff_def)
  qed (unfold IH, simp_all add: next_backoff_def)
qed simp

lemma consume_loop_backoffs:
  assumes "consume_loop en c endpoint wait rc u a fuel b db w = (ended, bs, sp, db', w')" "k < length bs"
  shows "bs ! k = (next_backoff ^^ k) b"
  using assms
proof (induction fuel arbitrary: b db w ended bs sp db' w' k)
  case (Suc fuel)
  obtain r s1 d1 w1 where t: "consume_turn en c endpoint wait rc u a b db w = (r, s1, d1, w1)" by (metis prod_cases4)
  show ?case
  proof (cases r)
    case None
    then show ?thesis using Suc.prems t by (cases k) auto
  next
    case (Some b')
    then have b': "b' = next_backoff b" using t by (auto simp: consume_turn_def Let_def split: prod.splits if_splits)
    obtain e2 bs2 s2 d2 w2 where l: "consume_loop en c endpoint wait rc u a fuel b' d1 w1 = (e2, bs2, s2, d2, w2)"
      by (metis prod_cases5)
    then have "bs = b # bs2" using Suc.prems t Some by simp
    then show ?thesis using Suc.IH [OF l] Suc.prems(2) b' by (cases k) (auto simp: funpow_swap1)
  qed
qed simp

text \<open>
  Reconnecting backs off: the waits of a consumer are 1, 2, 4, 8, 16 and 32 seconds and 32
  seconds from then on. The manager's table is touched only when the user has no usable credential,
  and then only by \<open>deactivate\<close>.
\<close>

lemma reconnect_backoff:
  assumes "consumeForUser en c endpoint wait rc u i fuel m db w = (ended, m', bs, sp, db', w')" "k < length bs"
  shows "bs ! k = (if k \<le> 5 then 2 ^ k * second else 32 * second) \<and> m' = m"
  using assms consume_loop_backoffs [where k = k and bs = bs and b = second]
  unfolding consumeForUser_def backoff_power [symmetric]
  by (fastforce split: prod.splits sum.splits)

text \<open>A database with the credential of one user.\<close>

definition demo_cred_db :: DB where
  "demo_cred_db = snd (UpsertAutomation demo_gcm (Inr (replicate 12 CHR ''n'')) demo_automation
     (demo_db\<lparr>db_triggers := demo_triggers\<rparr>))"

lemma demo_credential:
  "GetAutomation demo_gcm ''u1'' demo_cred_db =
     (Inr (demo_automation\<lparr>am_ExpiresAt := 1724166769 * second\<rparr>), demo_cred_db)"
proof -
  define enc where "enc = EncodeToString (replicate 12 CHR ''n'' @ ''secret'')"
  have seal: "Seal demo_gcm (db_box demo_db) (Inr (replicate 12 CHR ''n'')) (am_AppPassword demo_automation) = Inr enc"
    by (simp add: Seal_def demo_gcm_def demo_automation_def enc_def)
  have "rfc_range (am_ExpiresAt demo_automation)" "rfc_range (am_ConnectedAt demo_automation)"
    by (simp_all add: rfc_range_def demo_automation_def)
  note scan = scan_sealed [OF demo_gcm_ok _ seal this]
  have empty: "db_automations demo_db = []" by (simp add: demo_db_def)
  have nf: "no_faults demo_cred_db" by (simp add: demo_cred_db_def UpsertAutomation_def seal db_simps)
  have rows: "db_automations demo_cred_db = [\<lparr>ar_user_id = am_UserID demo_automation,
      ar_username = am_Username demo_automation, ar_encrypted = enc,
      ar_expires_at = format_rfc3339 (am_ExpiresAt demo_automation),
      ar_connected_at = format_rfc3339 (am_ConnectedAt demo_automation)\<rparr>]" "db_box demo_cred_db = db_box demo_db"
    using seal empty by (simp_all add: demo_cred_db_def UpsertAutomation_def db_simps automations_upsert_def)
  have "am_UserID demo_automation = ''u1''" "whole_second (am_ConnectedAt demo_automation) = am_ConnectedAt demo_automation"
    "whole_second (am_ExpiresAt demo_automation) = 1724166769 * second"
    by (simp_all add: demo_automation_def whole_second_def)
  then show ?thesis
    using scan by (simp add: GetAutomation_def no_faults_query [OF nf] rows automations_row_def NonceSize_def)
qed

end
