(* ===== verification/WorkflowsHandler.thy ===== *)
theory WorkflowsHandler
  imports Auth WebdavStore SSEManager
begin

text \<open>
  backend/pkg/service/workflows.go: the REST handlers for workflows and their executions. The state
  they share with the background engines is \<open>shared\<close>, the local database (its trigger index) and the
  SSE manager (its kick channel); everything else they touch is the world. A handler's path
  parameters are those the router found.
\<close>

type_synonym shared = "DB \<times> Manager"

record 'w WorkflowsHandler =
  wh_store :: "'w Store"
  wh_Run :: "string \<Rightarrow> WorkflowDefinition \<Rightarrow> string \<Rightarrow> string \<Rightarrow> 'w \<Rightarrow> ExecutionRecord \<times> 'w"
  wh_Me :: "string \<Rightarrow> 'w \<Rightarrow> string result \<times> 'w"
  wh_kick :: bool
  wh_platform :: "'w platform"
  wh_codec :: codec

definition Bearer :: "string \<Rightarrow> string" where
  "Bearer token = ''Bearer '' @ token"

section \<open>The trigger index\<close>

definition trigger_entry :: "string \<Rightarrow> WorkflowDefinition \<Rightarrow> TriggerIndexEntry" where
  "trigger_entry userID flow =
     (let t = wd_Trigger flow;
          e = \<lparr>ti_WorkflowID = wd_ID flow, ti_UserID = userID, ti_TriggerType = wt_Type t, ti_Schedule = [],
               ti_EventType = [], ti_PathPrefix = [], ti_Extension = [], ti_SpaceID = []\<rparr>;
          e1 = (if wt_Type t = ''schedule'' then e\<lparr>ti_Schedule := wt_Schedule t\<rparr> else e)
      in case wt_Event t of
           None \<Rightarrow> e1
         | Some ev \<Rightarrow>
             if wt_Type t \<noteq> ''event'' then e1
             else (let e2 = e1\<lparr>ti_EventType := et_Type ev\<rparr> in
               case et_Filters ev of
                 None \<Rightarrow> e2
               | Some f \<Rightarrow> e2\<lparr>ti_PathPrefix := ef_PathPrefix f, ti_Extension := ef_Extension f, ti_SpaceID := ef_SpaceID f\<rparr>))"

definition indexed :: "WorkflowDefinition \<Rightarrow> bool" where
  "indexed flow = (wd_Enabled flow \<and> (wt_Type (wd_Trigger flow) = ''schedule'' \<or> wt_Type (wd_Trigger flow) = ''event''))"

definition syncTriggerIndex :: "'w WorkflowsHandler \<Rightarrow> string \<Rightarrow> WorkflowDefinition \<Rightarrow> shared \<Rightarrow> 'w \<Rightarrow> shared \<times> 'w" where
  "syncTriggerIndex h authHeader flow st w =
     (case st of (db, m) \<Rightarrow>
       if \<not> indexed flow then ((snd (DeleteTriggerIndexEntry (wd_ID flow) db), m), w)
       else case wh_Me h authHeader w of
          (Inl err, w1) \<Rightarrow> ((db, m), w1)
        | (Inr userID, w1) \<Rightarrow>
            (case UpsertTriggerIndexEntry (trigger_entry userID flow) db of
               (Inl err, db1) \<Rightarrow> ((db1, m), w1)
             | (Inr _, db1) \<Rightarrow>
                 ((db1, if wt_Type (wd_Trigger flow) = ''event'' \<and> wh_kick h then Kick m else m), w1)))"

section \<open>Handlers\<close>

definition unauthenticated :: "codec \<Rightarrow> ApiResponse" where
  "unauthenticated c = writeError c 401 ''unauthenticated'' ''missing bearer token''"

text \<open>What every handler does first: without a token in the context the answer is 401.\<close>

definition with_token :: "codec \<Rightarrow> (string \<Rightarrow> ApiRequest \<Rightarrow> 's \<Rightarrow> 'w \<Rightarrow> ApiResponse \<times> 's \<times> 'w) \<Rightarrow> ('s, 'w) handler" where
  "with_token c f ctx r st w =
     (case TokenFromContext ctx of None \<Rightarrow> (unauthenticated c, st, w) | Some token \<Rightarrow> f token r st w)"

text \<open>\<^verbatim>\<open>if err != nil\<close> after a read of the store: 404 for the sentinel, 502 otherwise.\<close>

definition store_error :: "codec \<Rightarrow> go_error \<Rightarrow> string \<Rightarrow> string \<Rightarrow> string \<Rightarrow> ApiResponse" where
  "store_error c err code missing unavailable =
     (if errors_is err StoreNotFound then writeError c 404 code missing
      else writeError c 502 ''storeUnavailable'' unavailable)"

abbreviation workflow_missing :: "codec \<Rightarrow> go_error \<Rightarrow> string \<Rightarrow> ApiResponse" where
  "workflow_missing c err unavailable \<equiv>
     store_error c err ''workflowNotFound'' ''the requested workflow was not found'' unavailable"

definition Handler_List :: "'w WorkflowsHandler \<Rightarrow> (shared, 'w) handler" where
  "Handler_List h = with_token (wh_codec h) (\<lambda>token r st w.
     (case Store_List (wh_store h) (Bearer token) w of
        (Inl err, w1) \<Rightarrow> (writeError (wh_codec h) 502 ''storeUnavailable'' ''could not list workflows'', st, w1)
      | (Inr flows, w1) \<Rightarrow> (writeJSON (wh_codec h) 200 (enc_Collection enc_workflow flows), st, w1)))"

definition new_workflow :: "string \<Rightarrow> string \<Rightarrow> string \<Rightarrow> WorkflowPatch \<Rightarrow> WorkflowDefinition" where
  "new_workflow i name now p =
     \<lparr>wd_ID = i, wd_Name = name,
      wd_Description = (case wp_Description p of Some d \<Rightarrow> d | None \<Rightarrow> []),
      wd_Enabled = (wp_Enabled p = Some True),
      wd_Trigger = (case wp_Trigger p of Some t \<Rightarrow> t | None \<Rightarrow> zero_trigger\<lparr>wt_Type := ''manual''\<rparr>),
      wd_Graph = (case wp_Graph p of Some g \<Rightarrow> g | None \<Rightarrow> zero_graph),
      wd_CreatedDateTime = now, wd_LastModifiedDateTime = now\<rparr>"

definition Handler_Create :: "'w WorkflowsHandler \<Rightarrow> (shared, 'w) handler" where
  "Handler_Create h = with_token (wh_codec h) (\<lambda>token r st w.
     (case check_err (DecodeRequest (wh_codec h) r) (dec_patch zero_patch) of
        Inl err \<Rightarrow> (writeError (wh_codec h) 400 ''invalidRequest'' ''request body is not valid JSON'', st, w)
      | Inr patch \<Rightarrow>
          (case wp_Name patch of
             None \<Rightarrow> (writeError (wh_codec h) 400 ''invalidRequest'' ''name is required'', st, w)
           | Some name \<Rightarrow>
               if name = [] then (writeError (wh_codec h) 400 ''invalidRequest'' ''name is required'', st, w)
               else (case pf_Now (wh_platform h) w of (now, w1) \<Rightarrow>
                    case pf_NewUUID (wh_platform h) w1 of (i, w2) \<Rightarrow>
                    let flow = new_workflow i name (format_rfc3339_nano now) patch in
                    (case Store_Put (wh_store h) (Bearer token) flow w2 of
                       (Inl err, w3) \<Rightarrow> (writeError (wh_codec h) 502 ''storeUnavailable'' ''could not create workflow'', st, w3)
                     | (Inr _, w3) \<Rightarrow>
                         (case syncTriggerIndex h (Bearer token) flow st w3 of (st1, w4) \<Rightarrow>
                            (writeJSON (wh_codec h) 201 (enc_workflow flow), st1, w4)))))))"

definition Handler_Get :: "'w WorkflowsHandler \<Rightarrow> (shared, 'w) handler" where
  "Handler_Get h = with_token (wh_codec h) (\<lambda>token r st w.
     (case Store_Get (wh_store h) (Bearer token) (vget (rr_Params r) ''id'') w of
        (Inl err, w1) \<Rightarrow> (workflow_missing (wh_codec h) err ''could not read workflow'', st, w1)
      | (Inr flow, w1) \<Rightarrow> (writeJSON (wh_codec h) 200 (enc_workflow flow), st, w1)))"

text \<open>The fields a patch gives are replaced, one by one.\<close>

definition apply_patch :: "WorkflowPatch \<Rightarrow> WorkflowDefinition \<Rightarrow> WorkflowDefinition" where
  "apply_patch p flow =
     (let f1 = (case wp_Name p of Some n \<Rightarrow> flow\<lparr>wd_Name := n\<rparr> | None \<Rightarrow> flow);
          f2 = (case wp_Description p of Some d \<Rightarrow> f1\<lparr>wd_Description := d\<rparr> | None \<Rightarrow> f1);
          f3 = (case wp_Enabled p of Some e \<Rightarrow> f2\<lparr>wd_Enabled := e\<rparr> | None \<Rightarrow> f2);
          f4 = (case wp_Trigger p of Some t \<Rightarrow> f3\<lparr>wd_Trigger := t\<rparr> | None \<Rightarrow> f3)
      in (case wp_Graph p of Some g \<Rightarrow> f4\<lparr>wd_Graph := g\<rparr> | None \<Rightarrow> f4))"

definition Handler_Patch :: "'w WorkflowsHandler \<Rightarrow> (shared, 'w) handler" where
  "Handler_Patch h = with_token (wh_codec h) (\<lambda>token r st w.
     (case Store_Get (wh_store h) (Bearer token) (vget (rr_Params r) ''id'') w of
        (Inl err, w1) \<Rightarrow> (workflow_missing (wh_codec h) err ''could not read workflow'', st, w1)
      | (Inr existing, w1) \<Rightarrow>
          (case check_err (DecodeRequest (wh_codec h) r) (dec_patch zero_patch) of
             Inl err \<Rightarrow> (writeError (wh_codec h) 400 ''invalidRequest'' ''request body is not valid JSON'', st, w1)
           | Inr patch \<Rightarrow>
               (case pf_Now (wh_platform h) w1 of (now, w2) \<Rightarrow>
               let flow = (apply_patch patch existing)\<lparr>wd_LastModifiedDateTime := format_rfc3339_nano now\<rparr> in
               (case Store_Put (wh_store h) (Bearer token) flow w2 of
                  (Inl err, w3) \<Rightarrow> (writeError (wh_codec h) 502 ''storeUnavailable'' ''could not update workflow'', st, w3)
                | (Inr _, w3) \<Rightarrow>
                    (case syncTriggerIndex h (Bearer token) flow st w3 of (st1, w4) \<Rightarrow>
                       (writeJSON (wh_codec h) 200 (enc_workflow flow), st1, w4)))))))"

definition Handler_Delete :: "'w WorkflowsHandler \<Rightarrow> (shared, 'w) handler" where
  "Handler_Delete h = with_token (wh_codec h) (\<lambda>token r st w.
     (case Store_Delete (wh_store h) (Bearer token) (vget (rr_Params r) ''id'') w of
        (Inl err, w1) \<Rightarrow> (workflow_missing (wh_codec h) err ''could not delete workflow'', st, w1)
      | (Inr _, w1) \<Rightarrow>
          (case st of (db, m) \<Rightarrow>
             (writeHeader 204 [], (snd (DeleteTriggerIndexEntry (vget (rr_Params r) ''id'') db), m), w1))))"

text \<open>\<^verbatim>\<open>runRequest\<close>.\<close>

definition dec_runRequest :: "json \<Rightarrow> string result" where
  "dec_runRequest = dec_struct (string_field ''resourcePath'') []"

definition Handler_Run :: "'w WorkflowsHandler \<Rightarrow> (shared, 'w) handler" where
  "Handler_Run h = with_token (wh_codec h) (\<lambda>token r st w.
     (case Store_Get (wh_store h) (Bearer token) (vget (rr_Params r) ''id'') w of
        (Inl err, w1) \<Rightarrow> (workflow_missing (wh_codec h) err ''could not read workflow'', st, w1)
      | (Inr flow, w1) \<Rightarrow>
          (case (if rr_ContentLength r > 0 then check_err (DecodeRequest (wh_codec h) r) dec_runRequest else Inr []) of
             Inl err \<Rightarrow> (writeError (wh_codec h) 400 ''invalidRequest'' ''request body is not valid JSON'', st, w1)
           | Inr resourcePath \<Rightarrow>
               (case wh_Run h (Bearer token) flow ''manual'' resourcePath w1 of (x, w2) \<Rightarrow>
               (case PutExecution (wh_store h) (Bearer token) x w2 of
                  (Inl err, w3) \<Rightarrow> (writeError (wh_codec h) 502 ''storeUnavailable''
                      ''workflow ran but the execution record could not be saved'', st, w3)
                | (Inr _, w3) \<Rightarrow>
                    (writeHeader 202 [(''Location'',
                       ''/me/workflows/'' @ vget (rr_Params r) ''id'' @ ''/executions/'' @ xr_ID x)], st, w3))))))"

definition Handler_ListExecutions :: "'w WorkflowsHandler \<Rightarrow> (shared, 'w) handler" where
  "Handler_ListExecutions h = with_token (wh_codec h) (\<lambda>token r st w.
     (case ListExecutions (wh_store h) (Bearer token) (vget (rr_Params r) ''id'') w of
        (Inl err, w1) \<Rightarrow> (writeError (wh_codec h) 502 ''storeUnavailable'' ''could not list executions'', st, w1)
      | (Inr xs, w1) \<Rightarrow> (writeJSON (wh_codec h) 200 (enc_Collection enc_execution xs), st, w1)))"

definition Handler_GetExecution :: "'w WorkflowsHandler \<Rightarrow> (shared, 'w) handler" where
  "Handler_GetExecution h = with_token (wh_codec h) (\<lambda>token r st w.
     (case GetExecution (wh_store h) (Bearer token) (vget (rr_Params r) ''id'') (vget (rr_Params r) ''execId'') w of
        (Inl err, w1) \<Rightarrow> (store_error (wh_codec h) err ''executionNotFound'' ''the requested execution was not found''
            ''could not read execution'', st, w1)
      | (Inr x, w1) \<Rightarrow> (writeJSON (wh_codec h) 200 (enc_execution x), st, w1)))"

section \<open>What a request does to the trigger index\<close>

definition handlers :: "'w WorkflowsHandler \<Rightarrow> (shared, 'w) handler list" where
  "handlers h = [Handler_List h, Handler_Create h, Handler_Get h, Handler_Patch h, Handler_Delete h, Handler_Run h,
     Handler_ListExecutions h, Handler_GetExecution h]"

lemmas handler_defs = Handler_List_def Handler_Create_def Handler_Get_def Handler_Patch_def Handler_Delete_def
  Handler_Run_def Handler_ListExecutions_def Handler_GetExecution_def

lemma store_error_status [simp]: "rp_Status (store_error c err code msg1 msg2) = (if errors_is err StoreNotFound then 404 else 502)"
  by (simp add: store_error_def)

lemma unauthenticated_status [simp]: "rp_Status (unauthenticated c) = 401"
  by (simp add: unauthenticated_def)

text \<open>
  C26. A request that fails changes nothing the engines see: whenever a workflow handler answers with
  an error status, the trigger index and the SSE manager are exactly as before, whatever failed and
  wherever. Without a token in the context every handler answers 401 and does not touch the world
  either.
\<close>

theorem failed_request_keeps_index:
  assumes "H \<in> set (handlers h)" "H ctx r st w = (res, st', w')"
  shows "(rp_Status res \<ge> 400 \<longrightarrow> st' = st) \<and> (TokenFromContext ctx = None \<longrightarrow> rp_Status res = 401 \<and> st' = st \<and> w' = w)"
  using assms unfolding handlers_def
  by (auto simp: handler_defs with_token_def Let_def split: option.splits sum.splits prod.splits if_splits)

text \<open>
  Synchronising is best effort: without the identity of the caller, or when the statement fails, the index stays as it
  is. \<open>db_stmt\<close> says whether the next statement succeeds.
\<close>

lemma syncTriggerIndex_effect:
  assumes "db_ok db" "syncTriggerIndex h a flow (db, m) w = ((db', m'), w')"
  shows "db' = db\<lparr>db_triggers := db_triggers db', db_faults := db_faults db'\<rparr>
    \<and> (if \<not> indexed flow
       then m' = m \<and> trigger_index_row (db_triggers db') = (if fst (db_stmt db) = None
              then (trigger_index_row (db_triggers db))(wd_ID flow := None) else trigger_index_row (db_triggers db))
       else case fst (wh_Me h a w) of
           Inl err \<Rightarrow> db' = db \<and> m' = m
         | Inr u \<Rightarrow>
             if fst (db_stmt db) = None
             then trigger_index_row (db_triggers db') = (trigger_index_row (db_triggers db))(wd_ID flow \<mapsto> trigger_entry u flow)
               \<and> m' = (if wt_Type (wd_Trigger flow) = ''event'' \<and> wh_kick h then Kick m else m)
             else trigger_index_row (db_triggers db') = trigger_index_row (db_triggers db) \<and> m' = m)"
proof -
  have pk: "pk_ok ti_WorkflowID (db_triggers db)" using assms(1) by (simp add: db_ok_def)
  have i: "ti_WorkflowID (trigger_entry u flow) = wd_ID flow" for u
    by (simp add: trigger_entry_def Let_def split: option.split)
  note rows = trigger_index.row_upsert [OF pk, of "trigger_entry _ flow", unfolded i] trigger_index.row_remove [OF pk, of "wd_ID flow"]
  show ?thesis
    using assms(2) rows
    by (cases rule: db_stmt_cases [of db]; cases "fst (wh_Me h a w)")
      (auto simp: syncTriggerIndex_def DeleteTriggerIndexEntry_def UpsertTriggerIndexEntry_def db_exec_def split: prod.splits if_splits)
qed

lemma saved_by:
  assumes "H = Handler_Create h \<and> rp_Status res = 201 \<or> H = Handler_Patch h \<and> rp_Status res = 200"
    "H ctx r st w = (res, st', w')"
  obtains token flow w1 w2 where "TokenFromContext ctx = Some token" "res = writeJSON (wh_codec h) (rp_Status res) (enc_workflow flow)"
    "Store_Put (wh_store h) (Bearer token) flow w1 = (Inr (), w2)"
    "syncTriggerIndex h (Bearer token) flow st w2 = (st', w')"
  using assms(1)
proof
  assume "H = Handler_Create h \<and> rp_Status res = 201"
  then show thesis
    using assms(2) that
    by (auto simp: Handler_Create_def with_token_def Let_def split: option.splits sum.splits prod.splits if_splits)
next
  assume "H = Handler_Patch h \<and> rp_Status res = 200"
  then show thesis
    using assms(2) that
    by (auto simp: Handler_Patch_def with_token_def Let_def split: option.splits sum.splits prod.splits if_splits)
qed

text \<open>
  C20. What a saved workflow does to the trigger index: creating and changing succeed with the answer of the saved
  workflow whether or not the index can follow. If the identity call for the caller's header and the next statement
  of the database succeed, the index holds for the workflow exactly the entry its trigger describes, owned by the user that call
  names, if it is enabled with a schedule or event trigger, and none otherwise
  (so disabling it, or making it manual, removes it), and the SSE manager is kicked exactly for an active event trigger; the call is made only
  for a workflow that has an entry. If one of the two fails, the index and the manager stay as they were. In no case does another workflow's
  entry or another table change.
\<close>

theorem saved_workflow_indexed:
  assumes "H = Handler_Create h \<and> rp_Status res = 201 \<or> H = Handler_Patch h \<and> rp_Status res = 200"
    "H ctx r (db, m) w = (res, (db', m'), w')" "db_ok db"
  shows "\<exists>token flow w1 w2. TokenFromContext ctx = Some token
    \<and> res = writeJSON (wh_codec h) (rp_Status res) (enc_workflow flow)
    \<and> Store_Put (wh_store h) (Bearer token) flow w1 = (Inr (), w2)
    \<and> db' = db\<lparr>db_triggers := db_triggers db', db_faults := db_faults db'\<rparr>
    \<and> (if \<not> indexed flow
       then m' = m \<and> trigger_index_row (db_triggers db') = (if fst (db_stmt db) = None
              then (trigger_index_row (db_triggers db))(wd_ID flow := None) else trigger_index_row (db_triggers db))
       else case fst (wh_Me h (Bearer token) w2) of
           Inl err \<Rightarrow> db' = db \<and> m' = m
         | Inr u \<Rightarrow>
             if fst (db_stmt db) = None
             then trigger_index_row (db_triggers db') = (trigger_index_row (db_triggers db))(wd_ID flow \<mapsto> trigger_entry u flow)
               \<and> m' = (if wt_Type (wd_Trigger flow) = ''event'' \<and> wh_kick h then Kick m else m)
             else trigger_index_row (db_triggers db') = trigger_index_row (db_triggers db) \<and> m' = m)"
proof (rule saved_by [OF assms(1,2)])
  fix token flow w1 w2
  assume t: "TokenFromContext ctx = Some token" and res: "res = writeJSON (wh_codec h) (rp_Status res) (enc_workflow flow)"
    and put: "Store_Put (wh_store h) (Bearer token) flow w1 = (Inr (), w2)"
    and sync: "syncTriggerIndex h (Bearer token) flow (db, m) w2 = ((db', m'), w')"
  show ?thesis using t res put syncTriggerIndex_effect [OF assms(3) sync] by blast
qed

text \<open>
  The index is keyed by the workflow's id alone. Deleting a file with that id in one's own space
  therefore removes the entry of whoever owns it.
\<close>

lemma delete_removes_any_entry:
  assumes "Handler_Delete h ctx r (db, m) w = (res, (db', m'), w')" "rp_Status res = 204" "no_faults db"
    "e \<in> set (db_triggers db')"
  shows "ti_WorkflowID e \<noteq> vget (rr_Params r) ''id''"
proof -
  have "db' = db\<lparr>db_triggers := trigger_index_delete (vget (rr_Params r) ''id'') (db_triggers db)\<rparr>"
    using assms(1,2) by (auto simp: Handler_Delete_def with_token_def DeleteTriggerIndexEntry_def
        no_faults_exec [OF assms(3)] split: option.splits sum.splits prod.splits if_splits)
  then show ?thesis using assms(4) by (auto simp: trigger_index_delete_def sql_delete_def)
qed

text \<open>Creating asks for a name; a patch can take it away again.\<close>

lemma patch_can_empty_name:
  "apply_patch (zero_patch\<lparr>wp_Name := Some []\<rparr>) flow = flow\<lparr>wd_Name := []\<rparr>"
  by (simp add: apply_patch_def zero_patch_def Let_def)

end
