(* ===== verification/AutomationService.thy ===== *)
theory AutomationService
  imports SSEManager
begin

text \<open>
  backend/pkg/automation: a user enables background execution by letting the backend mint an
  app-password with the user's own token (\<open>Connect\<close>); it is stored encrypted, reported on (\<open>Status\<close>),
  renewed before it expires (\<open>renewDue\<close>), and forgotten (\<open>Disconnect\<close>).
\<close>

section \<open>The service\<close>

record 'w GraphClient =
  gr_Me :: "string \<Rightarrow> 'w \<Rightarrow> string result \<times> 'w"
  gr_Username :: "string \<Rightarrow> 'w \<Rightarrow> string result \<times> 'w"
  gr_MintAppPassword :: "string \<Rightarrow> duration \<Rightarrow> string \<Rightarrow> 'w \<Rightarrow> (string \<times> time) result \<times> 'w"
  gr_RevokeAppPassword :: "string \<Rightarrow> string \<Rightarrow> 'w \<Rightarrow> unit result \<times> 'w"

record 'w Service =
  sv_graph :: "'w GraphClient"
  sv_kick :: bool
  sv_platform :: "'w platform"
  sv_gcm :: gcm

definition defaultExpiry :: duration where "defaultExpiry = 90 * 24 * hour"

definition tokenLabel :: string where "tokenLabel = ''workflows''"

definition renewalWindow :: duration where "renewalWindow = 14 * 24 * hour"

definition disconnected :: AutomationStatus where
  "disconnected = \<lparr>as_Connected = False, as_ExpirationDateTime = [], as_Reliability = []\<rparr>"

definition toStatus :: "'w Service \<Rightarrow> Automation option \<Rightarrow> 'w \<Rightarrow> AutomationStatus \<times> 'w" where
  "toStatus s a w =
     (case a of
        None \<Rightarrow> (disconnected, w)
      | Some a \<Rightarrow>
          (case pf_Now (sv_platform s) w of (now, w1) \<Rightarrow>
             (if before (am_ExpiresAt a) now then disconnected
              else \<lparr>as_Connected = True, as_ExpirationDateTime = format_rfc3339 (am_ExpiresAt a),
                    as_Reliability = []\<rparr>, w1)))"

definition Status :: "'w Service \<Rightarrow> string \<Rightarrow> DB \<Rightarrow> 'w \<Rightarrow> AutomationStatus result \<times> DB \<times> 'w" where
  "Status s userID db w =
     (case GetAutomation (sv_gcm s) userID db of
        (Inl err, db1) \<Rightarrow>
          if err = DbNotFound then (case toStatus s None w of (st, w1) \<Rightarrow> (Inr st, db1, w1))
          else (Inl err, db1, w)
      | (Inr a, db1) \<Rightarrow>
          (case toStatus s (Some a) w of (st, w1) \<Rightarrow>
             if as_Connected st then
               (case GetReliability userID db1 of
                  (Inl err, db2) \<Rightarrow> (Inr st, db2, w1)
                | (Inr reliability, db2) \<Rightarrow> (Inr (st\<lparr>as_Reliability := reliability\<rparr>), db2, w1))
             else (Inr st, db1, w1)))"

definition Connect :: "'w Service \<Rightarrow> string \<Rightarrow> Manager \<Rightarrow> DB \<Rightarrow> 'w
    \<Rightarrow> AutomationStatus result \<times> Manager \<times> DB \<times> 'w" where
  "Connect s authHeader m db w =
     (case gr_Me (sv_graph s) authHeader w of
        (Inl err, w1) \<Rightarrow> (Inl (Wrap ''resolve current user'' err), m, db, w1)
      | (Inr userID, w1) \<Rightarrow>
     (case gr_Username (sv_graph s) authHeader w1 of
        (Inl err, w2) \<Rightarrow> (Inl (Wrap ''resolve current username'' err), m, db, w2)
      | (Inr username, w2) \<Rightarrow>
     (case gr_MintAppPassword (sv_graph s) authHeader defaultExpiry tokenLabel w2 of
        (Inl err, w3) \<Rightarrow> (Inl (Wrap ''mint app password'' err), m, db, w3)
      | (Inr (token, expiresAt), w3) \<Rightarrow>
     (case pf_Now (sv_platform s) w3 of (now, w4) \<Rightarrow>
      case pf_Nonce (sv_platform s) w4 of (nonce, w5) \<Rightarrow>
      let a = \<lparr>am_UserID = userID, am_Username = username, am_AppPassword = token,
               am_ExpiresAt = expiresAt, am_ConnectedAt = now\<rparr> in
      case UpsertAutomation (sv_gcm s) nonce a db of
        (Inl err, db1) \<Rightarrow> (Inl (Wrap ''store automation credential'' err), m, db1, w5)
      | (Inr _, db1) \<Rightarrow>
          let m1 = (if sv_kick s then Kick m else m) in
          case toStatus s (Some a) w5 of (st, w6) \<Rightarrow> (Inr st, m1, db1, w6)))))"

definition Disconnect :: "'w Service \<Rightarrow> string \<Rightarrow> DB \<Rightarrow> 'w \<Rightarrow> unit result \<times> DB \<times> 'w" where
  "Disconnect s authHeader db w =
     (case gr_Me (sv_graph s) authHeader w of
        (Inl err, w1) \<Rightarrow> (Inl (Wrap ''resolve current user'' err), db, w1)
      | (Inr userID, w1) \<Rightarrow>
     (case GetAutomation (sv_gcm s) userID db of
        (Inl err, db1) \<Rightarrow> if err = DbNotFound then (Inr (), db1, w1) else (Inl err, db1, w1)
      | (Inr existing, db1) \<Rightarrow>
     (case gr_RevokeAppPassword (sv_graph s) authHeader (am_AppPassword existing) w1 of (revoked, w2) \<Rightarrow>
      case DeleteAutomation userID db1 of
        (Inl err, db2) \<Rightarrow> (Inl (Wrap ''delete stored automation credential'' err), db2, w2)
      | (Inr _, db2) \<Rightarrow>
     (case DeleteEventCursors userID db2 of
        (Inl err, db3) \<Rightarrow> (Inl (Wrap ''delete stored event cursors'' err), db3, w2)
      | (Inr _, db3) \<Rightarrow> (Inr (), db3, w2)))))"

definition renewOne :: "'w Service \<Rightarrow> Automation \<Rightarrow> DB \<Rightarrow> 'w \<Rightarrow> DB \<times> 'w" where
  "renewOne s a db w =
     (let authHeader = BasicAuth a in
      case gr_MintAppPassword (sv_graph s) authHeader defaultExpiry tokenLabel w of
        (Inl err, w1) \<Rightarrow> (db, w1)
      | (Inr (token, expiresAt), w1) \<Rightarrow>
          (case pf_Nonce (sv_platform s) w1 of (nonce, w2) \<Rightarrow>
           case UpsertAutomation (sv_gcm s) nonce
                  \<lparr>am_UserID = am_UserID a, am_Username = am_Username a, am_AppPassword = token,
                   am_ExpiresAt = expiresAt, am_ConnectedAt = am_ConnectedAt a\<rparr> db of
             (Inl err, db1) \<Rightarrow> (db1, w2)
           | (Inr _, db1) \<Rightarrow>
               (case gr_RevokeAppPassword (sv_graph s) authHeader (am_AppPassword a) w2 of
                  (revoked, w3) \<Rightarrow> (db1, w3))))"

fun renew_loop :: "'w Service \<Rightarrow> time \<Rightarrow> Automation list \<Rightarrow> DB \<Rightarrow> 'w \<Rightarrow> DB \<times> 'w" where
  "renew_loop s now [] db w = (db, w)"
| "renew_loop s now (a # as) db w =
     (if time_sub (am_ExpiresAt a) now > renewalWindow then renew_loop s now as db w
      else case renewOne s a db w of (db1, w1) \<Rightarrow> renew_loop s now as db1 w1)"

definition renewDue :: "'w Service \<Rightarrow> DB \<Rightarrow> 'w \<Rightarrow> DB \<times> 'w" where
  "renewDue s db w =
     (case ListAutomations (sv_gcm s) db of
        (Inl err, db1) \<Rightarrow> (db1, w)
      | (Inr automations, db1) \<Rightarrow>
          (case pf_Now (sv_platform s) w of (now, w1) \<Rightarrow> renew_loop s now automations db1 w1))"

section \<open>The store of credentials as an interface\<close>

text \<open>
  What the service relies on: storing a credential makes it readable in a normal form and leaves the
  others alone, and deleting one removes it and nothing else.
\<close>

locale credential_store =
  fixes store_ok :: "'d \<Rightarrow> bool"
    and fits :: "'n \<Rightarrow> 'a \<Rightarrow> bool"
    and owner :: "'a \<Rightarrow> string"
    and norm :: "'a \<Rightarrow> 'a"
    and get :: "'d \<Rightarrow> string \<Rightarrow> 'a option"
    and put :: "'n \<Rightarrow> 'a \<Rightarrow> 'd \<Rightarrow> 'd"
    and del :: "string \<Rightarrow> 'd \<Rightarrow> 'd"
  assumes ok_put: "store_ok d \<Longrightarrow> fits n a \<Longrightarrow> store_ok (put n a d)"
    and ok_del: "store_ok d \<Longrightarrow> store_ok (del u d)"
    and get_put: "store_ok d \<Longrightarrow> fits n a \<Longrightarrow> get (put n a d) u = (if u = owner a then Some (norm a) else get d u)"
    and get_del: "store_ok d \<Longrightarrow> get (del u' d) u = (if u = u' then None else get d u)"
begin

abbreviation put_all :: "('n \<times> 'a) list \<Rightarrow> 'd \<Rightarrow> 'd" where
  "put_all xs d \<equiv> fold (\<lambda>(n, a). put n a) xs d"

lemma ok_put_all: "store_ok d \<Longrightarrow> list_all (\<lambda>(n, a). fits n a) xs \<Longrightarrow> store_ok (put_all xs d)"
  by (induction xs arbitrary: d) (auto intro: ok_put)

lemma get_put_all:
  "store_ok d \<Longrightarrow> list_all (\<lambda>(n, a). fits n a) xs \<Longrightarrow> distinct (map (owner \<circ> snd) xs) \<Longrightarrow>
   get (put_all xs d) u = (case map_of (map (\<lambda>(n, a). (owner a, norm a)) xs) u of
     Some a \<Rightarrow> Some a | None \<Rightarrow> get d u)"
proof (induction xs arbitrary: d)
  case (Cons x xs)
  obtain n a where x: "x = (n, a)" by fastforce
  have fresh: "map_of (map (\<lambda>(n, a). (owner a, norm a)) xs) (owner a) = None"
    using Cons.prems(3) x by (force simp: map_of_eq_None_iff)
  show ?case
    using Cons.IH [of "put n a d"] Cons.prems x fresh ok_put
    by (auto simp: get_put split: option.splits)
qed simp

lemma get_put_del: "store_ok d \<Longrightarrow> fits n a \<Longrightarrow> get (del (owner a) (put n a d)) u = (if u = owner a then None else get d u)"
  by (simp add: get_del get_put ok_put)

lemma put_never_forgets: "store_ok d \<Longrightarrow> fits n a \<Longrightarrow> get d u \<noteq> None \<Longrightarrow> get (put n a d) u \<noteq> None"
  by (simp add: get_put)

end

definition cred_ok :: "gcm \<Rightarrow> DB \<Rightarrow> bool" where
  "cred_ok g d = (gcm_ok g \<and> db_ok d \<and> no_faults d)"

definition cred_fits :: "string \<Rightarrow> Automation \<Rightarrow> bool" where
  "cred_fits n a = (length n = NonceSize \<and> rfc_range (am_ExpiresAt a) \<and> rfc_range (am_ConnectedAt a))"

definition cred_norm :: "Automation \<Rightarrow> Automation" where
  "cred_norm a = a\<lparr>am_ExpiresAt := whole_second (am_ExpiresAt a), am_ConnectedAt := whole_second (am_ConnectedAt a)\<rparr>"

definition cred_get :: "gcm \<Rightarrow> DB \<Rightarrow> string \<Rightarrow> Automation option" where
  "cred_get g d u = (case fst (GetAutomation g u d) of Inl _ \<Rightarrow> None | Inr a \<Rightarrow> Some a)"

definition cred_put :: "gcm \<Rightarrow> string \<Rightarrow> Automation \<Rightarrow> DB \<Rightarrow> DB" where
  "cred_put g n a d = snd (UpsertAutomation g (Inr n) a d)"

definition cred_del :: "string \<Rightarrow> DB \<Rightarrow> DB" where
  "cred_del u d = snd (DeleteAutomation u d)"

lemma UpsertAutomation_no_faults:
  assumes "no_faults d"
  obtains enc where "Seal g (db_box d) (Inr n) (am_AppPassword a) = Inr enc"
    "UpsertAutomation g (Inr n) a d = (Inr (), d\<lparr>db_automations := automations_upsert
        \<lparr>ar_user_id = am_UserID a, ar_username = am_Username a, ar_encrypted = enc,
         ar_expires_at = format_rfc3339 (am_ExpiresAt a),
         ar_connected_at = format_rfc3339 (am_ConnectedAt a)\<rparr> (db_automations d)\<rparr>)"
  using assms Seal_total [of g "db_box d" n "am_AppPassword a"] by (auto simp: UpsertAutomation_def db_simps)

interpretation creds: credential_store "cred_ok g" cred_fits am_UserID cred_norm "cred_get g" "cred_put g" cred_del
  for g
proof
  fix d n a u u'
  assume ok: "cred_ok g d"
  then have nf: "no_faults d" and keys: "pk_ok ar_user_id (db_automations d)" by (auto simp: cred_ok_def db_ok_def)
  show "cred_ok g (cred_del u d)"
    using ok DeleteAutomation_ok [of d u] by (auto simp: cred_ok_def cred_del_def DeleteAutomation_def db_simps)
  show "cred_get g (cred_del u' d) u = (if u = u' then None else cred_get g d u)"
    using nf by (auto simp: cred_get_def cred_del_def GetAutomation_def DeleteAutomation_def db_simps
        automations.row_remove [OF keys] split: option.split)
  assume fits: "cred_fits n a"
  obtain enc where e: "Seal g (db_box d) (Inr n) (am_AppPassword a) = Inr enc"
    "UpsertAutomation g (Inr n) a d = (Inr (), d\<lparr>db_automations := automations_upsert
        \<lparr>ar_user_id = am_UserID a, ar_username = am_Username a, ar_encrypted = enc,
         ar_expires_at = format_rfc3339 (am_ExpiresAt a),
         ar_connected_at = format_rfc3339 (am_ConnectedAt a)\<rparr> (db_automations d)\<rparr>)"
    using UpsertAutomation_no_faults [OF nf] .
  show "cred_ok g (cred_put g n a d)"
    using ok e(2) UpsertAutomation_ok [of d g "Inr n" a] by (simp add: cred_ok_def cred_put_def)
  have scan: "scan_automation g (db_box d) \<lparr>ar_user_id = am_UserID a, ar_username = am_Username a,
      ar_encrypted = enc, ar_expires_at = format_rfc3339 (am_ExpiresAt a),
      ar_connected_at = format_rfc3339 (am_ConnectedAt a)\<rparr> = Inr (cred_norm a)"
    using scan_sealed [OF _ _ e(1)] ok fits by (simp add: cred_ok_def cred_fits_def cred_norm_def)
  show "cred_get g (cred_put g n a d) u = (if u = am_UserID a then Some (cred_norm a) else cred_get g d u)"
    using nf scan by (auto simp: cred_get_def cred_put_def e(2) GetAutomation_def db_simps
        automations.row_upsert [OF keys] split: option.split)
qed

section \<open>Connecting and disconnecting\<close>

lemma format_whole_second [simp]: "format_rfc3339 (whole_second t) = format_rfc3339 t"
proof -
  have "(t - t mod second) div second = t div second" by (simp add: minus_mod_eq_div_mult)
  then show ?thesis by (simp add: format_rfc3339_def whole_second_def)
qed

definition nonce_ok :: "'w platform \<Rightarrow> bool" where
  "nonce_ok P = (\<forall>w n w'. pf_Nonce P w = (Inr n, w') \<longrightarrow> length n = NonceSize)"

lemma GetAutomation_no_faults: "no_faults d \<Longrightarrow> GetAutomation g u d = (fst (GetAutomation g u d), d)"
  by (simp add: GetAutomation_def db_simps)

text \<open>
  An attempt to connect that fails leaves every stored credential, trigger and cursor as it was
  and does not ask the SSE manager for anything.
\<close>

lemma failed_connect_keeps_credentials:
  assumes "Connect s auth m db w = (Inl err, m', db', w')"
  shows "db_automations db' = db_automations db \<and> db_triggers db' = db_triggers db
    \<and> db_cursors db' = db_cursors db \<and> m' = m"
  using assms unfolding Connect_def
  by (auto simp: Let_def split: sum.splits prod.splits dest: UpsertAutomation_Inl)

text \<open>What the service needs of oCIS and of the clock for the stored instants to be representable.\<close>

definition times_ok :: "'w Service \<Rightarrow> bool" where
  "times_ok s = ((\<forall>w. rfc_range (fst (pf_Now (sv_platform s) w)))
     \<and> (\<forall>a w token e w'. gr_MintAppPassword (sv_graph s) a defaultExpiry tokenLabel w = (Inr (token, e), w')
          \<longrightarrow> rfc_range e))"

lemma mint_in_range:
  "times_ok s \<Longrightarrow> gr_MintAppPassword (sv_graph s) a defaultExpiry tokenLabel w = (Inr (token, e), w') \<Longrightarrow>
   rfc_range e"
  unfolding times_ok_def by blast

lemma cred_get_Some: "cred_get g d u = Some a \<Longrightarrow> fst (GetAutomation g u d) = Inr a"
  by (auto simp: cred_get_def split: sum.splits)

lemma GetReliability_no_faults:
  "no_faults d \<Longrightarrow> GetReliability u d = (Inr (if \<exists>c\<in>set (db_cursors d). cr_user_id c = u \<and>
       cr_last_status c = ''sse-only'' then ''sse-only'' else ''full''), d)"
  by (simp add: GetReliability_def db_simps GetReliability_select)

text \<open>
  C31. Connecting enables automation: when \<^verbatim>\<open>Connect\<close> reports success, the credential of the caller
  can be read back, nobody else's changed, the SSE manager was asked to reconcile, and as long as
  the credential has not expired \<^verbatim>\<open>Status\<close> reports it as connected with the same expiry and with the
  reliability the cursors give.
\<close>

theorem connect_enables:
  assumes "cred_ok (sv_gcm s) db" "nonce_ok (sv_platform s)" "times_ok s" "sv_kick s"
    "Connect s auth m db w = (Inr st, m', db', w')" "as_Connected st"
  shows "\<exists>u w1 a. gr_Me (sv_graph s) auth w = (Inr u, w1) \<and> cred_get (sv_gcm s) db' u = Some a
    \<and> as_ExpirationDateTime st = format_rfc3339 (am_ExpiresAt a) \<and> mg_kick m'
    \<and> (\<forall>v. v \<noteq> u \<longrightarrow> cred_get (sv_gcm s) db' v = cred_get (sv_gcm s) db v)
    \<and> (\<forall>w2. fst (pf_Now (sv_platform s) w2) \<le> am_ExpiresAt a \<longrightarrow>
         fst (Status s u db' w2) = Inr (st\<lparr>as_Reliability :=
           if \<exists>c\<in>set (db_cursors db'). cr_user_id c = u \<and> cr_last_status c = ''sse-only''
           then ''sse-only'' else ''full''\<rparr>))"
proof -
  let ?g = "sv_gcm s"
  from assms(5) obtain u name token e now nonce w1 w2 w3 w4 w5 w6 where c:
    "gr_Me (sv_graph s) auth w = (Inr u, w1)"
    "gr_MintAppPassword (sv_graph s) auth defaultExpiry tokenLabel w2 = (Inr (token, e), w3)"
    "pf_Now (sv_platform s) w3 = (now, w4)" "pf_Nonce (sv_platform s) w4 = (nonce, w5)"
    "UpsertAutomation ?g nonce \<lparr>am_UserID = u, am_Username = name, am_AppPassword = token,
        am_ExpiresAt = e, am_ConnectedAt = now\<rparr> db = (Inr (), db')"
    "toStatus s (Some \<lparr>am_UserID = u, am_Username = name, am_AppPassword = token,
        am_ExpiresAt = e, am_ConnectedAt = now\<rparr>) w5 = (st, w6)" "m' = Kick m"
    unfolding Connect_def using assms(4)
    by (auto simp: Let_def split: sum.splits prod.splits)
  let ?a = "\<lparr>am_UserID = u, am_Username = name, am_AppPassword = token, am_ExpiresAt = e, am_ConnectedAt = now\<rparr>"
  obtain n where n: "nonce = Inr n" using c(5) by (cases nonce) (auto simp: UpsertAutomation_def Seal_error)
  have "rfc_range now" using assms(3) c(3) by (metis times_ok_def fst_conv)
  then have fits: "cred_fits n ?a"
    using assms(2) c(4) n mint_in_range [OF assms(3) c(2)] by (auto simp: cred_fits_def nonce_ok_def)
  have db': "db' = cred_put ?g n ?a db" using c(5) n by (simp add: cred_put_def)
  have ok': "cred_ok ?g db'" unfolding db' using creds.ok_put [OF assms(1) fits] .
  have get: "cred_get ?g db' v = (if v = u then Some (cred_norm ?a) else cred_get ?g db v)" for v
    unfolding db' using creds.get_put [OF assms(1) fits] by simp
  have st: "st = \<lparr>as_Connected = True, as_ExpirationDateTime = format_rfc3339 e, as_Reliability = []\<rparr>"
    using c(6) assms(6) by (auto simp: toStatus_def disconnected_def split: prod.splits if_splits)
  have nf: "no_faults db'" using ok' by (simp add: cred_ok_def)
  have "fst (Status s u db' x) = Inr (st\<lparr>as_Reliability :=
      if \<exists>c\<in>set (db_cursors db'). cr_user_id c = u \<and> cr_last_status c = ''sse-only''
      then ''sse-only'' else ''full''\<rparr>)" if "fst (pf_Now (sv_platform s) x) \<le> whole_second e" for x
  proof -
    obtain t x' where t: "pf_Now (sv_platform s) x = (t, x')" by fastforce
    have ga: "GetAutomation ?g u db' = (Inr (cred_norm ?a), db')"
      using GetAutomation_no_faults [OF nf, of ?g u] cred_get_Some [of ?g db' u "cred_norm ?a"] get by simp
    show ?thesis
      using that t ga by (simp add: Status_def toStatus_def before_def cred_norm_def st
          GetReliability_no_faults [OF nf])
  qed
  then show ?thesis
    using c(1,7) get st by (auto simp: cred_norm_def Kick_def)
qed

text \<open>What \<^verbatim>\<open>Disconnect\<close> leaves: the database as it was, or without the caller's credential and cursors.\<close>

lemma disconnect_effect:
  assumes "cred_ok (sv_gcm s) db" "gr_Me (sv_graph s) auth w = (Inr u, w1)" "Disconnect s auth db w = (Inr r, db', w')"
  obtains (absent) "automations_row (db_automations db) u = None" "db' = db"
  | (forgotten) "automations_row (db_automations db) u \<noteq> None"
      "db' = (cred_del u db)\<lparr>db_cursors := sql_delete (\<lambda>c. cr_user_id c = u) (db_cursors db)\<rparr>"
proof (cases "automations_row (db_automations db) u")
  case None
  have "no_faults db" using assms(1) by (simp add: cred_ok_def)
  then have "GetAutomation (sv_gcm s) u db = (Inl DbNotFound, db)" using None by (simp add: GetAutomation_def db_simps)
  then show ?thesis using absent None assms(2,3) by (simp add: Disconnect_def)
next
  case (Some row)
  have "no_faults db" using assms(1) by (simp add: cred_ok_def)
  then show ?thesis
    using forgotten assms(2,3) Some
    by (auto simp: Disconnect_def GetAutomation_def cred_del_def DeleteAutomation_def DeleteEventCursors_def
        db_simps split: sum.splits prod.splits)
qed

lemma disconnect_credential:
  assumes "cred_ok (sv_gcm s) db" "gr_Me (sv_graph s) auth w = (Inr u, w1)" "Disconnect s auth db w = (Inr r, db', w')"
  shows "cred_ok (sv_gcm s) db' \<and> cred_get (sv_gcm s) db' u = None"
  using assms
proof (cases rule: disconnect_effect)
  case absent
  have "no_faults db" using assms(1) by (simp add: cred_ok_def)
  then have "cred_get (sv_gcm s) db u = None" using absent(1) by (simp add: cred_get_def GetAutomation_def db_simps)
  then show ?thesis using assms(1) absent(2) by simp
next
  case forgotten
  have ok: "cred_ok (sv_gcm s) (cred_del u db)" by (rule creds.ok_del [OF assms(1)])
  have "pk_ok cursor_key (db_cursors db)" using assms(1) by (simp add: cred_ok_def db_ok_def)
  then have "pk_ok cursor_key (db_cursors db')" by (simp add: forgotten(2) pk_ok_def sql_delete_def distinct_map_filter)
  then have "cred_ok (sv_gcm s) db'" using ok by (simp add: cred_ok_def db_ok_def forgotten(2))
  moreover have "no_faults (cred_del u db)" using ok by (simp add: cred_ok_def)
  then have "cred_get (sv_gcm s) db' u = cred_get (sv_gcm s) (cred_del u db) u"
    by (simp add: cred_get_def forgotten(2) GetAutomation_def db_simps split: option.split)
  ultimately show ?thesis using creds.get_del [OF assms(1), of u u] by simp
qed

text \<open>
  C32. Disconnecting forgets: when \<^verbatim>\<open>Disconnect\<close> succeeds, even if oCIS refused to revoke the
  app-password, the caller has no stored credential, \<^verbatim>\<open>Status\<close> reports automation as not connected, and no other
  user's credential or cursor is touched. The caller's cursors go with a stored credential; without one the operation
  returns before any statement and leaves the database as it is, cursors included.
\<close>

theorem disconnect_forgets:
  assumes "cred_ok (sv_gcm s) db" "gr_Me (sv_graph s) auth w = (Inr u, w1)"
    "Disconnect s auth db w = (Inr r, db', w')"
  shows "cred_get (sv_gcm s) db' u = None \<and> fst (Status s u db' w2) = Inr disconnected
    \<and> (if automations_row (db_automations db) u = None then db' = db
       else db_cursors db' = filter (\<lambda>c. cr_user_id c \<noteq> u) (db_cursors db))
    \<and> (\<forall>v. v \<noteq> u \<longrightarrow> cred_get (sv_gcm s) db' v = cred_get (sv_gcm s) db v)
    \<and> filter (\<lambda>c. cr_user_id c \<noteq> u) (db_cursors db') = filter (\<lambda>c. cr_user_id c \<noteq> u) (db_cursors db)"
  using assms
proof (cases rule: disconnect_effect)
  case absent
  have "no_faults db" using assms(1) by (simp add: cred_ok_def)
  then have "GetAutomation (sv_gcm s) u db = (Inl DbNotFound, db)"
    using absent(1) by (simp add: GetAutomation_def db_simps)
  then show ?thesis using absent by (simp add: cred_get_def Status_def toStatus_def)
next
  case forgotten
  note db' = forgotten(2)
  have nf: "no_faults db" using assms(1) by (simp add: cred_ok_def)
  have nfd: "no_faults (cred_del u db)" using creds.ok_del [OF assms(1)] by (simp add: cred_ok_def)
  have get: "cred_get (sv_gcm s) db' v = cred_get (sv_gcm s) (cred_del u db) v" for v
    using nfd by (simp add: cred_get_def db' GetAutomation_def db_simps split: option.split)
  have "automations_row (db_automations db') u = None"
    using assms(1) nf by (simp add: db' cred_del_def DeleteAutomation_def db_simps cred_ok_def db_ok_def
        automations.row_remove)
  moreover have "no_faults db'" using nfd by (simp add: db')
  ultimately have "GetAutomation (sv_gcm s) u db' = (Inl DbNotFound, db')" by (simp add: GetAutomation_def db_simps)
  then have "fst (Status s u db' w2) = Inr disconnected" by (simp add: Status_def toStatus_def)
  then show ?thesis
    using creds.get_del [OF assms(1)] by (simp add: get forgotten(1)) (simp add: db' sql_delete_def)
qed

section \<open>Renewal\<close>

definition due :: "time \<Rightarrow> Automation \<Rightarrow> bool" where
  "due now a = (time_sub (am_ExpiresAt a) now \<le> renewalWindow)"

text \<open>\<open>a'\<close> is \<open>a\<close> with an app-password minted on \<open>a\<close>'s own credential.\<close>

definition renewed :: "'w Service \<Rightarrow> Automation \<Rightarrow> Automation \<Rightarrow> bool" where
  "renewed s a a' = (\<exists>w w' token e. gr_MintAppPassword (sv_graph s) (BasicAuth a) defaultExpiry tokenLabel w =
       (Inr (token, e), w') \<and> a' = cred_norm (a\<lparr>am_AppPassword := token, am_ExpiresAt := e\<rparr>))"

lemma renewOne_effect:
  assumes "cred_ok (sv_gcm s) db" "nonce_ok (sv_platform s)" "times_ok s" "rfc_range (am_ConnectedAt a)"
    "renewOne s a db w = (db', w')"
  obtains (same) "db' = db"
  | (stored) n a' where "renewed s a (cred_norm a')" "cred_fits n a'" "am_UserID a' = am_UserID a"
      "db' = cred_put (sv_gcm s) n a' db"
proof (cases "gr_MintAppPassword (sv_graph s) (BasicAuth a) defaultExpiry tokenLabel w")
  case (Pair r w1)
  obtain nonce w2 where n: "pf_Nonce (sv_platform s) w1 = (nonce, w2)" by fastforce
  show ?thesis
  proof (cases r)
    case (Inl err)
    then show ?thesis using assms(5) Pair same by (simp add: renewOne_def)
  next
    case (Inr te)
    obtain token e where te: "te = (token, e)" by fastforce
    let ?a = "a\<lparr>am_AppPassword := token, am_ExpiresAt := e\<rparr>"
    have a: "\<lparr>am_UserID = am_UserID a, am_Username = am_Username a, am_AppPassword = token,
        am_ExpiresAt = e, am_ConnectedAt = am_ConnectedAt a\<rparr> = ?a" by simp
    show ?thesis
    proof (cases nonce)
      case (Inl err)
      then have "db' = db"
        using assms(5) Pair Inr te n by (simp add: renewOne_def a UpsertAutomation_def Seal_error)
      then show ?thesis by (rule same)
    next
      case (Inr x)
      have nf: "no_faults db" using assms(1) by (simp add: cred_ok_def)
      have up: "UpsertAutomation (sv_gcm s) (Inr x) ?a db = (Inr (), cred_put (sv_gcm s) x ?a db)"
        using UpsertAutomation_no_faults [OF nf, of "sv_gcm s" x ?a] by (metis cred_put_def snd_conv)
      have "db' = cred_put (sv_gcm s) x ?a db"
        using assms(5) Pair \<open>r = Inr te\<close> te n Inr up
        by (cases "gr_RevokeAppPassword (sv_graph s) (BasicAuth a) (am_AppPassword a) w2")
          (simp add: renewOne_def a)
      moreover have "cred_fits x ?a"
        using assms(2,4) Pair \<open>r = Inr te\<close> te n Inr mint_in_range [OF assms(3)]
        by (auto simp: cred_fits_def nonce_ok_def)
      moreover have "renewed s a (cred_norm ?a)" using Pair \<open>r = Inr te\<close> te by (auto simp: renewed_def)
      ultimately show ?thesis by (intro stored) simp_all
    qed
  qed
qed

lemma renew_loop_effect:
  assumes "cred_ok (sv_gcm s) db" "nonce_ok (sv_platform s)" "times_ok s"
    "\<forall>a \<in> set as. rfc_range (am_ConnectedAt a)" "distinct (map am_UserID as)"
    "renew_loop s now as db w = (db', w')"
  shows "cred_get (sv_gcm s) db' u = cred_get (sv_gcm s) db u
    \<or> (\<exists>a \<in> set as. \<exists>a'. am_UserID a = u \<and> due now a \<and> cred_get (sv_gcm s) db' u = Some a' \<and> renewed s a a')"
  using assms(1,4-)
proof (induction as arbitrary: db w)
  case (Cons a as)
  show ?case
  proof (cases "due now a")
    case False
    then have "renew_loop s now as db w = (db', w')" using Cons.prems(4) by (simp add: due_def not_le)
    then show ?thesis using Cons by simp blast
  next
    case True
    obtain db1 w1 where r: "renewOne s a db w = (db1, w1)" by fastforce
    have l: "renew_loop s now as db1 w1 = (db', w')" using Cons.prems(4) True r by (simp add: due_def)
    have rc: "rfc_range (am_ConnectedAt a)" using Cons.prems(2) by simp
    from Cons.prems(1) assms(2,3) rc r show ?thesis
    proof (cases rule: renewOne_effect)
      case same
      then show ?thesis using Cons.IH [OF _ _ _ l] Cons.prems by simp blast
    next
      case (stored n a')
      have ok: "cred_ok (sv_gcm s) db1" unfolding stored(4) by (rule creds.ok_put [OF Cons.prems(1) stored(2)])
      have get: "cred_get (sv_gcm s) db1 u = (if u = am_UserID a then Some (cred_norm a') else cred_get (sv_gcm s) db u)"
        unfolding stored(4) creds.get_put [OF Cons.prems(1) stored(2)] stored(3) ..
      have ih: "cred_get (sv_gcm s) db' u = cred_get (sv_gcm s) db1 u
          \<or> (\<exists>b \<in> set as. \<exists>b'. am_UserID b = u \<and> due now b \<and> cred_get (sv_gcm s) db' u = Some b' \<and> renewed s b b')"
        using Cons.IH [OF ok _ _ l] Cons.prems by simp
      show ?thesis
      proof (cases "u = am_UserID a")
        case u: True
        then have "\<not> (\<exists>b \<in> set as. am_UserID b = u)" using Cons.prems(3) by (auto simp: image_iff)
        then show ?thesis using ih get u True stored(1) by auto
      next
        case False
        then show ?thesis using ih get by auto
      qed
    qed
  qed
qed simp

lemma ListAutomations_get:
  assumes "db_ok db" "no_faults db" "ListAutomations g db = (Inr as, db1)"
  shows "db1 = db" "distinct (map am_UserID as)" "a \<in> set as \<Longrightarrow> cred_get g db (am_UserID a) = Some a"
proof -
  have s: "scan_automations g (db_box db) (db_automations db) = Inr as" and "db1 = db"
    using assms(2,3) by (auto simp: ListAutomations_def db_simps)
  then show "db1 = db" by simp
  have m: "map (scan_automation g (db_box db)) (db_automations db) = map Inr as"
    using s scan_automations_Inr by blast
  have uid: "am_UserID x = ar_user_id r" if "scan_automation g b r = Inr x" for r x b
    using that by (auto simp: scan_automation_def split: sum.splits)
  have "map am_UserID as = map ar_user_id (db_automations db)"
    using m uid by (auto simp: list_eq_iff_nth_eq)
  then show "distinct (map am_UserID as)" using assms(1) by (simp add: db_ok_def pk_ok_def)
  assume "a \<in> set as"
  then have "Inr a \<in> set (map (scan_automation g (db_box db)) (db_automations db))" unfolding m by simp
  then obtain r where r: "r \<in> set (db_automations db)" "scan_automation g (db_box db) r = Inr a" by auto
  have "pk_ok ar_user_id (db_automations db)" using assms(1) by (simp add: db_ok_def)
  then have "automations_row (db_automations db) (am_UserID a) = Some r"
    using automations.row_iff [of "db_automations db" "am_UserID a" r] r(1) uid [OF r(2)] by simp
  then show "cred_get g db (am_UserID a) = Some a"
    using r(2) assms(2) by (simp add: cred_get_def GetAutomation_def db_simps)
qed

text \<open>
  C13. The renewal sweep never costs a user their automation: whatever minting, storing and revoking
  do, after it every user who had a credential has one, no user gained one, the username is the
  same, and the credential is the old one or one that was minted with the old one's own
  app-password, the latter only if the old one was within the renewal window.
\<close>

theorem renewal_safe:
  assumes "cred_ok (sv_gcm s) db" "nonce_ok (sv_platform s)" "times_ok s"
    "ListAutomations (sv_gcm s) db = (Inr as, db1)" "\<forall>a \<in> set as. rfc_range (am_ConnectedAt a)"
    "pf_Now (sv_platform s) w = (now, w1)" "renewDue s db w = (db', w')"
  shows "case cred_get (sv_gcm s) db u of
      None \<Rightarrow> cred_get (sv_gcm s) db' u = None
    | Some a \<Rightarrow> \<exists>a'. cred_get (sv_gcm s) db' u = Some a' \<and> am_Username a' = am_Username a
        \<and> (a' = a \<or> (due now a \<and> renewed s a a'))"
proof -
  have okdb: "db_ok db" "no_faults db" using assms(1) by (simp_all add: cred_ok_def)
  note l = ListAutomations_get [OF okdb assms(4)]
  have "renew_loop s now as db w1 = (db', w')" using assms(4,6,7) l(1) by (simp add: renewDue_def)
  note eff = renew_loop_effect [OF assms(1-3,5) l(2) this, of u]
  show ?thesis
  proof (cases "cred_get (sv_gcm s) db' u = cred_get (sv_gcm s) db u")
    case True
    then show ?thesis by (cases "cred_get (sv_gcm s) db u") auto
  next
    case False
    then obtain a a' where a: "a \<in> set as" "am_UserID a = u" "due now a" "renewed s a a'"
      "cred_get (sv_gcm s) db' u = Some a'" using eff by blast
    have "am_Username a' = am_Username a" using a(4) by (auto simp: renewed_def cred_norm_def)
    then show ?thesis using l(3) [OF a(1)] a by simp
  qed
qed

section \<open>A concrete service\<close>

definition demo_service :: "int Service" where
  "demo_service = \<lparr>sv_graph = \<lparr>gr_Me = (\<lambda>a w. (Inr ''u1'', w)), gr_Username = (\<lambda>a w. (Inr ''alice'', w)),
       gr_MintAppPassword = (\<lambda>a d l w. (Inr (''fresh'', demo_now * second + d), w)),
       gr_RevokeAppPassword = (\<lambda>a t w. (Inl (Msg ''503''), w))\<rparr>,
     sv_kick = True, sv_platform = demo_platform\<lparr>pf_Now := (\<lambda>w. (demo_now * second, w))\<rparr>, sv_gcm = demo_gcm\<rparr>"

lemma demo_service_facts:
  "sv_gcm demo_service = demo_gcm" "sv_kick demo_service"
  "nonce_ok (sv_platform demo_service)" "times_ok demo_service" "cred_ok demo_gcm demo_db" "cred_ok demo_gcm demo_cred_db"
  "gr_Me (sv_graph demo_service) a w = (Inr ''u1'', w)" "pf_Now (sv_platform demo_service) w = (demo_now * second, w)"
proof -
  show "cred_ok demo_gcm demo_db" by (simp add: cred_ok_def)
  have "cred_ok demo_gcm (demo_db\<lparr>db_triggers := demo_triggers\<rparr>)"
    by (simp add: cred_ok_def db_ok_def demo_db_def pk_ok_def no_faults_def demo_triggers_def demo_event_trigger_def)
  moreover have "cred_fits (replicate 12 CHR ''n'') demo_automation"
    by (simp add: cred_fits_def NonceSize_def rfc_range_def demo_automation_def)
  ultimately show "cred_ok demo_gcm demo_cred_db"
    using creds.ok_put by (simp add: demo_cred_db_def cred_put_def)
  show "times_ok demo_service"
    by (simp add: times_ok_def demo_service_def rfc_range_def defaultExpiry_def)
qed (auto simp: nonce_ok_def demo_service_def demo_platform_def NonceSize_def)

lemma demo_connect:
  "Connect demo_service ''Bearer t'' manager_New demo_db 0 =
     (Inr \<lparr>as_Connected = True, as_ExpirationDateTime = format_rfc3339 (demo_now * second + defaultExpiry), as_Reliability = []\<rparr>,
      Kick manager_New, snd (UpsertAutomation demo_gcm (Inr (replicate 12 CHR ''n''))
        \<lparr>am_UserID = ''u1'', am_Username = ''alice'', am_AppPassword = ''fresh'',
         am_ExpiresAt = demo_now * second + defaultExpiry, am_ConnectedAt = demo_now * second\<rparr> demo_db), 1)"
  by (simp add: Connect_def demo_service_def demo_platform_def UpsertAutomation_def Seal_def db_simps
      toStatus_def before_def defaultExpiry_def)

theorem connect_enables_witness:
  "\<exists>a. cred_get demo_gcm (fst (snd (snd (Connect demo_service ''Bearer t'' manager_New demo_db 0)))) ''u1'' = Some a"
  using connect_enables [of demo_service, unfolded demo_service_facts(1), OF demo_service_facts(5,3,4,2) demo_connect]
  unfolding demo_connect by (auto simp: demo_service_facts(7))

lemma demo_disconnect:
  "Disconnect demo_service ''Bearer t'' demo_cred_db 0 =
     (Inr (), snd (DeleteEventCursors ''u1'' (snd (DeleteAutomation ''u1'' demo_cred_db))), 0)"
proof -
  have nf: "no_faults demo_cred_db" using demo_service_facts(6) by (simp add: cred_ok_def)
  show ?thesis
    using nf by (simp add: Disconnect_def demo_credential demo_service_def DeleteAutomation_def DeleteEventCursors_def
        db_simps)
qed

theorem disconnect_forgets_witness:
  "fst (Status demo_service ''u1'' (fst (snd (Disconnect demo_service ''Bearer t'' demo_cred_db 0))) 5) = Inr disconnected"
  using disconnect_forgets [OF _ demo_service_facts(7) demo_disconnect, of 5] demo_service_facts(1,6)
  unfolding demo_disconnect by simp

theorem renewal_safe_witness:
  "\<exists>a'. cred_get demo_gcm (fst (renewDue demo_service demo_cred_db 0)) ''u1'' = Some a' \<and> am_Username a' = ''alice''"
proof -
  have nf: "no_faults demo_cred_db" "db_ok demo_cred_db" using demo_service_facts(6) by (simp_all add: cred_ok_def)
  obtain r where r: "db_automations demo_cred_db = [r]"
    by (auto simp: demo_cred_db_def UpsertAutomation_def Seal_def db_simps automations_upsert_def demo_db_def
        db_exec_def db_stmt_def)
  have get: "GetAutomation demo_gcm ''u1'' demo_cred_db
      = (Inr (demo_automation\<lparr>am_ExpiresAt := 1724166769 * second\<rparr>), demo_cred_db)" by (rule demo_credential)
  then have "scan_automation demo_gcm (db_box demo_cred_db) r = Inr (demo_automation\<lparr>am_ExpiresAt := 1724166769 * second\<rparr>)"
    using nf by (auto simp: GetAutomation_def db_simps automations_row_def r split: if_splits sum.splits)
  then have l: "ListAutomations demo_gcm demo_cred_db = (Inr [demo_automation\<lparr>am_ExpiresAt := 1724166769 * second\<rparr>], demo_cred_db)"
    using nf by (simp add: ListAutomations_def db_simps r)
  have c: "\<forall>a \<in> set [demo_automation\<lparr>am_ExpiresAt := 1724166769 * second\<rparr>]. rfc_range (am_ConnectedAt a)"
    by (simp add: demo_automation_def rfc_range_def)
  show ?thesis
    using renewal_safe [of demo_service, unfolded demo_service_facts(1), OF demo_service_facts(6,3,4) l c
        demo_service_facts(8) surjective_pairing, of 0 "''u1''"] get
    by (auto simp: cred_get_def demo_automation_def)
qed

end
