(* ===== verification/DbEvolution.thy ===== *)
theory DbEvolution
  imports LocalDB
begin

text \<open>
  How the database may change while the backend runs: the inductive relation \<open>db_evolves\<close> is a
  sequence of statements that each succeed or fail. It is indexed by the users \<open>U\<close> whose private rows
  (credential and cursors) may be written and by the predicate \<open>A\<close> that every stored credential and the nonce of
  its encryption satisfy. Every component shows once that its operations are such a sequence; the
  invariants of the database follow by rule induction.
\<close>

definition same_tables :: "DB \<Rightarrow> DB \<Rightarrow> bool" where
  "same_tables d d' = (db_automations d' = db_automations d \<and> db_triggers d' = db_triggers d
     \<and> db_cursors d' = db_cursors d \<and> db_box d' = db_box d)"

text \<open>
  The rows the code writes. An index entry is a schedule without the fields of an event, or an event
  without a schedule; a cursor's status is one of the two words the API knows.
\<close>

definition entry_typed :: "TriggerIndexEntry \<Rightarrow> bool" where
  "entry_typed e =
     (if ti_TriggerType e = ''schedule''
      then ti_EventType e = [] \<and> ti_PathPrefix e = [] \<and> ti_Extension e = [] \<and> ti_SpaceID e = []
      else ti_TriggerType e = ''event'' \<and> ti_Schedule e = [])"

definition status_typed :: "string \<Rightarrow> bool" where
  "status_typed st = (st = ''full'' \<or> st = ''sse-only'')"

inductive db_evolves :: "gcm \<Rightarrow> string set \<Rightarrow> (string result \<Rightarrow> Automation \<Rightarrow> bool) \<Rightarrow> DB \<Rightarrow> DB \<Rightarrow> bool"
  for g U A where
  nothing: "db_evolves g U A d d"
| read: "db_evolves g U A d d1 \<Longrightarrow> same_tables d1 d2 \<Longrightarrow> db_evolves g U A d d2"
| index: "db_evolves g U A d d1 \<Longrightarrow> entry_typed e \<Longrightarrow> db_evolves g U A d (snd (UpsertTriggerIndexEntry e d1))"
| unindex: "db_evolves g U A d d1 \<Longrightarrow> db_evolves g U A d (snd (DeleteTriggerIndexEntry i d1))"
| cursor: "db_evolves g U A d d1 \<Longrightarrow> ec_UserID c \<in> U \<Longrightarrow> status_typed (ec_LastStatus c) \<Longrightarrow>
    db_evolves g U A d (snd (UpsertEventCursor c d1))"
| no_cursors: "db_evolves g U A d d1 \<Longrightarrow> u \<in> U \<Longrightarrow> db_evolves g U A d (snd (DeleteEventCursors u d1))"
| credential: "db_evolves g U A d d1 \<Longrightarrow> am_UserID a \<in> U \<Longrightarrow> A n a \<Longrightarrow>
    db_evolves g U A d (snd (UpsertAutomation g n a d1))"
| forget: "db_evolves g U A d d1 \<Longrightarrow> u \<in> U \<Longrightarrow> db_evolves g U A d (snd (DeleteAutomation u d1))"

lemmas [simp] = db_evolves.nothing

lemma evolves_trans: "db_evolves g U A d1 d2 \<Longrightarrow> db_evolves g U A d d1 \<Longrightarrow> db_evolves g U A d d2"
  by (induction rule: db_evolves.induct) (auto intro: db_evolves.intros)

lemma evolves_mono:
  "db_evolves g U A d d' \<Longrightarrow> U \<subseteq> V \<Longrightarrow> (\<And>n a. A n a \<Longrightarrow> B n a) \<Longrightarrow> db_evolves g V B d d'"
  by (induction rule: db_evolves.induct) (auto intro: db_evolves.intros)

text \<open>One operation, given by its result.\<close>

lemma evolves_op: "op = (r, d') \<Longrightarrow> db_evolves g U A d (snd op) \<Longrightarrow> db_evolves g U A d d'"
  by simp

lemma evolves_query: "db_query f d = (r, d') \<Longrightarrow> db_evolves g U A d d'"
  using db_query_frame [of f d r d'] by (intro db_evolves.read [OF db_evolves.nothing]) (simp add: same_tables_def)

lemma evolves_queries:
  "GetAutomation g' u d = (r1, d') \<Longrightarrow> db_evolves g U A d d'"
  "ListAutomations g' d = (r2, d') \<Longrightarrow> db_evolves g U A d d'"
  "ListEventTriggers d = (r3, d') \<Longrightarrow> db_evolves g U A d d'"
  "ListScheduleTriggers d = (r4, d') \<Longrightarrow> db_evolves g U A d d'"
  "GetEventCursor u i d = (r5, d') \<Longrightarrow> db_evolves g U A d d'"
  "GetReliability u d = (r6, d') \<Longrightarrow> db_evolves g U A d d'"
  by (simp_all add: GetAutomation_def ListAutomations_def ListEventTriggers_def ListScheduleTriggers_def
      listTriggers_def GetEventCursor_def GetReliability_def evolves_query)

lemma evolves_writes:
  "entry_typed e \<Longrightarrow> db_evolves g U A d (snd (UpsertTriggerIndexEntry e d))"
  "db_evolves g U A d (snd (DeleteTriggerIndexEntry i d))"
  "ec_UserID c \<in> U \<Longrightarrow> status_typed (ec_LastStatus c) \<Longrightarrow> db_evolves g U A d (snd (UpsertEventCursor c d))"
  "u \<in> U \<Longrightarrow> db_evolves g U A d (snd (DeleteEventCursors u d))"
  "am_UserID a \<in> U \<Longrightarrow> A n a \<Longrightarrow> db_evolves g U A d (snd (UpsertAutomation g n a d))"
  "u \<in> U \<Longrightarrow> db_evolves g U A d (snd (DeleteAutomation u d))"
  by (auto intro: db_evolves.intros)

section \<open>Well-formedness\<close>

lemma evolves_ok: "db_evolves g U A d d' \<Longrightarrow> db_ok d \<Longrightarrow> db_ok d'"
proof (induction rule: db_evolves.induct)
  case (read d d1 d2)
  then show ?case by (simp add: same_tables_def db_ok_def)
qed (blast intro: db_ok_intros)+

text \<open>No operation changes the key.\<close>

lemma exec_box: "(\<And>x. db_box (f x) = db_box x) \<Longrightarrow> db_box (snd (db_exec f d)) = db_box d"
  by (cases rule: db_stmt_cases [of d]) (simp_all add: db_exec_def)

lemma evolves_box: "db_evolves g U A d d' \<Longrightarrow> db_box d' = db_box d"
proof (induction rule: db_evolves.induct)
  case (credential d d1 a n)
  then show ?case
    by (cases "Seal g (db_box d1) n (am_AppPassword a)") (simp_all add: UpsertAutomation_def exec_box)
qed (simp_all add: same_tables_def UpsertTriggerIndexEntry_def DeleteTriggerIndexEntry_def UpsertEventCursor_def
  DeleteEventCursors_def DeleteAutomation_def exec_box)

section \<open>Private rows\<close>

text \<open>What the database holds about one user: the credential and the cursors.\<close>

definition private_part :: "string \<Rightarrow> DB \<Rightarrow> automation_row option \<times> cursor_row list" where
  "private_part u d = (automations_row (db_automations d) u, filter (\<lambda>c. cr_user_id c = u) (db_cursors d))"

lemma exec_private:
  assumes "db_ok d" "\<And>x. db_ok x \<Longrightarrow> private_part v (f x) = private_part v x"
  shows "private_part v (snd (db_exec f d)) = private_part v d"
proof (cases rule: db_stmt_cases [of d])
  case (ok d')
  then have "db_ok d'" "private_part v d' = private_part v d" using assms(1) by (simp_all add: db_ok_def private_part_def)
  then show ?thesis using ok assms(2) by (simp add: db_exec_def)
qed (simp add: db_exec_def private_part_def)

lemma filter_sql_delete: "\<forall>x. p x \<longrightarrow> \<not> q x \<Longrightarrow> filter p (sql_delete q rows) = filter p rows"
  by (induction rows) (auto simp: sql_delete_def)

lemma filter_sql_upsert:
  "key r = k \<Longrightarrow> \<not> p r \<Longrightarrow> \<forall>x\<in>set rows. key x = k \<longrightarrow> \<not> p x \<Longrightarrow> filter p (sql_upsert key r rows) = filter p rows"
  by (induction rows) auto

lemma evolves_private:
  "db_evolves g U A d d' \<Longrightarrow> db_ok d \<Longrightarrow> v \<notin> U \<Longrightarrow> private_part v d' = private_part v d"
proof (induction rule: db_evolves.induct)
  case (read d d1 d2)
  then show ?case by (simp add: same_tables_def private_part_def)
next
  case (index d d1 e)
  then show ?case
    unfolding UpsertTriggerIndexEntry_def by (subst exec_private) (auto simp: private_part_def dest: evolves_ok)
next
  case (unindex d d1 i)
  then show ?case
    unfolding DeleteTriggerIndexEntry_def by (subst exec_private) (auto simp: private_part_def dest: evolves_ok)
next
  case (cursor d d1 c)
  then have "ec_UserID c \<noteq> v" by auto
  then show ?case
    using cursor unfolding UpsertEventCursor_def
    by (subst exec_private) (auto simp: private_part_def event_cursors_upsert_def cursor_row_of_def dest: evolves_ok
        intro!: filter_sql_upsert [where k = "(ec_UserID c, ec_DriveID c)"])
next
  case (no_cursors d d1 u)
  then have "u \<noteq> v" by auto
  then show ?case
    using no_cursors unfolding DeleteEventCursors_def
    by (subst exec_private) (auto simp: private_part_def filter_sql_delete dest: evolves_ok)
next
  case (credential d d1 a n)
  then have "am_UserID a \<noteq> v" by auto
  then show ?case
    using credential unfolding UpsertAutomation_def
    by (cases "Seal g (db_box d1) n (am_AppPassword a)"; simp; subst exec_private)
      (auto simp: private_part_def db_ok_def automations.row_upsert dest: evolves_ok)
next
  case (forget d d1 u)
  then show ?case
    unfolding DeleteAutomation_def
    by (subst exec_private) (auto simp: private_part_def db_ok_def automations.row_remove dest: evolves_ok)
qed simp

section \<open>Typed rows\<close>

definition cursor_typed :: "cursor_row \<Rightarrow> bool" where
  "cursor_typed c = (status_typed (cr_last_status c) \<and> (\<exists>t. cr_last_checked c = format_rfc3339 t))"

definition credential_typed :: "automation_row \<Rightarrow> bool" where
  "credential_typed r = (\<exists>e t. ar_expires_at r = format_rfc3339 e \<and> ar_connected_at r = format_rfc3339 t)"

definition rows_typed :: "DB \<Rightarrow> bool" where
  "rows_typed d = ((\<forall>e \<in> set (db_triggers d). entry_typed e) \<and> (\<forall>c \<in> set (db_cursors d). cursor_typed c)
     \<and> (\<forall>r \<in> set (db_automations d). credential_typed r))"

lemma row_typed_intros:
  "status_typed (ec_LastStatus c) \<Longrightarrow> cursor_typed (cursor_row_of c)"
  "credential_typed \<lparr>ar_user_id = u, ar_username = name, ar_encrypted = enc, ar_expires_at = format_rfc3339 e,
     ar_connected_at = format_rfc3339 t\<rparr>"
  by (auto simp: cursor_typed_def cursor_row_of_def credential_typed_def)

lemma set_sql_upsert: "set (sql_upsert key r rows) \<subseteq> insert r (set rows)"
  by (induction rows) auto

lemma exec_typed:
  assumes "rows_typed d" "\<And>x. rows_typed x \<Longrightarrow> rows_typed (f x)"
  shows "rows_typed (snd (db_exec f d))"
proof (cases rule: db_stmt_cases [of d])
  case (ok d')
  then have "rows_typed d'" using assms(1) by (simp add: rows_typed_def)
  then show ?thesis using ok assms(2) by (simp add: db_exec_def)
qed (use assms(1) in \<open>simp add: db_exec_def rows_typed_def\<close>)

lemma evolves_typed: "db_evolves g U A d d' \<Longrightarrow> rows_typed d \<Longrightarrow> rows_typed d'"
proof (induction rule: db_evolves.induct)
  case (read d d1 d2)
  from read(3) [OF read(4)] show ?case using read(2) by (simp add: same_tables_def rows_typed_def)
next
  case (index d d1 e)
  from index(3) [OF index(4)] show ?case
    unfolding UpsertTriggerIndexEntry_def
    by (rule exec_typed) (use index(2) in \<open>auto simp: rows_typed_def trigger_index_upsert_def dest!: subsetD [OF set_sql_upsert]\<close>)
next
  case (unindex d d1 i)
  from unindex(2) [OF unindex(3)] show ?case
    unfolding DeleteTriggerIndexEntry_def
    by (rule exec_typed) (auto simp: rows_typed_def trigger_index_delete_def sql_delete_def)
next
  case (cursor d d1 c)
  from cursor(4) [OF cursor(5)] show ?case
    unfolding UpsertEventCursor_def
    by (rule exec_typed) (use cursor(3) in \<open>auto simp: rows_typed_def event_cursors_upsert_def row_typed_intros
      dest!: subsetD [OF set_sql_upsert]\<close>)
next
  case (no_cursors d d1 u)
  from no_cursors(3) [OF no_cursors(4)] show ?case
    unfolding DeleteEventCursors_def by (rule exec_typed) (auto simp: rows_typed_def sql_delete_def)
next
  case (credential d d1 a n)
  then have t: "rows_typed d1" by blast
  have row: "rows_typed x \<Longrightarrow> rows_typed (x\<lparr>db_automations := automations_upsert
      \<lparr>ar_user_id = u, ar_username = name, ar_encrypted = enc, ar_expires_at = format_rfc3339 e,
       ar_connected_at = format_rfc3339 c\<rparr> (db_automations x)\<rparr>)" for x u name enc e c
    by (auto simp: rows_typed_def automations_upsert_def row_typed_intros dest!: subsetD [OF set_sql_upsert])
  show ?case
    unfolding UpsertAutomation_def
    by (cases "Seal g (db_box d1) n (am_AppPassword a)") (simp_all add: t exec_typed [OF t row])
next
  case (forget d d1 u)
  from forget(3) [OF forget(4)] show ?case
    unfolding DeleteAutomation_def
    by (rule exec_typed) (auto simp: rows_typed_def automations_delete_def sql_delete_def)
qed simp

section \<open>Stored credentials\<close>

text \<open>Every credential that can be decrypted satisfies \<open>P\<close> of its user, username and password.\<close>

definition creds_all :: "gcm \<Rightarrow> (string \<Rightarrow> string \<Rightarrow> string \<Rightarrow> bool) \<Rightarrow> DB \<Rightarrow> bool" where
  "creds_all g P d = (\<forall>r \<in> set (db_automations d). \<forall>a. scan_automation g (db_box d) r = Inr a \<longrightarrow>
     P (am_UserID a) (am_Username a) (am_AppPassword a))"

lemma creds_all_exec:
  assumes "creds_all g P d" "\<And>x. creds_all g P x \<Longrightarrow> db_box x = db_box d \<Longrightarrow> creds_all g P (f x)"
  shows "creds_all g P (snd (db_exec f d))"
proof (cases rule: db_stmt_cases [of d])
  case (ok d')
  then have "creds_all g P d'" using assms(1) by (simp add: creds_all_def)
  then show ?thesis using ok assms(2) by (simp add: db_exec_def)
qed (use assms(1) in \<open>simp add: db_exec_def creds_all_def\<close>)

lemma creds_all_other:
  assumes "creds_all g P d"
  shows "creds_all g P (snd (UpsertTriggerIndexEntry e d))" "creds_all g P (snd (DeleteTriggerIndexEntry i d))"
    "creds_all g P (snd (UpsertEventCursor c d))" "creds_all g P (snd (DeleteEventCursors u d))"
  unfolding UpsertTriggerIndexEntry_def DeleteTriggerIndexEntry_def UpsertEventCursor_def DeleteEventCursors_def
  by (rule creds_all_exec [OF assms], simp add: creds_all_def)+

lemma creds_all_upsert:
  assumes "gcm_ok g" "creds_all g P d" "P (am_UserID a) (am_Username a) (am_AppPassword a)"
    "\<And>x. n = Inr x \<Longrightarrow> length x = NonceSize"
  shows "creds_all g P (snd (UpsertAutomation g n a d))"
proof (cases "Seal g (db_box d) n (am_AppPassword a)")
  case (Inl e)
  then show ?thesis using assms(2) by (simp add: UpsertAutomation_def)
next
  case (Inr enc)
  then obtain x where x: "n = Inr x" by (cases n) (auto simp: Seal_error)
  have op: "Open g (db_box d) enc = Inr (am_AppPassword a)"
    using Open_Seal [OF assms(1) assms(4) [OF x]] Inr x by simp
  show ?thesis
    unfolding UpsertAutomation_def Inr sum.case
  proof (rule creds_all_exec [OF assms(2)])
    fix y assume "creds_all g P y" "db_box y = db_box d"
    then show "creds_all g P (y\<lparr>db_automations := automations_upsert \<lparr>ar_user_id = am_UserID a, ar_username = am_Username a,
        ar_encrypted = enc, ar_expires_at = format_rfc3339 (am_ExpiresAt a),
        ar_connected_at = format_rfc3339 (am_ConnectedAt a)\<rparr> (db_automations y)\<rparr>)"
      using assms(3) op
      by (auto simp: creds_all_def automations_upsert_def scan_automation_def dest!: subsetD [OF set_sql_upsert])
  qed
qed

lemma evolves_creds:
  assumes "gcm_ok g" "\<And>n a. A n a \<Longrightarrow> P (am_UserID a) (am_Username a) (am_AppPassword a)"
    "\<And>n a x. A n a \<Longrightarrow> n = Inr x \<Longrightarrow> length x = NonceSize"
  shows "db_evolves g U A d d' \<Longrightarrow> creds_all g P d \<Longrightarrow> creds_all g P d'"
proof (induction rule: db_evolves.induct)
  case (credential d d1 a n)
  then show ?case using creds_all_upsert [OF assms(1)] assms(2,3) by blast
next
  case (forget d d1 u)
  have "creds_all g P d1" using forget by blast
  then show ?case
    unfolding DeleteAutomation_def by (rule creds_all_exec) (auto simp: creds_all_def automations_delete_def sql_delete_def)
next
  case (read d d1 d2)
  then show ?case by (simp add: same_tables_def creds_all_def)
qed (simp_all add: creds_all_other)

lemma scan_automations_set:
  "scan_automations g b rs = Inr as \<Longrightarrow> a \<in> set as \<Longrightarrow> \<exists>r\<in>set rs. scan_automation g b r = Inr a"
  by (induction rs arbitrary: as) (auto split: sum.splits)

lemma creds_all_get:
  assumes "creds_all g P d" "GetAutomation g u d = (Inr a, d')"
  shows "am_UserID a = u \<and> P u (am_Username a) (am_AppPassword a)"
proof (cases rule: db_stmt_cases [of d])
  case (ok d1)
  obtain r where r: "automations_row (db_automations d) u = Some r" "scan_automation g (db_box d) r = Inr a"
    using assms(2) ok by (auto simp: GetAutomation_def db_query_def split: option.splits sum.splits)
  have "r \<in> set (db_automations d)" "ar_user_id r = u"
    using r(1) by (auto simp: automations_row_def dest: sql_first_SomeD)
  moreover have "am_UserID a = ar_user_id r" using r(2) by (auto simp: scan_automation_def split: sum.splits)
  ultimately show ?thesis using assms(1) r(2) by (auto simp: creds_all_def)
next
  case (fault e d1)
  then show ?thesis using assms(2) by (simp add: GetAutomation_def db_query_def)
qed

lemma creds_all_list:
  assumes "creds_all g P d" "ListAutomations g d = (Inr as, d')" "a \<in> set as"
  shows "P (am_UserID a) (am_Username a) (am_AppPassword a)"
proof (cases rule: db_stmt_cases [of d])
  case (ok d1)
  then show ?thesis
    using assms by (auto simp: ListAutomations_def db_query_def creds_all_def dest!: scan_automations_set)
next
  case (fault e d1)
  then show ?thesis using assms(2) by (simp add: ListAutomations_def db_query_def)
qed

end
