(* ===== verification/ServiceHandlers.thy ===== *)
theory ServiceHandlers
  imports WorkflowsHandler AutomationService DbEvolution
begin

text \<open>
  backend/pkg/service/automation.go and spaces.go: the REST handlers for a user's automation and for
  the list of spaces. They act on the same shared state as the workflow handlers. The automation
  service behind the interface is the one of AutomationService.
\<close>

section \<open>Automation\<close>

record 'w AutomationHandler =
  ah_automation :: "'w Service"
  ah_Me :: "string \<Rightarrow> 'w \<Rightarrow> string result \<times> 'w"
  ah_codec :: codec

definition NewAutomationHandler :: "'w Service \<Rightarrow> (string \<Rightarrow> 'w \<Rightarrow> string result \<times> 'w) \<Rightarrow> codec \<Rightarrow> 'w AutomationHandler" where
  "NewAutomationHandler automation users c = \<lparr>ah_automation = automation, ah_Me = users, ah_codec = c\<rparr>"

definition Automation_Get :: "'w AutomationHandler \<Rightarrow> (shared, 'w) handler" where
  "Automation_Get h = with_token (ah_codec h) (\<lambda>token r st w.
     (case ah_Me h (Bearer token) w of
        (Inl err, w1) \<Rightarrow> (writeError (ah_codec h) 502 ''ocisUnavailable'' ''could not resolve current user'', st, w1)
      | (Inr userID, w1) \<Rightarrow>
          (case st of (db, m) \<Rightarrow>
            (case Status (ah_automation h) userID db w1 of
               (Inl err, db1, w2) \<Rightarrow>
                 (writeError (ah_codec h) 502 ''automationUnavailable'' ''could not read automation status'', (db1, m), w2)
             | (Inr status, db1, w2) \<Rightarrow> (writeJSON (ah_codec h) 200 (enc_AutomationStatus status), (db1, m), w2)))))"

definition Automation_Connect :: "'w AutomationHandler \<Rightarrow> (shared, 'w) handler" where
  "Automation_Connect h = with_token (ah_codec h) (\<lambda>token r st w.
     (case st of (db, m) \<Rightarrow>
       (case Connect (ah_automation h) (Bearer token) m db w of
          (Inl err, m1, db1, w1) \<Rightarrow>
            (writeError (ah_codec h) 502 ''automationUnavailable'' (''could not enable automation: '' @ error_text err),
             (db1, m1), w1)
        | (Inr status, m1, db1, w1) \<Rightarrow> (writeJSON (ah_codec h) 200 (enc_AutomationStatus status), (db1, m1), w1))))"

definition Automation_Disconnect :: "'w AutomationHandler \<Rightarrow> (shared, 'w) handler" where
  "Automation_Disconnect h = with_token (ah_codec h) (\<lambda>token r st w.
     (case st of (db, m) \<Rightarrow>
       (case Disconnect (ah_automation h) (Bearer token) db w of
          (Inl err, db1, w1) \<Rightarrow>
            (writeError (ah_codec h) 502 ''automationUnavailable'' ''could not disable automation'', (db1, m), w1)
        | (Inr _, db1, w1) \<Rightarrow> (writeHeader 204 [], (db1, m), w1))))"

section \<open>Spaces\<close>

record 'w SpacesHandler =
  sh_ListDrives :: "string \<Rightarrow> 'w \<Rightarrow> Drive list result \<times> 'w"
  sh_codec :: codec

definition NewSpacesHandler :: "(string \<Rightarrow> 'w \<Rightarrow> Drive list result \<times> 'w) \<Rightarrow> codec \<Rightarrow> 'w SpacesHandler" where
  "NewSpacesHandler drives c = \<lparr>sh_ListDrives = drives, sh_codec = c\<rparr>"

text \<open>The loop over the drives.\<close>

fun spaces_of :: "Drive list \<Rightarrow> Space list" where
  "spaces_of [] = []"
| "spaces_of (d # ds) =
     (if dr_DriveType d = ''virtual'' then spaces_of ds
      else \<lparr>sp_ID = dr_ID d, sp_Name = dr_Name d\<rparr> # spaces_of ds)"

definition Spaces_List :: "'w SpacesHandler \<Rightarrow> (shared, 'w) handler" where
  "Spaces_List h = with_token (sh_codec h) (\<lambda>token r st w.
     (case sh_ListDrives h (Bearer token) w of
        (Inl err, w1) \<Rightarrow> (writeError (sh_codec h) 502 ''ocisUnavailable'' ''could not list spaces'', st, w1)
      | (Inr drives, w1) \<Rightarrow> (writeJSON (sh_codec h) 200 (enc_Collection enc_Space (spaces_of drives)), st, w1)))"

lemma spaces_of_filter:
  "spaces_of ds = map (\<lambda>d. \<lparr>sp_ID = dr_ID d, sp_Name = dr_Name d\<rparr>) (filter (\<lambda>d. dr_DriveType d \<noteq> ''virtual'') ds)"
  by (induction ds) auto

section \<open>The service as database changes\<close>

text \<open>The users oCIS may name as the bearer of an authorization header.\<close>

definition identities :: "'w Service \<Rightarrow> string \<Rightarrow> string set" where
  "identities s authHeader = {u. \<exists>w w'. gr_Me (sv_graph s) authHeader w = (Inr u, w')}"

text \<open>
  Where a stored password of a user may come from: oCIS minted it for an authorization header whose bearer
  it names as that user, or for the credential stored before.
\<close>

definition mints :: "'w Service \<Rightarrow> string \<Rightarrow> string \<Rightarrow> bool" where
  "mints s authHeader password =
     (\<exists>w e w'. gr_MintAppPassword (sv_graph s) authHeader defaultExpiry tokenLabel w = (Inr (password, e), w'))"

inductive own_credential :: "'w Service \<Rightarrow> string \<Rightarrow> string \<Rightarrow> string \<Rightarrow> bool" for s where
  connected: "u \<in> identities s authHeader \<Longrightarrow> gr_Username (sv_graph s) authHeader w = (Inr name, w') \<Longrightarrow>
    mints s authHeader password \<Longrightarrow> own_credential s u name password"
| renewed: "own_credential s u name password \<Longrightarrow>
    mints s (''Basic '' @ EncodeToString (name @ '':'' @ password)) password' \<Longrightarrow> own_credential s u name password'"

text \<open>What the service stores: such a credential, encrypted with a nonce of the platform.\<close>

definition stored_by :: "'w Service \<Rightarrow> string result \<Rightarrow> Automation \<Rightarrow> bool" where
  "stored_by s nonce a = (own_credential s (am_UserID a) (am_Username a) (am_AppPassword a)
     \<and> (\<exists>w w'. pf_Nonce (sv_platform s) w = (nonce, w')))"

abbreviation service_evolves :: "'w Service \<Rightarrow> string set \<Rightarrow> DB \<Rightarrow> DB \<Rightarrow> bool" where
  "service_evolves s U \<equiv> db_evolves (sv_gcm s) U (stored_by s)"

lemma Status_evolves: "Status s u db w = (r, db', w') \<Longrightarrow> db_evolves g U A db db'"
  unfolding Status_def
  by (auto split: sum.splits prod.splits if_splits dest: evolves_queries(1,6) intro: evolves_trans
      elim!: evolves_queries(1))

lemma Connect_evolves:
  assumes "Connect s a m db w = (r, m', db', w')"
  shows "service_evolves s (identities s a) db db'"
proof -
  have up: "service_evolves s (identities s a) db db1"
    if "UpsertAutomation (sv_gcm s) n \<lparr>am_UserID = u, am_Username = name, am_AppPassword = token,
        am_ExpiresAt = e, am_ConnectedAt = now\<rparr> db = (q, db1)"
      "gr_Me (sv_graph s) a w = (Inr u, w1)" "gr_Username (sv_graph s) a w1 = (Inr name, w2)"
      "gr_MintAppPassword (sv_graph s) a defaultExpiry tokenLabel w2 = (Inr (token, e), w3)"
      "pf_Nonce (sv_platform s) w4 = (n, w5)" for n u name token e now q db1 w1 w2 w3 w4 w5
  proof -
    have u: "u \<in> identities s a" using that(2) by (auto simp: identities_def)
    have "mints s a token" using that(4) by (auto simp: mints_def)
    then have "stored_by s n \<lparr>am_UserID = u, am_Username = name, am_AppPassword = token, am_ExpiresAt = e, am_ConnectedAt = now\<rparr>"
      using that(5) connected [OF u that(3)] by (auto simp: stored_by_def)
    then show ?thesis using evolves_op [OF that(1) evolves_writes(5)] u by simp
  qed
  show ?thesis
    using assms unfolding Connect_def by (auto simp: Let_def split: sum.splits prod.splits dest: up)
qed

lemma Disconnect_evolves:
  assumes "Disconnect s a db w = (r, db', w')"
  shows "service_evolves s (identities s a) db db'"
proof (cases "gr_Me (sv_graph s) a w")
  case (Pair me w1)
  show ?thesis
  proof (cases me)
    case (Inl err)
    then show ?thesis using assms Pair by (simp add: Disconnect_def)
  next
    case (Inr u)
    have u: "u \<in> identities s a" using Pair Inr by (auto simp: identities_def)
    obtain g db1 where g: "GetAutomation (sv_gcm s) u db = (g, db1)" by fastforce
    obtain d db2 where d: "DeleteAutomation u db1 = (d, db2)" by fastforce
    obtain c db3 where c: "DeleteEventCursors u db2 = (c, db3)" by fastforce
    have "db' \<in> {db1, db2, db3}"
      using assms Pair Inr g d c by (auto simp: Disconnect_def split: sum.splits prod.splits if_splits)
    moreover have e1: "service_evolves s (identities s a) db db1" by (rule evolves_queries(1) [OF g])
    moreover have e2: "service_evolves s (identities s a) db db2"
      using db_evolves.forget [OF e1 u] d by simp
    moreover have "service_evolves s (identities s a) db db3"
      using db_evolves.no_cursors [OF e2 u] c by simp
    ultimately show ?thesis by auto
  qed
qed

section \<open>The handlers as database changes\<close>

lemma trigger_entry_typed: "indexed flow \<Longrightarrow> entry_typed (trigger_entry u flow)"
  by (auto simp: entry_typed_def trigger_entry_def indexed_def Let_def split: option.splits)

lemma syncTriggerIndex_evolves:
  "syncTriggerIndex h a flow (db, m) w = ((db', m'), w') \<Longrightarrow> db_evolves g U A db db' \<and> (m' = m \<or> m' = Kick m)"
  unfolding syncTriggerIndex_def
  by (auto split: sum.splits prod.splits if_splits elim!: evolves_op [OF _ evolves_writes(1)]
      simp: evolves_writes trigger_entry_typed)

text \<open>
  Every handler of the API: the state it leaves, for a request with this token in its context. The
  SSE manager is left alone or kicked.
\<close>

definition shared_evolves :: "'w Service \<Rightarrow> string set \<Rightarrow> shared \<Rightarrow> shared \<Rightarrow> bool" where
  "shared_evolves s U st st' = (service_evolves s U (fst st) (fst st') \<and> (snd st' = snd st \<or> snd st' = Kick (snd st)))"

lemma shared_refl [simp]: "shared_evolves s U st st"
  by (simp add: shared_evolves_def)

lemma workflow_handlers_evolve:
  assumes "H \<in> set (handlers h)" "H ctx r st w = (res, st', w')"
  shows "shared_evolves s U st st'"
proof -
  obtain db m where st: "st = (db, m)" by fastforce
  consider "st' = st" | token flow w1 w2 where "syncTriggerIndex h (Bearer token) flow st w1 = (st', w2)"
    | i where "st' = (snd (DeleteTriggerIndexEntry i db), m)"
    using assms st unfolding handlers_def
    by (auto simp: handler_defs with_token_def Let_def split: option.splits sum.splits prod.splits if_splits)
  then show ?thesis
  proof cases
    case 2
    then show ?thesis using st syncTriggerIndex_evolves [of h "Bearer token" flow db m w1 "fst st'" "snd st'" w2]
      by (simp add: shared_evolves_def)
  next
    case 3
    then show ?thesis by (simp add: shared_evolves_def st evolves_writes)
  qed simp
qed

lemma automation_handlers_evolve:
  assumes "H \<in> {Automation_Get h, Automation_Connect h, Automation_Disconnect h, Spaces_List sh}"
    "H ctx r st w = (res, st', w')"
  shows "st' = st \<or> (\<exists>token. TokenFromContext ctx = Some token \<and> shared_evolves (ah_automation h) (identities (ah_automation h) (Bearer token)) st st')"
proof (cases "TokenFromContext ctx")
  case None
  then show ?thesis using assms
    by (auto simp: Automation_Get_def Automation_Connect_def Automation_Disconnect_def Spaces_List_def with_token_def)
next
  case (Some token)
  obtain db m where st: "st = (db, m)" by fastforce
  consider "st' = st" | u w1 q db1 w2 where "Status (ah_automation h) u db w1 = (q, db1, w2)" "st' = (db1, m)"
    | q m1 db1 w2 where "Connect (ah_automation h) (Bearer token) m db w = (q, m1, db1, w2)" "st' = (db1, m1)"
    | q db1 w2 where "Disconnect (ah_automation h) (Bearer token) db w = (q, db1, w2)" "st' = (db1, m)"
    using assms Some st
    by (auto simp: Automation_Get_def Automation_Connect_def Automation_Disconnect_def Spaces_List_def with_token_def
        split: sum.splits prod.splits)
  then show ?thesis
  proof cases
    case 2
    then show ?thesis using Some st Status_evolves [OF 2(1)] by (simp add: shared_evolves_def)
  next
    case 3
    have "m1 = m \<or> m1 = Kick m" using 3(1) unfolding Connect_def by (auto simp: Let_def split: sum.splits prod.splits)
    then show ?thesis using Some st 3(2) Connect_evolves [OF 3(1)] by (simp add: shared_evolves_def)
  next
    case 4
    then show ?thesis using Some st Disconnect_evolves [OF 4(1)] by (simp add: shared_evolves_def)
  qed simp
qed

end
