(* ===== verification/HttpServer.thy ===== *)
theory HttpServer
  imports ServiceHandlers
begin

text \<open>
  backend/pkg/server/http: the public router. The routing library (chi) and the CORS middleware are
  parameters, the record \<open>mux\<close>: what CORS answers by itself or adds to a response, the
  rest of a path below the mount point, and which route of a table a method and a path select, with the path
  parameters found. The table of routes, the mount point and what stands before a handler are the program's.
  Request ids, the recovery of panics and the deadline do not show in a response and are left out.
\<close>

record mux =
  mx_Cors :: "string \<Rightarrow> string \<Rightarrow> ApiRequest \<Rightarrow> ApiResponse option \<times> vars"
  mx_Mount :: "string \<Rightarrow> string \<Rightarrow> string option"
  mx_Route :: "(string \<times> string) list \<Rightarrow> string \<Rightarrow> string \<Rightarrow> ApiResponse + nat \<times> vars"
  mx_NotFound :: ApiResponse

record 'w Options =
  op_AllowedOrigin :: string
  op_Validator :: "'w Validator"
  op_Workflows :: "'w WorkflowsHandler"
  op_Automation :: "'w AutomationHandler"
  op_Spaces :: "'w SpacesHandler"

text \<open>The routes below \<^verbatim>\<open>/api/v1beta1\<close>: method, pattern and handler.\<close>

definition routes :: "'w Options \<Rightarrow> ((string \<times> string) \<times> (shared, 'w) handler) list" where
  "routes opts =
     [((''GET'', ''/me/workflows/''), Handler_List (op_Workflows opts)),
      ((''POST'', ''/me/workflows/''), Handler_Create (op_Workflows opts)),
      ((''GET'', ''/me/workflows/{id}/''), Handler_Get (op_Workflows opts)),
      ((''PATCH'', ''/me/workflows/{id}/''), Handler_Patch (op_Workflows opts)),
      ((''DELETE'', ''/me/workflows/{id}/''), Handler_Delete (op_Workflows opts)),
      ((''POST'', ''/me/workflows/{id}/run''), Handler_Run (op_Workflows opts)),
      ((''GET'', ''/me/workflows/{id}/executions/''), Handler_ListExecutions (op_Workflows opts)),
      ((''GET'', ''/me/workflows/{id}/executions/{execId}''), Handler_GetExecution (op_Workflows opts)),
      ((''GET'', ''/me/automation/''), Automation_Get (op_Automation opts)),
      ((''POST'', ''/me/automation/''), Automation_Connect (op_Automation opts)),
      ((''DELETE'', ''/me/automation/''), Automation_Disconnect (op_Automation opts)),
      ((''GET'', ''/me/spaces/''), Spaces_List (op_Spaces opts))]"

text \<open>The router of the mounted part: the handler of the route selected, or the library's own answer.\<close>

definition api_router :: "mux \<Rightarrow> 'w Options \<Rightarrow> string \<Rightarrow> string \<Rightarrow> (shared, 'w) handler" where
  "api_router mx opts method path ctx r st w =
     (case mx_Route mx (map fst (routes opts)) method path of
        Inl res \<Rightarrow> (res, st, w)
      | Inr (i, params) \<Rightarrow>
          if i < length (routes opts) then snd (routes opts ! i) ctx (r\<lparr>rr_Params := params\<rparr>) st w
          else (mx_NotFound mx, st, w))"

definition with_headers :: "vars \<Rightarrow> ApiResponse \<Rightarrow> ApiResponse" where
  "with_headers hs res = res\<lparr>rp_Header := hs @ rp_Header res\<rparr>"

definition serve :: "mux \<Rightarrow> 'w Options \<Rightarrow> string \<Rightarrow> string \<Rightarrow> ApiRequest \<Rightarrow> string \<Rightarrow> shared \<Rightarrow> 'w
    \<Rightarrow> ApiResponse \<times> string \<times> shared \<times> 'w" where
  "serve mx opts method path r cached st w =
     (case mx_Cors mx (op_AllowedOrigin opts) method r of
        (Some res, hs) \<Rightarrow> (res, cached, st, w)
      | (None, hs) \<Rightarrow>
          (case mx_Mount mx ''/api/v1beta1'' path of
             None \<Rightarrow> (with_headers hs (mx_NotFound mx), cached, st, w)
           | Some below \<Rightarrow>
               (case Middleware (op_Validator opts) (api_router mx opts method below) r cached st w of
                  (res, cached1, st1, w1) \<Rightarrow> (with_headers hs res, cached1, st1, w1))))"

section \<open>What a request may change\<close>

lemma TokenFromContext_Some: "TokenFromContext (Some token) = Some t \<Longrightarrow> t = token"
  by (simp add: TokenFromContext_def split: if_splits)

lemma routes_evolve:
  assumes "H \<in> snd ` set (routes opts)" "H ctx r st w = (res, st', w')"
  shows "st' = st \<or> (\<exists>token. TokenFromContext ctx = Some token
    \<and> shared_evolves (ah_automation (op_Automation opts)) (identities (ah_automation (op_Automation opts)) (Bearer token)) st st')"
proof -
  have "H \<in> set (handlers (op_Workflows opts)) \<or> H \<in> {Automation_Get (op_Automation opts), Automation_Connect (op_Automation opts),
      Automation_Disconnect (op_Automation opts), Spaces_List (op_Spaces opts)}"
    using assms(1) by (simp add: routes_def handlers_def)
  then show ?thesis
  proof
    assume h: "H \<in> set (handlers (op_Workflows opts))"
    show ?thesis
    proof (cases "TokenFromContext ctx")
      case None
      then have "st' = st" using h assms(2) by (auto simp: handlers_def handler_defs with_token_def)
      then show ?thesis by simp
    next
      case (Some token)
      then show ?thesis using workflow_handlers_evolve [OF h assms(2)] by blast
    qed
  qed (rule automation_handlers_evolve [of H, OF _ assms(2)])
qed

lemma api_router_evolves:
  assumes "api_router mx opts method path (Some token) r st w = (res, st', w')"
  shows "st' = st \<or> shared_evolves (ah_automation (op_Automation opts)) (identities (ah_automation (op_Automation opts)) (Bearer token)) st st'"
proof (cases "mx_Route mx (map fst (routes opts)) method path")
  case (Inl x)
  then show ?thesis using assms by (simp add: api_router_def)
next
  case (Inr ip)
  obtain i params where ip: "ip = (i, params)" by fastforce
  show ?thesis
  proof (cases "i < length (routes opts)")
    case True
    then have "snd (routes opts ! i) (Some token) (r\<lparr>rr_Params := params\<rparr>) st w = (res, st', w')"
      "snd (routes opts ! i) \<in> snd ` set (routes opts)"
      using assms Inr ip by (simp_all add: api_router_def)
    then show ?thesis using routes_evolve [of "snd (routes opts ! i)" opts "Some token"] by (metis TokenFromContext_Some)
  next
    case False
    then show ?thesis using assms Inr ip by (simp add: api_router_def)
  qed
qed

text \<open>
  Whatever the method, path and request: if the database or the manager is not as before, the request
  carried a token that the identity provider accepted during it, and the change is one that the token's bearer may make.
\<close>

lemma serve_evolves:
  assumes "serve mx opts method path r cached st w = (res, cached', st', w')"
  shows "st' = st \<or> (\<exists>token w1 w2. token \<noteq> [] \<and> rr_Authorization r = Bearer token
    \<and> OriginAllowed (op_Validator opts) (rr_Origin r) \<and> accepted_by (op_Validator opts) cached' token w1 w2
    \<and> shared_evolves (ah_automation (op_Automation opts)) (identities (ah_automation (op_Automation opts)) (Bearer token)) st st')"
proof -
  obtain own hs where cors: "mx_Cors mx (op_AllowedOrigin opts) method r = (own, hs)" by fastforce
  show ?thesis
  proof (cases "own \<noteq> None \<or> mx_Mount mx ''/api/v1beta1'' path = None")
    case True
    then show ?thesis using assms cors by (auto simp: serve_def split: option.splits)
  next
    case False
    then obtain below where b: "own = None" "mx_Mount mx ''/api/v1beta1'' path = Some below" by auto
    obtain res1 where m: "Middleware (op_Validator opts) (api_router mx opts method below) r cached st w = (res1, cached', st', w')"
      using assms cors b by (auto simp: serve_def split: prod.splits)
    have c: "st' = st \<or> (\<exists>token w1 w2. OriginAllowed (op_Validator opts) (rr_Origin r) \<and> token \<noteq> []
        \<and> rr_Authorization r = ''Bearer '' @ token \<and> accepted_by (op_Validator opts) cached' token w1 w2
        \<and> api_router mx opts method below (Some token) r st w2 = (res1, st', w'))"
      using Middleware_cases [where v = "op_Validator opts" and next_handler = "api_router mx opts method below"
          and r = r and cached = cached and st = st and w = w] m by auto
    show ?thesis
    proof (cases "st' = st")
      case False
      then obtain token w1 w2 where t: "OriginAllowed (op_Validator opts) (rr_Origin r)" "token \<noteq> []"
        "rr_Authorization r = Bearer token" "accepted_by (op_Validator opts) cached' token w1 w2"
        "api_router mx opts method below (Some token) r st w2 = (res1, st', w')"
        using c unfolding Bearer_def by blast
      then show ?thesis using api_router_evolves [OF t(5)] by blast
    qed simp
  qed
qed

text \<open>
  C6. Users are isolated: whatever the method, the path and the request, the database stays well
  formed, the SSE manager is left alone or kicked, and if what the database holds about a user
  (the credential, the cursors) changes, then the request came from an allowed origin with a token that the
  identity provider accepted during it, and that user is one whom oCIS names as the bearer of this token.
\<close>

theorem api_isolates_users:
  assumes "db_ok db" "serve mx opts method path r cached (db, m) w = (res, cached', (db', m'), w')"
  shows "db_ok db' \<and> (m' = m \<or> m' = Kick m) \<and>
    (\<forall>v. private_part v db' \<noteq> private_part v db \<longrightarrow>
       (\<exists>token w1 w2. token \<noteq> [] \<and> rr_Authorization r = Bearer token \<and> OriginAllowed (op_Validator opts) (rr_Origin r)
          \<and> accepted_by (op_Validator opts) cached' token w1 w2
          \<and> v \<in> identities (ah_automation (op_Automation opts)) (Bearer token)))"
proof -
  let ?U = "\<lambda>token. identities (ah_automation (op_Automation opts)) (Bearer token)"
  consider "db' = db" "m' = m" | token w1 w2 where "token \<noteq> []" "rr_Authorization r = Bearer token"
      "OriginAllowed (op_Validator opts) (rr_Origin r)" "accepted_by (op_Validator opts) cached' token w1 w2"
      "service_evolves (ah_automation (op_Automation opts)) (?U token) db db'" "m' = m \<or> m' = Kick m"
    using serve_evolves [OF assms(2)] unfolding shared_evolves_def by auto
  then show ?thesis
  proof cases
    case (2 token w1 w2)
    have "v \<in> ?U token" if "private_part v db' \<noteq> private_part v db" for v
      using evolves_private [OF 2(5) assms(1)] that by blast
    then show ?thesis using 2 evolves_ok [OF 2(5) assms(1)] by blast
  qed (use assms(1) in simp)
qed

end
