(* ===== verification/WebdavServer.thy ===== *)
theory WebdavServer
  imports WebdavStore
begin

text \<open>
  What the store promises of a WebDAV server that does what RFC 4918 says. The contract
  \<open>dav_server\<close> describes the server of a user in normal operation through a view of the world as
  a tree of collections and files, keyed by URL; the lemmas give the result of every store operation
  on that tree, and the properties the round trips and the listings. A small server at the end,
  whose world is such a tree, satisfies the contract.
\<close>

section \<open>The contract\<close>

datatype dav_node = Collection | File string

type_synonym dav_tree = "string \<Rightarrow> dav_node option"

text \<open>The collection a URL is in.\<close>

definition parent_url :: "string \<Rightarrow> string" where
  "parent_url url = (case LastIndex (CHR 0x2F) url of None \<Rightarrow> [] | Some n \<Rightarrow> take n url)"

text \<open>The status and the tree after a request; MKCOL and PUT need the collection they write into.\<close>

definition dav_effect :: "Request \<Rightarrow> dav_tree \<Rightarrow> int \<times> dav_tree" where
  "dav_effect req t =
     (let url = rq_URL req; there = (t (parent_url url) = Some Collection) in
      if rq_Method req = ''MKCOL''
      then (if t url \<noteq> None then (405, t) else if there then (201, t(url \<mapsto> Collection)) else (409, t))
      else if rq_Method req = ''PUT''
      then (if t url = Some Collection \<or> \<not> there then (409, t)
            else (if t url = None then 201 else 204, t(url \<mapsto> File (rq_Body req))))
      else if rq_Method req = ''GET''
      then (case t url of Some (File b) \<Rightarrow> (200, t) | Some Collection \<Rightarrow> (501, t) | None \<Rightarrow> (404, t))
      else if rq_Method req = ''DELETE''
      then (case t url of Some (File b) \<Rightarrow> (204, t(url := None)) | Some Collection \<Rightarrow> (501, t) | None \<Rightarrow> (404, t))
      else if rq_Method req = ''PROPFIND''
      then (if t url = Some Collection then (207, t) else (404, t))
      else if rq_Method req = ''MOVE'' \<or> rq_Method req = ''COPY''
      then (let dst = vget (rq_Header req) ''Destination'' in
        case t url of None \<Rightarrow> (404, t) | Some Collection \<Rightarrow> (501, t)
        | Some (File b) \<Rightarrow>
            if dst = url then (403, t)
            else if t (parent_url dst) \<noteq> Some Collection then (409, t)
            else if t dst \<noteq> None \<and> (vget (rq_Header req) ''Overwrite'' = ''F'' \<or> t dst = Some Collection) then (412, t)
            else (if t dst = None then 201 else 204,
                  (if rq_Method req = ''MOVE'' then t(url := None) else t)(dst \<mapsto> File b)))
      else (501, t))"

text \<open>
  The requests the contract speaks of. Nothing is promised of reading, deleting, moving or copying a collection, of a
  listing of a file, or of a move or copy that may overwrite; the last answers above are then those of the small server only.
\<close>

definition in_contract :: "Request \<Rightarrow> dav_tree \<Rightarrow> bool" where
  "in_contract req t =
     (rq_Method req = ''MKCOL'' \<or> rq_Method req = ''PUT''
      \<or> ((rq_Method req = ''GET'' \<or> rq_Method req = ''DELETE'') \<and> t (rq_URL req) \<noteq> Some Collection)
      \<or> (rq_Method req = ''PROPFIND'' \<and> (t (rq_URL req) = None \<or> t (rq_URL req) = Some Collection))
      \<or> ((rq_Method req = ''MOVE'' \<or> rq_Method req = ''COPY'') \<and> t (rq_URL req) \<noteq> Some Collection
         \<and> vget (rq_Header req) ''Overwrite'' = ''F''))"

definition folder_or_free :: "dav_tree \<Rightarrow> string \<Rightarrow> bool" where
  "folder_or_free t url = (t url = None \<or> t url = Some Collection)"

lemma in_contract_request:
  "in_contract (request ''MKCOL'' url hs b) t" "in_contract (request ''PUT'' url hs b) t"
  "t url \<noteq> Some Collection \<Longrightarrow> in_contract (request ''GET'' url hs b) t"
  "t url \<noteq> Some Collection \<Longrightarrow> in_contract (request ''DELETE'' url hs b) t"
  "folder_or_free t url \<Longrightarrow> in_contract (request ''PROPFIND'' url hs b) t"
  by (simp_all add: in_contract_def folder_or_free_def)

text \<open>
  The body of a reply: a file's bytes, or a listing whose hrefs name the members of a collection.
  Only the names ending in \<^verbatim>\<open>.json\<close> matter here.
\<close>

definition lists_members :: "'w net \<Rightarrow> string \<Rightarrow> dav_tree \<Rightarrow> Response \<Rightarrow> bool" where
  "lists_members nt url t res =
     (\<exists>data doc hrefs. rs_Body res = (data, None) \<and> nt_xml nt data = Inr doc \<and> multistatus_hrefs doc = Inr hrefs
        \<and> distinct (json_names hrefs)
        \<and> set (json_names hrefs) = {n. CHR 0x2F \<notin> set n \<and> HasSuffix n ''.json'' \<and> t (url @ ''/'' @ n) \<noteq> None})"

definition dav_body :: "'w net \<Rightarrow> Request \<Rightarrow> dav_tree \<Rightarrow> Response \<Rightarrow> bool" where
  "dav_body nt req t res =
     ((rq_Method req = ''GET'' \<longrightarrow> (\<forall>b. t (rq_URL req) = Some (File b) \<longrightarrow> rs_Body res = (b, None)))
      \<and> (rq_Method req = ''PROPFIND'' \<longrightarrow> t (rq_URL req) = Some Collection \<longrightarrow> lists_members nt (rq_URL req) t res))"

text \<open>
  The contract for the caller with header \<open>a\<close>, whose user id is \<open>u\<close> and whose files are below \<open>base\<close>:
  oCIS names the user, escaped paths below \<open>base\<close> parse, and requests with the caller's header for a URL below
  \<open>base\<close> that are \<open>in_contract\<close> are answered as above. Nothing is said of other URLs, so the same transport may serve oCIS's other interfaces.
\<close>

definition dav_contract :: "'w net \<Rightarrow> ('w \<Rightarrow> string result \<times> 'w) \<Rightarrow> string \<Rightarrow> string \<Rightarrow> string \<Rightarrow> ('w \<Rightarrow> dav_tree) \<Rightarrow> bool" where
  "dav_contract nt me base a u tree =
     ((\<forall>w. \<exists>w1. me w = (Inr u, w1) \<and> tree w1 = tree w)
      \<and> (\<forall>p. ht_ParseURL (nt_http nt) (base @ ''/'' @ EscapedPath p) = Inr ())
      \<and> (\<forall>req w. vget (rq_Header req) ''Authorization'' = a \<and> HasPrefix (rq_URL req) (base @ ''/'')
           \<and> in_contract req (tree w) \<longrightarrow>
           (\<exists>res w1. ht_Do (nt_http nt) req w = (Inr res, w1)
              \<and> (rs_Status res, tree w1) = dav_effect req (tree w) \<and> dav_body nt req (tree w) res)))"

definition dav_server :: "'w Store \<Rightarrow> string \<Rightarrow> string \<Rightarrow> ('w \<Rightarrow> dav_tree) \<Rightarrow> bool" where
  "dav_server s a u tree =
     dav_contract (st_net s) (Me (st_client s) (st_clientURL s) a) (davBase s u) a u tree"

section \<open>Operations on the tree\<close>

lemma parent_url_append [simp]: "CHR 0x2F \<notin> set n \<Longrightarrow> parent_url (d @ CHR 0x2F # n) = d"
  by (simp add: parent_url_def LastIndex_append)

lemma server_caller:
  "dav_server s a u tree \<Longrightarrow> \<exists>w1. caller s a w = (Inr u, w1) \<and> tree w1 = tree w"
  unfolding dav_server_def dav_contract_def caller_def by (metis wrap_err_simps(2))

definition has_auth :: "string \<Rightarrow> (string \<times> string) list \<Rightarrow> bool" where
  "has_auth a headers = (vget (rq_Header (request [] [] headers [])) ''Authorization'' = a)"

lemma rq_Header_fold:
  "rq_Header (fold (\<lambda>(n, v). Header_Set n v) hs req) = fold (\<lambda>(n, v). vset n v) hs (rq_Header req)"
  by (induction hs arbitrary: req) (auto simp: Header_Set_def)

lemma has_auth_request: "has_auth a hs \<Longrightarrow> vget (rq_Header (request m url hs b)) ''Authorization'' = a"
  by (simp add: has_auth_def request_def rq_Header_fold)

lemma has_auth_bearer [simp]: "has_auth a (bearer a)"
  by (simp add: has_auth_def request_def bearer_def Header_Set_def vget_vset)

lemma has_auth_json [simp]: "has_auth a [(''Authorization'', a), (''Content-Type'', c)]"
    "has_auth a [(''Authorization'', a), (''Content-Type'', c), (''Depth'', d)]"
  by (simp_all add: has_auth_def request_def Header_Set_def vget_vset)

lemma contract_send:
  assumes "dav_contract nt me base a u tree" "url = base @ ''/'' @ EscapedPath p" "has_auth a hs"
    "in_contract (request m url hs b) (tree w)"
  obtains res w1 where "send (nt_http nt) m url hs b w = (Inr res, w1)"
    "rs_Status res = fst (dav_effect (request m url hs b) (tree w))"
    "tree w1 = snd (dav_effect (request m url hs b) (tree w))"
    "dav_body nt (request m url hs b) (tree w) res"
proof -
  have below: "HasPrefix (rq_URL (request m url hs b)) (base @ ''/'')" by (simp add: assms(2) HasPrefix_iff)
  have "ht_ParseURL (nt_http nt) url = Inr ()" using assms(1,2) unfolding dav_contract_def by blast
  then have "send (nt_http nt) m url hs b w = ht_Do (nt_http nt) (request m url hs b) w"
    by (rule send_request)
  moreover obtain res w1 where "ht_Do (nt_http nt) (request m url hs b) w = (Inr res, w1)"
    "(rs_Status res, tree w1) = dav_effect (request m url hs b) (tree w)"
    "dav_body nt (request m url hs b) (tree w) res"
    using assms(1,4) has_auth_request [OF assms(3)] below unfolding dav_contract_def by metis
  ultimately show thesis using that by (metis fst_conv snd_conv)
qed

lemma EscapedPath_plain: "url_plain s \<Longrightarrow> EscapedPath s = s"
proof -
  assume p: "url_plain s"
  have "map (\<lambda>c. if unreserved c \<or> c \<in> set ''$&+,/:;=@'' then [c] else pct c) s = map (\<lambda>c. [c]) s"
    using p by (auto simp: url_plain_def list_all_iff)
  then show "EscapedPath s = s" unfolding EscapedPath_def by (simp only: concat_map_singleton map_ident if_cancel)
qed

lemma server_send:
  assumes "dav_server s a u tree" "url = davBase s u @ ''/'' @ rest" "url_plain rest" "has_auth a hs"
    "in_contract (request m url hs b) (tree w)"
  obtains res w1 where "send (nt_http (st_net s)) m url hs b w = (Inr res, w1)"
    "rs_Status res = fst (dav_effect (request m url hs b) (tree w))"
    "tree w1 = snd (dav_effect (request m url hs b) (tree w))"
    "dav_body (st_net s) (request m url hs b) (tree w) res"
  using contract_send [OF dav_server_def [THEN iffD1, OF assms(1)], of url rest hs] assms(2,4,5)
    EscapedPath_plain [OF assms(3)] by metis

text \<open>Creating collections.\<close>

definition mk_collection :: "string \<Rightarrow> dav_tree \<Rightarrow> dav_tree" where
  "mk_collection url t =
     (if t url = None \<and> t (parent_url url) = Some Collection then t(url \<mapsto> Collection) else t)"

lemma mkcol_tree:
  assumes "dav_server s a u tree" "url_plain rest"
  shows "\<exists>w1. mkcol s a (davBase s u @ ''/'' @ rest) w = (Inr (), w1)
    \<and> tree w1 = mk_collection (davBase s u @ ''/'' @ rest) (tree w)"
proof -
  obtain res w1 where "send (nt_http (st_net s)) ''MKCOL'' (davBase s u @ ''/'' @ rest) (bearer a) [] w = (Inr res, w1)"
    "rs_Status res = fst (dav_effect (request ''MKCOL'' (davBase s u @ ''/'' @ rest) (bearer a) []) (tree w))"
    "tree w1 = snd (dav_effect (request ''MKCOL'' (davBase s u @ ''/'' @ rest) (bearer a) []) (tree w))"
    by (rule server_send [OF assms(1) refl assms(2) has_auth_bearer in_contract_request(1)])
  then show ?thesis by (auto simp: mkcol_def mk_collection_def dav_effect_def Let_def)
qed

lemma mkcols_tree:
  assumes "dav_server s a u tree"
  shows "list_all url_plain rests \<Longrightarrow> \<exists>w1. mkcols s a (davBase s u) rests w = (Inr (), w1)
    \<and> tree w1 = fold (\<lambda>r. mk_collection (davBase s u @ ''/'' @ r)) rests (tree w)"
proof (induction rests arbitrary: w)
  case (Cons r rs)
  obtain w1 where w1: "mkcol s a (davBase s u @ ''/'' @ r) w = (Inr (), w1)"
    "tree w1 = mk_collection (davBase s u @ ''/'' @ r) (tree w)"
    using mkcol_tree [OF assms] Cons.prems by auto
  obtain w2 where "mkcols s a (davBase s u) rs w1 = (Inr (), w2)"
    "tree w2 = fold (\<lambda>r. mk_collection (davBase s u @ ''/'' @ r)) rs (tree w1)"
    using Cons by auto
  then show ?case using w1 by simp
qed simp

text \<open>The folders of the store, and a space they can be created in.\<close>

definition rootURL :: "'w Store \<Rightarrow> string \<Rightarrow> string" where
  "rootURL s u = davBase s u @ CHR 0x2F # rootDir"

definition definitionsURL :: "'w Store \<Rightarrow> string \<Rightarrow> string" where
  "definitionsURL s u = rootURL s u @ CHR 0x2F # definitionsDir"

definition executionsURL :: "'w Store \<Rightarrow> string \<Rightarrow> string" where
  "executionsURL s u = rootURL s u @ CHR 0x2F # executionsDir"

definition space_ok :: "'w Store \<Rightarrow> string \<Rightarrow> dav_tree \<Rightarrow> bool" where
  "space_ok s u t = (t (davBase s u) = Some Collection \<and> folder_or_free t (rootURL s u)
     \<and> folder_or_free t (definitionsURL s u) \<and> folder_or_free t (executionsURL s u))"

lemma mk_collection_there: "folder_or_free t url \<Longrightarrow> t (parent_url url) = Some Collection
   \<Longrightarrow> mk_collection url t = t(url \<mapsto> Collection)"
  by (auto simp: mk_collection_def folder_or_free_def)

lemma ensureDirs_tree:
  assumes "dav_server s a u tree" "space_ok s u (tree w)"
  shows "\<exists>w1. ensureDirs s a u w = (Inr (), w1)
    \<and> tree w1 = (tree w)(rootURL s u \<mapsto> Collection, definitionsURL s u \<mapsto> Collection)"
proof -
  obtain w1 where w1: "mkcols s a (davBase s u) [rootDir, rootDir @ ''/'' @ definitionsDir] w = (Inr (), w1)"
    "tree w1 = mk_collection (definitionsURL s u) (mk_collection (rootURL s u) (tree w))"
    using mkcols_tree [OF assms(1), of "[rootDir, rootDir @ ''/'' @ definitionsDir]" w]
    by (auto simp: rootURL_def definitionsURL_def)
  have "mk_collection (rootURL s u) (tree w) = (tree w)(rootURL s u \<mapsto> Collection)"
    using assms(2) rootDir_no_slash by (intro mk_collection_there) (simp_all add: space_ok_def rootURL_def)
  moreover have "mk_collection (definitionsURL s u) ((tree w)(rootURL s u \<mapsto> Collection)) =
      (tree w)(rootURL s u \<mapsto> Collection, definitionsURL s u \<mapsto> Collection)"
    using assms(2) folders_no_slash
    by (intro mk_collection_there) (simp_all add: space_ok_def folder_or_free_def definitionsURL_def)
  ultimately show ?thesis using w1 unfolding ensureDirs_def by metis
qed

text \<open>The file of a workflow, and the facts about its URL the lemmas below need.\<close>

lemma definition_url:
  "definitionPath s u i = definitionsURL s u @ CHR 0x2F # i @ ''.json''"
  "definitionPath s u i = davBase s u @ ''/'' @ (rootDir @ CHR 0x2F # definitionsDir @ CHR 0x2F # i @ ''.json'')"
  by (simp_all add: definitionPath_def definitionsURL_def rootURL_def)

lemma definition_distinct [simp]:
  "rootURL s u \<noteq> definitionsURL s u" "definitionPath s u i \<noteq> rootURL s u" "definitionPath s u i \<noteq> definitionsURL s u"
  by (simp_all add: definition_url(1) definitionsURL_def rootURL_def)

lemma parent_definition [simp]: "CHR 0x2F \<notin> set i \<Longrightarrow> parent_url (definitionPath s u i) = definitionsURL s u"
  by (simp add: definition_url(1))

definition decode_flow :: "'w Store \<Rightarrow> string \<Rightarrow> WorkflowDefinition result" where
  "decode_flow s data =
     (case check_err (json_Unmarshal (nt_codec (st_net s)) data) (dec_workflow zero_workflow) of
        Inl err \<Rightarrow> Inl (Wrap ''decode stored workflow definition'' err)
      | Inr flow \<Rightarrow> Inr flow)"

definition flow_text :: "'w Store \<Rightarrow> WorkflowDefinition \<Rightarrow> string" where
  "flow_text s flow = json_Marshal (nt_codec (st_net s)) (enc_workflow flow)"

text \<open>The JSON library reads back the text it wrote for a document.\<close>

definition reads_back :: "'w Store \<Rightarrow> json \<Rightarrow> bool" where
  "reads_back s j = (json_Unmarshal (nt_codec (st_net s)) (json_Marshal (nt_codec (st_net s)) j) = Inr j)"

lemma decode_flow_text:
  "reads_back s (enc_workflow flow) \<Longrightarrow> graph_simple (wd_Graph flow) \<Longrightarrow> decode_flow s (flow_text s flow) = Inr flow"
  by (simp add: decode_flow_def flow_text_def reads_back_def dec_enc_workflow)

lemma definition_plain: "plain_id i \<Longrightarrow> url_plain (rootDir @ CHR 0x2F # definitionsDir @ CHR 0x2F # i @ ''.json'')"
  by (simp add: plain_id_def)

definition with_folders :: "'w Store \<Rightarrow> string \<Rightarrow> dav_tree \<Rightarrow> dav_tree" where
  "with_folders s u t = t(rootURL s u \<mapsto> Collection, definitionsURL s u \<mapsto> Collection)"

lemma Store_Put_tree:
  assumes "dav_server s a u tree" "space_ok s u (tree w)" "plain_id (wd_ID flow)"
    "tree w (definitionPath s u (wd_ID flow)) \<noteq> Some Collection"
  obtains w1 where "Store_Put s a flow w = (Inr (), w1)"
    "tree w1 = (with_folders s u (tree w))(definitionPath s u (wd_ID flow) \<mapsto> File (flow_text s flow))"
proof -
  let ?url = "definitionPath s u (wd_ID flow)" and ?hs = "[(''Authorization'', a), (''Content-Type'', ''application/json'')]"
  obtain w1 where w1: "caller s a w = (Inr u, w1)" "tree w1 = tree w" using server_caller [OF assms(1)] by metis
  obtain w2 where w2: "ensureDirs s a u w1 = (Inr (), w2)" "tree w2 = with_folders s u (tree w)"
    using ensureDirs_tree [OF assms(1), of w1] assms(2) w1(2) unfolding with_folders_def by auto
  obtain res w3 where w3: "send (nt_http (st_net s)) ''PUT'' ?url ?hs (flow_text s flow) w2 = (Inr res, w3)"
    "rs_Status res = fst (dav_effect (request ''PUT'' ?url ?hs (flow_text s flow)) (tree w2))"
    "tree w3 = snd (dav_effect (request ''PUT'' ?url ?hs (flow_text s flow)) (tree w2))"
    by (rule server_send [OF assms(1) definition_url(2) definition_plain [OF assms(3)] has_auth_json(1) in_contract_request(2)])
  have t: "tree w2 ?url \<noteq> Some Collection" "tree w2 (definitionsURL s u) = Some Collection"
    using assms(4) by (simp_all add: w2(2) with_folders_def)
  have "rs_Status res = 201 \<or> rs_Status res = 204" "tree w3 = (tree w2)(?url \<mapsto> File (flow_text s flow))"
    using w3(2,3) t assms(3) by (auto simp: dav_effect_def Let_def plain_id_def)
  then show thesis
    using that [of w3] w1 w2 w3(1) unfolding Store_Put_def by (auto simp: flow_text_def)
qed

lemma getByPath_tree:
  assumes "dav_server s a u tree" "plain_id i" "tree w (definitionPath s u i) \<noteq> Some Collection"
  obtains w1 where "tree w1 = tree w" "getByPath s a (definitionPath s u i) w =
      (case tree w (definitionPath s u i) of Some (File data) \<Rightarrow> decode_flow s data | _ \<Rightarrow> Inl StoreNotFound, w1)"
proof -
  let ?url = "definitionPath s u i"
  obtain res w1 where w1: "send (nt_http (st_net s)) ''GET'' ?url (bearer a) [] w = (Inr res, w1)"
    "rs_Status res = fst (dav_effect (request ''GET'' ?url (bearer a) []) (tree w))"
    "tree w1 = snd (dav_effect (request ''GET'' ?url (bearer a) []) (tree w))"
    "dav_body (st_net s) (request ''GET'' ?url (bearer a) []) (tree w) res"
    by (rule server_send [OF assms(1) definition_url(2) definition_plain [OF assms(2)] has_auth_bearer in_contract_request(3) [where t = "tree w", OF assms(3)]])
  show thesis
  proof (cases "tree w ?url")
    case None
    then show thesis using that [of w1] w1 by (simp add: getByPath_def dav_effect_def Let_def)
  next
    case (Some node)
    then obtain data where d: "tree w ?url = Some (File data)" using assms(3) by (cases node) auto
    then have "rs_Body res = (data, None)" using w1(4) by (simp add: dav_body_def)
    then show thesis
      using that [of w1] w1 d by (simp add: getByPath_def dav_effect_def Let_def ReadAll_def decode_flow_def)
  qed
qed

lemma Store_Get_tree:
  assumes "dav_server s a u tree" "plain_id i" "tree w (definitionPath s u i) \<noteq> Some Collection"
  obtains w1 where "tree w1 = tree w" "Store_Get s a i w =
      (case tree w (definitionPath s u i) of Some (File data) \<Rightarrow> decode_flow s data | _ \<Rightarrow> Inl StoreNotFound, w1)"
proof -
  obtain w1 where w1: "caller s a w = (Inr u, w1)" "tree w1 = tree w" using server_caller [OF assms(1)] by metis
  show thesis
    by (rule getByPath_tree [OF assms(1,2), of w1])
      (use assms(3) that w1 in \<open>auto simp: Store_Get_def\<close>)
qed

lemma Store_Delete_tree:
  assumes "dav_server s a u tree" "plain_id i" "tree w (definitionPath s u i) \<noteq> Some Collection"
  obtains w1 where "Store_Delete s a i w = (if tree w (definitionPath s u i) = None then Inl StoreNotFound else Inr (), w1)"
    "tree w1 = (tree w)(definitionPath s u i := None)"
proof -
  let ?url = "definitionPath s u i"
  obtain w1 where w1: "caller s a w = (Inr u, w1)" "tree w1 = tree w" using server_caller [OF assms(1)] by metis
  obtain res w2 where w2: "send (nt_http (st_net s)) ''DELETE'' ?url (bearer a) [] w1 = (Inr res, w2)"
    "rs_Status res = fst (dav_effect (request ''DELETE'' ?url (bearer a) []) (tree w1))"
    "tree w2 = snd (dav_effect (request ''DELETE'' ?url (bearer a) []) (tree w1))"
    by (rule server_send [OF assms(1) definition_url(2) definition_plain [OF assms(2)] has_auth_bearer
          in_contract_request(4) [where t = "tree w1", OF assms(3) [folded w1(2)]]])
  show thesis
  proof (cases "tree w ?url")
    case None
    then have "tree w2 = (tree w)(?url := None)" using w2(3) w1(2) by (auto simp: dav_effect_def Let_def)
    then show thesis using that [of w2] w1 w2(1,2) None by (simp add: Store_Delete_def dav_effect_def Let_def)
  next
    case (Some node)
    then obtain data where "tree w ?url = Some (File data)" using assms(3) by (cases node) auto
    then show thesis using that [of w2] w1 w2 by (simp add: Store_Delete_def dav_effect_def Let_def)
  qed
qed

text \<open>
  C24. What is put is what is read: on a server that keeps to the protocol, from a space without the
  bookkeeping folder on, storing a workflow succeeds, reading it by its id gives it back field for
  field, deleting it makes it unknown, and no file but its own changes.
\<close>

theorem stored_workflow_roundtrip:
  assumes "dav_server s a u tree" "space_ok s u (tree w)" "plain_id (wd_ID flow)"
    "tree w (definitionPath s u (wd_ID flow)) \<noteq> Some Collection"
    "reads_back s (enc_workflow flow)" "graph_simple (wd_Graph flow)"
  shows "\<exists>w1 w2 w3 w4.
    Store_Put s a flow w = (Inr (), w1) \<and>
    Store_Get s a (wd_ID flow) w1 = (Inr flow, w2) \<and> tree w2 = tree w1 \<and>
    Store_Delete s a (wd_ID flow) w2 = (Inr (), w3) \<and>
    Store_Get s a (wd_ID flow) w3 = (Inl StoreNotFound, w4) \<and>
    (\<forall>url. url \<noteq> definitionPath s u (wd_ID flow) \<and> url \<noteq> rootURL s u \<and> url \<noteq> definitionsURL s u
       \<longrightarrow> tree w1 url = tree w url \<and> tree w3 url = tree w url)"
proof -
  let ?url = "definitionPath s u (wd_ID flow)"
  obtain w1 where w1: "Store_Put s a flow w = (Inr (), w1)"
    "tree w1 = (with_folders s u (tree w))(?url \<mapsto> File (flow_text s flow))"
    by (rule Store_Put_tree [OF assms(1-4)])
  obtain w2 where w2: "tree w2 = tree w1" "Store_Get s a (wd_ID flow) w1 = (Inr flow, w2)"
    by (rule Store_Get_tree [OF assms(1,3), of w1]) (auto simp: w1(2) decode_flow_text [OF assms(5,6)])
  obtain w3 where w3: "Store_Delete s a (wd_ID flow) w2 = (Inr (), w3)" "tree w3 = (tree w2)(?url := None)"
    by (rule Store_Delete_tree [OF assms(1,3), of w2]) (auto simp: w1(2) w2(1))
  obtain w4 where w4: "Store_Get s a (wd_ID flow) w3 = (Inl StoreNotFound, w4)"
    by (rule Store_Get_tree [OF assms(1,3), of w3]) (auto simp: w3(2))
  show ?thesis
    using w1(1) w2 w3(1) w4 by (intro exI [of _ w1] exI [of _ w2] exI [of _ w3] exI [of _ w4])
      (simp add: w1(2) w3(2) with_folders_def)
qed

section \<open>Listings\<close>

lemma json_name: "HasSuffix n ''.json'' \<longleftrightarrow> (\<exists>i. n = i @ ''.json'')"
  by (rule HasSuffix_iff)

text \<open>Reading every name of a listing.\<close>

definition holds_flow :: "'w Store \<Rightarrow> string \<Rightarrow> dav_tree \<Rightarrow> string \<Rightarrow> WorkflowDefinition \<Rightarrow> bool" where
  "holds_flow s u t i flow = (\<exists>data. t (definitionPath s u i) = Some (File data) \<and> decode_flow s data = Inr flow)"

lemma get_all_tree:
  assumes "dav_server s a u tree"
  shows "list_all (\<lambda>i. plain_id i \<and> (\<exists>flow. holds_flow s u (tree w) i flow)) ids
   \<Longrightarrow> \<exists>flows w1. get_all s a u (map (\<lambda>i. i @ ''.json'') ids) w = (Inr flows, w1) \<and> tree w1 = tree w
        \<and> list_all2 (holds_flow s u (tree w)) ids flows"
proof (induction ids arbitrary: w)
  case (Cons i ids)
  obtain data flow where d: "tree w (definitionPath s u i) = Some (File data)" "decode_flow s data = Inr flow"
    using Cons.prems by (auto simp: holds_flow_def)
  obtain w1 where w1: "tree w1 = tree w" "getByPath s a (definitionPath s u i) w = (Inr flow, w1)"
    by (rule getByPath_tree [OF assms, of i w]) (use Cons.prems d in auto)
  obtain flows w2 where "get_all s a u (map (\<lambda>i. i @ ''.json'') ids) w1 = (Inr flows, w2)" "tree w2 = tree w"
    "list_all2 (holds_flow s u (tree w)) ids flows"
    using Cons.IH [of w1] Cons.prems w1(1) by auto
  moreover have "holds_flow s u (tree w) i flow" using d by (simp add: holds_flow_def)
  ultimately show ?case using w1 by auto
qed simp

text \<open>The listing of a collection the server keeps.\<close>

lemma propfind_tree:
  assumes "dav_server s a u tree" "url = davBase s u @ ''/'' @ rest" "url_plain rest" "folder_or_free (tree w) url"
  obtains (there) names w1 where "tree w url = Some Collection" "propfindJSONNames s a url w = (Inr names, w1)"
      "tree w1 = tree w" "distinct names"
      "set names = {n. CHR 0x2F \<notin> set n \<and> HasSuffix n ''.json'' \<and> tree w (url @ ''/'' @ n) \<noteq> None}"
  | (missing) err w1 where "tree w url \<noteq> Some Collection" "propfindJSONNames s a url w = (Inl err, w1)" "tree w1 = tree w"
proof -
  let ?hs = "[(''Authorization'', a), (''Content-Type'', ''application/xml''), (''Depth'', ''1'')]"
  obtain res w1 where w1: "send (nt_http (st_net s)) ''PROPFIND'' url ?hs propfind_types w = (Inr res, w1)"
    "rs_Status res = fst (dav_effect (request ''PROPFIND'' url ?hs propfind_types) (tree w))"
    "tree w1 = snd (dav_effect (request ''PROPFIND'' url ?hs propfind_types) (tree w))"
    "dav_body (st_net s) (request ''PROPFIND'' url ?hs propfind_types) (tree w) res"
    by (rule server_send [OF assms(1-3) has_auth_json(2) in_contract_request(5) [where t = "tree w", OF assms(4)]])
  show thesis
  proof (cases "tree w url = Some Collection")
    case True
    then have "lists_members (st_net s) url (tree w) res" using w1(4) by (simp add: dav_body_def)
    then obtain data doc hrefs where h: "rs_Body res = (data, None)" "nt_xml (st_net s) data = Inr doc"
      "multistatus_hrefs doc = Inr hrefs" "distinct (json_names hrefs)"
      "set (json_names hrefs) = {n. CHR 0x2F \<notin> set n \<and> HasSuffix n ''.json'' \<and> tree w (url @ ''/'' @ n) \<noteq> None}"
      unfolding lists_members_def by blast
    then have "propfindJSONNames s a url w = (Inr (json_names hrefs), w1)"
      using w1 True by (simp add: propfindJSONNames_def ReadAll_def dav_effect_def Let_def)
    then show thesis using there True h w1(3) by (simp add: dav_effect_def Let_def)
  next
    case False
    then show thesis using missing w1 by (simp add: propfindJSONNames_def dav_effect_def Let_def)
  qed
qed

text \<open>A folder of definitions in which every file is one the store wrote.\<close>

definition definition_ids :: "'w Store \<Rightarrow> string \<Rightarrow> dav_tree \<Rightarrow> string set" where
  "definition_ids s u t = {i. CHR 0x2F \<notin> set i \<and> t (definitionPath s u i) \<noteq> None}"

lemma json_members:
  assumes "set names = {n. CHR 0x2F \<notin> set n \<and> HasSuffix n ''.json'' \<and> t (url @ ''/'' @ n) \<noteq> None}" "distinct names"
  obtains ids where "names = map (\<lambda>i. i @ ''.json'') ids" "distinct ids"
    "set ids = {i. CHR 0x2F \<notin> set i \<and> t (url @ ''/'' @ i @ ''.json'') \<noteq> None}"
proof -
  let ?ids = "map (\<lambda>n. TrimSuffix n ''.json'') names"
  have e: "\<forall>n\<in>set names. \<exists>i. n = i @ ''.json''" using assms(1) by (auto simp: HasSuffix_iff)
  have n: "names = map (\<lambda>i. i @ ''.json'') ?ids" using e by (auto intro!: map_idI [symmetric])
  moreover have "distinct ?ids" using assms(2) n by (metis distinct_map)
  moreover have "set ?ids = {i. CHR 0x2F \<notin> set i \<and> t (url @ ''/'' @ i @ ''.json'') \<noteq> None}" (is "_ = ?S")
  proof
    show "set ?ids \<subseteq> ?S" using assms(1) by (auto simp: HasSuffix_iff)
    show "?S \<subseteq> set ?ids"
    proof
      fix i assume "i \<in> ?S"
      then have "i @ ''.json'' \<in> set names" using assms(1) by auto
      then show "i \<in> set ?ids" by (force simp: image_iff)
    qed
  qed
  ultimately show thesis using that by blast
qed

text \<open>
  Listing finds every workflow: on a server that keeps to the protocol, List returns one entry
  per definition file, each decoded from that file, and creates the folders of a space that has
  none yet instead of failing.
\<close>

lemma list_complete:
  assumes "dav_server s a u tree" "space_ok s u (tree w)"
    "\<forall>i\<in>definition_ids s u (tree w). plain_id i \<and> (\<exists>flow. holds_flow s u (tree w) i flow)"
  shows "\<exists>flows ids w1. Store_List s a w = (Inr flows, w1) \<and> distinct ids \<and> set ids = definition_ids s u (tree w)
    \<and> list_all2 (holds_flow s u (tree w)) ids flows \<and> tree w1 = with_folders s u (tree w)"
proof -
  obtain w1 where w1: "caller s a w = (Inr u, w1)" "tree w1 = tree w" using server_caller [OF assms(1)] by metis
  obtain w2 where w2: "ensureDirs s a u w1 = (Inr (), w2)" "tree w2 = with_folders s u (tree w)"
    using ensureDirs_tree [OF assms(1), of w1] assms(2) w1(2) unfolding with_folders_def by auto
  have same: "tree w2 (definitionPath s u i) = tree w (definitionPath s u i)" for i
    by (simp add: w2(2) with_folders_def)
  let ?dir = "davBase s u @ ''/'' @ rootDir @ ''/'' @ definitionsDir"
  have dir: "?dir = definitionsURL s u" by (simp add: definitionsURL_def rootURL_def)
  obtain names w3 where w3: "propfindJSONNames s a ?dir w2 = (Inr names, w3)" "tree w3 = tree w2" "distinct names"
    "set names = {n. CHR 0x2F \<notin> set n \<and> HasSuffix n ''.json'' \<and> tree w2 (?dir @ ''/'' @ n) \<noteq> None}"
    by (rule propfind_tree [OF assms(1) refl, of "rootDir @ ''/'' @ definitionsDir" w2])
      (use w2(2) dir in \<open>auto simp: with_folders_def folder_or_free_def\<close>)
  obtain ids where ids: "names = map (\<lambda>i. i @ ''.json'') ids" "distinct ids" "set ids = definition_ids s u (tree w)"
  proof (rule json_members [OF w3(4,3)])
    fix ids assume "names = map (\<lambda>i. i @ ''.json'') ids" "distinct ids"
      "set ids = {i. CHR 0x2F \<notin> set i \<and> tree w2 (?dir @ ''/'' @ i @ ''.json'') \<noteq> None}"
    then show thesis using that same by (simp add: definition_ids_def definitionPath_def)
  qed
  have hold: "holds_flow s u (tree w3) = holds_flow s u (tree w)"
    unfolding holds_flow_def fun_eq_iff w3(2) same by simp
  obtain flows w4 where "get_all s a u names w3 = (Inr flows, w4)" "tree w4 = tree w3"
    "list_all2 (holds_flow s u (tree w)) ids flows"
    using get_all_tree [OF assms(1), of w3 ids] assms(3) ids unfolding hold by (auto simp: list_all_iff)
  then show ?thesis
    using w1 w2 w3(1,2) ids unfolding Store_List_def by auto
qed

section \<open>Executions\<close>

lemma execution_urls:
  "executionsDirURL s u i = executionsURL s u @ CHR 0x2F # i"
  "executionPath s u i j = executionsDirURL s u i @ CHR 0x2F # j @ ''.json''"
  "executionPath s u i j = davBase s u @ ''/'' @ (rootDir @ CHR 0x2F # executionsDir @ CHR 0x2F # i @ CHR 0x2F # j @ ''.json'')"
  by (simp_all add: executionPath_def executionsDirURL_def executionsURL_def rootURL_def)

lemma execution_distinct [simp]:
  "rootURL s u \<noteq> executionsURL s u" "executionsDirURL s u i \<noteq> executionsURL s u" "executionsDirURL s u i \<noteq> rootURL s u"
  "executionPath s u i j \<noteq> rootURL s u" "executionPath s u i j \<noteq> executionsURL s u" "executionPath s u i j \<noteq> executionsDirURL s u i"
  by (simp_all add: execution_urls(1,2) executionsURL_def rootURL_def)

lemma parent_execution [simp]:
  "CHR 0x2F \<notin> set i \<Longrightarrow> parent_url (executionsDirURL s u i) = executionsURL s u"
  "CHR 0x2F \<notin> set j \<Longrightarrow> parent_url (executionPath s u i j) = executionsDirURL s u i"
  by (simp add: execution_urls(1)) (simp add: execution_urls(2))

lemma execution_plain:
  "plain_id i \<Longrightarrow> plain_id j \<Longrightarrow> url_plain (rootDir @ CHR 0x2F # executionsDir @ CHR 0x2F # i @ CHR 0x2F # j @ ''.json'')"
  by (simp add: plain_id_def)

definition decode_record :: "'w Store \<Rightarrow> string \<Rightarrow> ExecutionRecord result" where
  "decode_record s data =
     (case check_err (json_Unmarshal (nt_codec (st_net s)) data) (dec_execution zero_execution) of
        Inl err \<Rightarrow> Inl (Wrap ''decode stored execution record'' err)
      | Inr x \<Rightarrow> Inr x)"

definition record_text :: "'w Store \<Rightarrow> ExecutionRecord \<Rightarrow> string" where
  "record_text s x = json_Marshal (nt_codec (st_net s)) (enc_execution x)"

lemma decode_record_text:
  "reads_back s (enc_execution x) \<Longrightarrow> execution_simple x \<Longrightarrow> decode_record s (record_text s x) = Inr x"
  by (simp add: decode_record_def record_text_def reads_back_def dec_enc_execution)

lemma parent_folder: "parent_url (rootURL s u) = davBase s u" "parent_url (executionsURL s u) = rootURL s u"
  using rootDir_no_slash folders_no_slash by (simp_all add: executionsURL_def) (simp add: rootURL_def)

definition with_history :: "'w Store \<Rightarrow> string \<Rightarrow> string \<Rightarrow> dav_tree \<Rightarrow> dav_tree" where
  "with_history s u i t =
     t(rootURL s u \<mapsto> Collection, executionsURL s u \<mapsto> Collection, executionsDirURL s u i \<mapsto> Collection)"

lemma history_dirs_tree:
  assumes "dav_server s a u tree" "space_ok s u (tree w)" "plain_id i" "folder_or_free (tree w) (executionsDirURL s u i)"
  shows "\<exists>w1. mkcols s a (davBase s u)
      [rootDir, rootDir @ ''/'' @ executionsDir, rootDir @ ''/'' @ executionsDir @ ''/'' @ i] w = (Inr (), w1)
    \<and> tree w1 = with_history s u i (tree w)"
proof -
  let ?t1 = "(tree w)(rootURL s u \<mapsto> Collection)" and ?t2 = "(tree w)(rootURL s u \<mapsto> Collection, executionsURL s u \<mapsto> Collection)"
  have t: "mk_collection (rootURL s u) (tree w) = ?t1" "mk_collection (executionsURL s u) ?t1 = ?t2"
    "mk_collection (executionsDirURL s u i) ?t2 = with_history s u i (tree w)"
    using assms(2-4) rootDir_no_slash folders_no_slash unfolding with_history_def
    by (simp_all add: mk_collection_there space_ok_def folder_or_free_def parent_folder plain_id_def)
  have "list_all url_plain [rootDir, rootDir @ ''/'' @ executionsDir, rootDir @ ''/'' @ executionsDir @ ''/'' @ i]"
    using assms(3) by (simp add: plain_id_def)
  from mkcols_tree [OF assms(1) this, of w] show ?thesis
    using t by (simp add: rootURL_def executionsURL_def executionsDirURL_def)
qed

lemma PutExecution_tree:
  assumes "dav_server s a u tree" "space_ok s u (tree w)" "plain_id (xr_WorkflowID x)" "plain_id (xr_ID x)"
    "folder_or_free (tree w) (executionsDirURL s u (xr_WorkflowID x))"
    "tree w (executionPath s u (xr_WorkflowID x) (xr_ID x)) \<noteq> Some Collection"
  obtains w1 where "PutExecution s a x w = (Inr (), w1)"
    "tree w1 = (with_history s u (xr_WorkflowID x) (tree w))
       (executionPath s u (xr_WorkflowID x) (xr_ID x) \<mapsto> File (record_text s x))"
proof -
  let ?i = "xr_WorkflowID x" let ?url = "executionPath s u ?i (xr_ID x)"
    and ?hs = "[(''Authorization'', a), (''Content-Type'', ''application/json'')]"
  obtain w1 where w1: "caller s a w = (Inr u, w1)" "tree w1 = tree w" using server_caller [OF assms(1)] by metis
  obtain w2 where w2: "mkcols s a (davBase s u)
      [rootDir, rootDir @ ''/'' @ executionsDir, rootDir @ ''/'' @ executionsDir @ ''/'' @ ?i] w1 = (Inr (), w2)"
    "tree w2 = with_history s u ?i (tree w)"
    using history_dirs_tree [OF assms(1), of w1 ?i] assms(2,3,5) w1(2) by auto
  obtain res w3 where w3: "send (nt_http (st_net s)) ''PUT'' ?url ?hs (record_text s x) w2 = (Inr res, w3)"
    "rs_Status res = fst (dav_effect (request ''PUT'' ?url ?hs (record_text s x)) (tree w2))"
    "tree w3 = snd (dav_effect (request ''PUT'' ?url ?hs (record_text s x)) (tree w2))"
    by (rule server_send [OF assms(1) execution_urls(3) execution_plain [OF assms(3,4)] has_auth_json(1) in_contract_request(2)])
  have t: "tree w2 ?url \<noteq> Some Collection" "tree w2 (executionsDirURL s u ?i) = Some Collection"
    using assms(6) by (simp_all add: w2(2) with_history_def)
  have "rs_Status res = 201 \<or> rs_Status res = 204" "tree w3 = (tree w2)(?url \<mapsto> File (record_text s x))"
    using w3(2,3) t assms(4) by (auto simp: dav_effect_def Let_def plain_id_def)
  then show thesis
    using that [of w3] w1 w2 w3(1) unfolding PutExecution_def by (auto simp: record_text_def)
qed

lemma GetExecution_tree:
  assumes "dav_server s a u tree" "plain_id i" "plain_id j" "tree w (executionPath s u i j) \<noteq> Some Collection"
  obtains w1 where "tree w1 = tree w" "GetExecution s a i j w =
      (case tree w (executionPath s u i j) of Some (File data) \<Rightarrow> decode_record s data | _ \<Rightarrow> Inl StoreNotFound, w1)"
proof -
  let ?url = "executionPath s u i j"
  obtain w0 where w0: "caller s a w = (Inr u, w0)" "tree w0 = tree w" using server_caller [OF assms(1)] by metis
  obtain res w1 where w1: "send (nt_http (st_net s)) ''GET'' ?url (bearer a) [] w0 = (Inr res, w1)"
    "rs_Status res = fst (dav_effect (request ''GET'' ?url (bearer a) []) (tree w0))"
    "tree w1 = snd (dav_effect (request ''GET'' ?url (bearer a) []) (tree w0))"
    "dav_body (st_net s) (request ''GET'' ?url (bearer a) []) (tree w0) res"
    by (rule server_send [OF assms(1) execution_urls(3) execution_plain [OF assms(2,3)] has_auth_bearer
          in_contract_request(3) [where t = "tree w0", OF assms(4) [folded w0(2)]]])
  show thesis
  proof (cases "tree w ?url")
    case None
    then show thesis using that [of w1] w0 w1 by (simp add: GetExecution_def dav_effect_def Let_def)
  next
    case (Some node)
    then obtain data where d: "tree w ?url = Some (File data)" using assms(4) by (cases node) auto
    then have "rs_Body res = (data, None)" using w0 w1(4) by (simp add: dav_body_def)
    then show thesis
      using that [of w1] w0 w1 d by (simp add: GetExecution_def dav_effect_def Let_def ReadAll_def decode_record_def)
  qed
qed

definition holds_record :: "'w Store \<Rightarrow> string \<Rightarrow> string \<Rightarrow> dav_tree \<Rightarrow> string \<Rightarrow> ExecutionRecord \<Rightarrow> bool" where
  "holds_record s u i t j x = (\<exists>data. t (executionPath s u i j) = Some (File data) \<and> decode_record s data = Inr x)"

definition execution_ids :: "'w Store \<Rightarrow> string \<Rightarrow> string \<Rightarrow> dav_tree \<Rightarrow> string set" where
  "execution_ids s u i t = {j. CHR 0x2F \<notin> set j \<and> t (executionPath s u i j) \<noteq> None}"

lemma get_executions_tree:
  assumes "dav_server s a u tree" "plain_id i"
  shows "list_all (\<lambda>j. plain_id j \<and> (\<exists>x. holds_record s u i (tree w) j x)) js
   \<Longrightarrow> \<exists>xs w1. get_executions s a i (map (\<lambda>j. j @ ''.json'') js) w = (Inr xs, w1) \<and> tree w1 = tree w
        \<and> list_all2 (holds_record s u i (tree w)) js xs"
proof (induction js arbitrary: w)
  case (Cons j js)
  obtain data x where d: "tree w (executionPath s u i j) = Some (File data)" "decode_record s data = Inr x"
    using Cons.prems by (auto simp: holds_record_def)
  obtain w1 where w1: "tree w1 = tree w" "GetExecution s a i j w = (Inr x, w1)"
    by (rule GetExecution_tree [OF assms, of j w]) (use Cons.prems d in auto)
  obtain xs w2 where "get_executions s a i (map (\<lambda>j. j @ ''.json'') js) w1 = (Inr xs, w2)" "tree w2 = tree w"
    "list_all2 (holds_record s u i (tree w)) js xs"
    using Cons.IH [of w1] Cons.prems w1(1) by auto
  moreover have "holds_record s u i (tree w) j x" using d by (simp add: holds_record_def)
  ultimately show ?case using w1 by auto
qed simp

text \<open>What \<^verbatim>\<open>sort.Slice\<close> promises for the order used.\<close>

definition sort_ok :: "(ExecutionRecord list \<Rightarrow> ExecutionRecord list) \<Rightarrow> bool" where
  "sort_ok srt = (\<forall>xs. mset (srt xs) = mset xs \<and> sorted_wrt (\<lambda>x y. \<not> later y x) (srt xs))"

text \<open>A workflow's history folder: missing, or a collection of records the store wrote.\<close>

definition history_ok :: "'w Store \<Rightarrow> string \<Rightarrow> string \<Rightarrow> dav_tree \<Rightarrow> bool" where
  "history_ok s u i t =
     (folder_or_free t (executionsDirURL s u i)
      \<and> (t (executionsDirURL s u i) = None \<longrightarrow> execution_ids s u i t = {})
      \<and> (\<forall>j\<in>execution_ids s u i t. plain_id j \<and> (\<exists>x. holds_record s u i t j x)))"

text \<open>
  The history of a workflow is complete: ListExecutions returns exactly one record per file in
  its folder, later start times (as text) first; a workflow that never ran, whose folder does not
  exist, has the empty history and not an error; and reading changes nothing.
\<close>

lemma history_complete:
  assumes "dav_server s a u tree" "sort_ok (st_sort s)" "plain_id i" "history_ok s u i (tree w)"
  shows "\<exists>xs ys js w1. ListExecutions s a i w = (Inr xs, w1) \<and> tree w1 = tree w
    \<and> sorted_wrt (\<lambda>x y. \<not> later y x) xs \<and> mset xs = mset ys
    \<and> distinct js \<and> set js = execution_ids s u i (tree w) \<and> list_all2 (holds_record s u i (tree w)) js ys"
proof -
  obtain w1 where w1: "caller s a w = (Inr u, w1)" "tree w1 = tree w" using server_caller [OF assms(1)] by metis
  have pl: "url_plain (rootDir @ CHR 0x2F # executionsDir @ CHR 0x2F # i)" using assms(3) by (simp add: plain_id_def)
  have ff: "folder_or_free (tree w1) (executionsDirURL s u i)" using assms(4) w1(2) by (simp add: history_ok_def)
  show ?thesis
  proof (rule propfind_tree [OF assms(1) store_urls(2) pl ff])
    fix err w2 assume "tree w1 (executionsDirURL s u i) \<noteq> Some Collection"
      "propfindJSONNames s a (executionsDirURL s u i) w1 = (Inl err, w2)" "tree w2 = tree w1"
    moreover from this have "execution_ids s u i (tree w) = {}"
      using assms(4) w1(2) by (auto simp: history_ok_def folder_or_free_def)
    ultimately show ?thesis using w1 by (auto simp: ListExecutions_def)
  next
    fix names w2
    assume f: "tree w1 (executionsDirURL s u i) = Some Collection"
      "propfindJSONNames s a (executionsDirURL s u i) w1 = (Inr names, w2)" "tree w2 = tree w1" "distinct names"
      "set names = {n. CHR 0x2F \<notin> set n \<and> HasSuffix n ''.json'' \<and> tree w1 (executionsDirURL s u i @ ''/'' @ n) \<noteq> None}"
    obtain js where js: "names = map (\<lambda>j. j @ ''.json'') js" "distinct js" "set js = execution_ids s u i (tree w)"
      by (rule json_members [OF f(5,4)]) (use w1(2) that in \<open>simp add: execution_ids_def execution_urls(2)\<close>)
    have "list_all (\<lambda>j. plain_id j \<and> (\<exists>x. holds_record s u i (tree w2) j x)) js"
      using assms(4) js(3) f(3) w1(2) by (simp add: history_ok_def list_all_iff)
    then obtain xs w3 where "get_executions s a i names w2 = (Inr xs, w3)" "tree w3 = tree w"
      "list_all2 (holds_record s u i (tree w)) js xs"
      using get_executions_tree [OF assms(1,3), of w2 js] js(1) f(3) w1(2) by auto
    then show ?thesis
      using w1 f(2) js(2,3) assms(2) unfolding ListExecutions_def sort_ok_def
      by (intro exI [of _ "st_sort s xs"] exI [of _ xs] exI [of _ js] exI [of _ w3]) simp
  qed
qed

text \<open>
  A finished run is on record: storing an execution succeeds on a space without any of the
  folders, the record is read back by its id field for field, and the next listing contains it.
\<close>

lemma stored_execution_roundtrip:
  assumes "dav_server s a u tree" "space_ok s u (tree w)" "plain_id (xr_WorkflowID x)" "plain_id (xr_ID x)"
    "folder_or_free (tree w) (executionsDirURL s u (xr_WorkflowID x))"
    "tree w (executionPath s u (xr_WorkflowID x) (xr_ID x)) \<noteq> Some Collection"
    "reads_back s (enc_execution x)" "execution_simple x"
  shows "\<exists>w1 w2. PutExecution s a x w = (Inr (), w1)
    \<and> GetExecution s a (xr_WorkflowID x) (xr_ID x) w1 = (Inr x, w2) \<and> tree w2 = tree w1
    \<and> xr_ID x \<in> execution_ids s u (xr_WorkflowID x) (tree w2)
    \<and> holds_record s u (xr_WorkflowID x) (tree w2) (xr_ID x) x"
proof -
  let ?url = "executionPath s u (xr_WorkflowID x) (xr_ID x)"
  obtain w1 where w1: "PutExecution s a x w = (Inr (), w1)"
    "tree w1 = (with_history s u (xr_WorkflowID x) (tree w))(?url \<mapsto> File (record_text s x))"
    by (rule PutExecution_tree [OF assms(1-6)])
  obtain w2 where w2: "tree w2 = tree w1" "GetExecution s a (xr_WorkflowID x) (xr_ID x) w1 = (Inr x, w2)"
    by (rule GetExecution_tree [OF assms(1,3,4), of w1]) (auto simp: w1(2) decode_record_text [OF assms(7,8)])
  have "xr_ID x \<in> execution_ids s u (xr_WorkflowID x) (tree w2)" "holds_record s u (xr_WorkflowID x) (tree w2) (xr_ID x) x"
    using assms(4) decode_record_text [OF assms(7,8)]
    by (simp_all add: execution_ids_def holds_record_def w1(2) w2(1) plain_id_def)
  then show ?thesis using w1(1) w2 by blast
qed

text \<open>
  The order is that of the text, and not that of the instants: a fraction of a second is written only
  when it is not zero, and the letter Z is greater than the point, so a run that starts half a second
  after another one can come after it in the list.
\<close>

lemma string_less_append: "string_less (p @ x) (p @ y) \<longleftrightarrow> string_less x y"
  by (induction p) auto

lemma history_not_chronological:
  "0 < f \<Longrightarrow> f < second \<Longrightarrow> string_less (format_rfc3339_nano (n * second + f)) (format_rfc3339_nano (n * second))"
  by (simp add: format_rfc3339_nano_def string_less_append format_fraction_def)

end
