(* ===== verification/WebdavExample.thy ===== *)
theory WebdavExample
  imports WebdavServer
begin

text \<open>
  A WebDAV server for concrete runs: its world is a list of nodes by URL, it answers as the contract
  of WebdavServer says, lists a collection as its member names separated by slashes, and knows one
  user. The codec reads back the documents of one workflow and one execution. The witnesses of the
  store's properties run on it, from a space that holds nothing but the user's home collection.
\<close>

type_synonym nodes = "(string \<times> dav_node) list"

section \<open>The server\<close>

fun join_names :: "string list \<Rightarrow> string" where
  "join_names [] = []"
| "join_names (n # ns) = CHR 0x2F # n @ join_names ns"

lemma Split_join_names:
  "CHR 0x2F \<notin> set n \<Longrightarrow> list_all (\<lambda>n. CHR 0x2F \<notin> set n) ns \<Longrightarrow> Split (CHR 0x2F) (n @ join_names ns) = n # ns"
  by (induction ns arbitrary: n) (simp_all add: Split_append)

definition member_names :: "string \<Rightarrow> nodes \<Rightarrow> string list" where
  "member_names url w =
     filter (\<lambda>n. CHR 0x2F \<notin> set n)
       (map (\<lambda>k. drop (length url + 1) k)
         (filter (\<lambda>k. HasPrefix k (url @ ''/'')) (remdups (map fst w))))"

definition demo_xml :: "string \<Rightarrow> xml result" where
  "demo_xml data = Inr (XElem ''multistatus''
     (map (\<lambda>n. XElem ''response'' [XElem ''href'' [XText n]]) (Split (CHR 0x2F) data)))"

definition set_node :: "dav_tree \<Rightarrow> string \<Rightarrow> nodes \<Rightarrow> nodes" where
  "set_node t url w = (case t url of None \<Rightarrow> AList.delete url w | Some node \<Rightarrow> AList.update url node w)"

definition demo_dav :: "nodes http" where
  "demo_dav = \<lparr>ht_ParseURL = (\<lambda>url. Inr ()),
     ht_Do = (\<lambda>req w.
       (let (status, t) = dav_effect req (map_of w);
            body = (if rq_Method req = ''PROPFIND'' then join_names (member_names (rq_URL req) w)
                    else case map_of w (rq_URL req) of Some (File b) \<Rightarrow> b | _ \<Rightarrow> [])
        in (Inr \<lparr>rs_Status = status, rs_Body = (body, None)\<rparr>,
            set_node t (vget (rq_Header req) ''Destination'') (set_node t (rq_URL req) w))))\<rparr>"

definition demo_identity :: "nodes http" where
  "demo_identity = \<lparr>ht_ParseURL = (\<lambda>url. Inr ()),
     ht_Do = (\<lambda>req w. (Inr \<lparr>rs_Status = 200, rs_Body = (''me'', None)\<rparr>, w))\<rparr>"

definition demo_workflow :: WorkflowDefinition where
  "demo_workflow = demo_flow ''flow-1''"

definition demo_record :: ExecutionRecord where
  "demo_record = \<lparr>xr_ID = ''run-1'', xr_WorkflowID = ''flow-1'', xr_TriggeredBy = ''manual'',
     xr_Status = ''succeeded'', xr_StartedDateTime = ''2024'', xr_CompletedDateTime = ''2025'',
     xr_NodeResults = [], xr_Error = None\<rparr>"

definition demo_documents :: codec where
  "demo_documents = \<lparr>json_Marshal = (\<lambda>j. if j = enc_workflow demo_workflow then ''flow''
       else if j = enc_execution demo_record then ''record'' else ''other''),
     json_Unmarshal = (\<lambda>s. if s = ''flow'' then Inr (enc_workflow demo_workflow)
       else if s = ''record'' then Inr (enc_execution demo_record) else Inl (Msg s)),
     json_Decode = (\<lambda>s. if s = ''me'' then Inr (JObj [(''id'', JStr ''u1'')]) else Inl (Msg s))\<rparr>"

text \<open>Insertion sort by falling start time.\<close>

fun insert_record :: "ExecutionRecord \<Rightarrow> ExecutionRecord list \<Rightarrow> ExecutionRecord list" where
  "insert_record x [] = [x]"
| "insert_record x (y # ys) = (if later y x then y # insert_record x ys else x # y # ys)"

definition sort_records :: "ExecutionRecord list \<Rightarrow> ExecutionRecord list" where
  "sort_records xs = foldr insert_record xs []"

definition demo_store :: "nodes Store" where
  "demo_store = Store_New ''https://ocis/''
     \<lparr>nt_http = demo_identity, nt_codec = demo_documents, nt_xml = demo_xml\<rparr> ''https://ocis''
     \<lparr>nt_http = demo_dav, nt_codec = demo_documents, nt_xml = demo_xml\<rparr> sort_records"

definition demo_home :: nodes where
  "demo_home = [(davBase demo_store ''u1'', Collection)]"

section \<open>It keeps the contract\<close>

lemma string_less_asym: "string_less x y \<Longrightarrow> \<not> string_less y x"
  by (induction x y rule: string_less.induct) auto

lemma string_less_trans: "string_less x y \<Longrightarrow> string_less y z \<Longrightarrow> string_less x z"
proof (induction x y arbitrary: z rule: string_less.induct)
  case (2 d t)
  then show ?case by (cases z) auto
next
  case (3 c s d t)
  then show ?case by (cases z) auto
qed simp

lemma string_less_linear: "string_less x y \<or> x = y \<or> string_less y x"
proof (induction x y rule: string_less.induct)
  case (1 s)
  then show ?case by (cases s) auto
qed (auto simp: nat_neq_iff)

lemma mset_insert_record: "mset (insert_record x xs) = add_mset x (mset xs)"
  by (induction xs) auto

lemma sorted_insert_record:
  "sorted_wrt (\<lambda>x y. \<not> later y x) xs \<Longrightarrow> sorted_wrt (\<lambda>x y. \<not> later y x) (insert_record x xs)"
proof (induction xs)
  case (Cons y ys)
  have s: "set (insert_record x ys) = insert x (set ys)"
    using mset_insert_record [of x ys] by (metis set_mset_add_mset_insert set_mset_mset)
  show ?case
  proof (cases "later y x")
    case True
    then show ?thesis using Cons s string_less_asym by (auto simp: later_def)
  next
    case False
    have "\<not> later z x" if "z \<in> set ys" for z
      using False Cons.prems that string_less_trans string_less_linear by (auto simp: later_def) metis
    then show ?thesis using False Cons.prems by simp
  qed
qed simp

lemma sort_records_ok: "sort_ok sort_records"
proof -
  have "mset (sort_records xs) = mset xs \<and> sorted_wrt (\<lambda>x y. \<not> later y x) (sort_records xs)" for xs
    unfolding sort_records_def by (induction xs) (auto simp: mset_insert_record sorted_insert_record)
  then show ?thesis by (simp add: sort_ok_def)
qed

lemma dav_effect_other:
  "url \<noteq> rq_URL req \<Longrightarrow> url \<noteq> vget (rq_Header req) ''Destination'' \<or> dav_method (rq_Method req)
   \<Longrightarrow> snd (dav_effect req t) url = t url"
  by (auto simp: dav_effect_def Let_def dav_method_def split: option.split dav_node.split)

lemma map_of_set_node: "map_of (set_node t url w) = (map_of w)(url := t url)"
  by (auto simp: set_node_def fun_eq_iff update_conv' delete_conv' split: option.split)

lemma demo_tree:
  "t = snd (dav_effect req (map_of w)) \<Longrightarrow>
   map_of (set_node t (vget (rq_Header req) ''Destination'') (set_node t (rq_URL req) w)) = t"
  using dav_effect_other [of _ req "map_of w"] by (auto simp: fun_eq_iff map_of_set_node)

lemma member_names_set:
  "set (member_names url w) = {n. CHR 0x2F \<notin> set n \<and> map_of w (url @ ''/'' @ n) \<noteq> None}" (is "_ = ?S")
proof
  show "set (member_names url w) \<subseteq> ?S"
  proof
    fix n assume "n \<in> set (member_names url w)"
    then obtain k where k: "k \<in> fst ` set w" "HasPrefix k (url @ ''/'')" "n = drop (length url + 1) k" "CHR 0x2F \<notin> set n"
      by (auto simp: member_names_def)
    then have "k = url @ ''/'' @ n" by (auto simp: HasPrefix_iff)
    then show "n \<in> ?S" using k(1,4) by (simp add: map_of_eq_None_iff)
  qed
  show "?S \<subseteq> set (member_names url w)"
  proof
    fix n assume "n \<in> ?S"
    then have "url @ ''/'' @ n \<in> fst ` set w" "CHR 0x2F \<notin> set n" by (simp_all add: map_of_eq_None_iff)
    then have "url @ ''/'' @ n \<in> {k \<in> fst ` set w. HasPrefix k (url @ ''/'')}" by (simp add: HasPrefix_iff)
    then have "drop (length url + 1) (url @ ''/'' @ n) \<in> (\<lambda>k. drop (length url + 1) k) ` {k \<in> fst ` set w. HasPrefix k (url @ ''/'')}"
      by (rule imageI)
    then show "n \<in> set (member_names url w)"
      using \<open>CHR 0x2F \<notin> set n\<close> by (simp add: member_names_def)
  qed
qed

lemma distinct_member_names: "distinct (member_names url w)"
  unfolding member_names_def
  by (rule distinct_filter, subst distinct_map) (auto simp: HasPrefix_iff inj_on_def)

lemma path_Base_plain: "CHR 0x2F \<notin> set n \<Longrightarrow> path_Base (TrimSuffix n ''/'') = (if n = [] then ''.'' else n)"
proof -
  assume n: "CHR 0x2F \<notin> set n"
  then have "TrimSuffix n ''/'' = n" by (auto simp: TrimSuffix_def HasSuffix_iff)
  then show ?thesis using n TrimRight_append_noslash [of "CHR 0x2F" n "[]"] by (simp add: path_Base_def)
qed

lemma json_names_plain:
  assumes "list_all (\<lambda>n. CHR 0x2F \<notin> set n) ns"
  shows "json_names ([] # ns) = filter (\<lambda>n. HasSuffix n ''.json'') ns"
proof -
  have m: "map (\<lambda>h. path_Base (TrimSuffix h ''/'')) ns = map (\<lambda>n. if n = [] then ''.'' else n) ns"
    using assms path_Base_plain by (simp add: list_all_iff)
  moreover have "filter (\<lambda>n. HasSuffix n ''.json'') (map (\<lambda>n. if n = [] then ''.'' else n) ns)
      = filter (\<lambda>n. HasSuffix n ''.json'') ns"
    by (induction ns) (auto simp: HasSuffix_def)
  moreover have "\<not> HasSuffix ''.'' ''.json''" by (simp add: HasSuffix_def)
  ultimately show ?thesis using path_Base_plain [of "[]"] unfolding json_names_def list.map m by simp
qed

lemma demo_listing:
  "multistatus_hrefs (XElem ''multistatus'' (map (\<lambda>n. XElem ''response'' [XElem ''href'' [XText n]]) ns)) = Inr ns"
  by (induction ns) (auto simp: multistatus_hrefs_def last_text_def)

abbreviation demo_client :: "nodes net" where
  "demo_client \<equiv> \<lparr>nt_http = demo_identity, nt_codec = demo_documents, nt_xml = demo_xml\<rparr>"

lemma demo_lists_members:
  "lists_members \<lparr>nt_http = demo_dav, nt_codec = k, nt_xml = demo_xml\<rparr> url (map_of w)
     \<lparr>rs_Status = c, rs_Body = (join_names (member_names url w), None)\<rparr>"
proof -
  have n: "list_all (\<lambda>n. CHR 0x2F \<notin> set n) (member_names url w)" using member_names_set [of url w] by (simp add: list_all_iff)
  then have s: "Split (CHR 0x2F) (join_names (member_names url w)) = [] # member_names url w"
    using Split_join_names [of "[]" "member_names url w"] by simp
  show ?thesis
    unfolding lists_members_def using json_names_plain [OF n] member_names_set [of url w] distinct_member_names [of url w]
    demo_listing [of "[] # member_names url w"]
    by (intro exI [of _ "join_names (member_names url w)"] exI [of _ "[] # member_names url w"]
          exI [of _ "XElem ''multistatus'' (map (\<lambda>n. XElem ''response'' [XElem ''href'' [XText n]]) ([] # member_names url w))"])
      (auto simp: demo_xml_def s)
qed

lemma demo_Me: "Me demo_client b a w = (Inr ''u1'', w)"
  by (simp add: Me_def send_def NewRequest_def DecodeBody_def demo_identity_def
      demo_documents_def dec_id_def dec_struct_def key_matches_def)

text \<open>The small server answers every request as \<open>dav_effect\<close> says.\<close>

lemma demo_dav_answers:
  "\<exists>res w1. ht_Do demo_dav req w = (Inr res, w1) \<and> (rs_Status res, map_of w1) = dav_effect req (map_of w)
     \<and> dav_body \<lparr>nt_http = demo_dav, nt_codec = k, nt_xml = demo_xml\<rparr> req (map_of w) res"
proof -
  obtain c t where e: "dav_effect req (map_of w) = (c, t)" by fastforce
  have t: "map_of (set_node t (vget (rq_Header req) ''Destination'') (set_node t (rq_URL req) w)) = t"
    by (rule demo_tree) (simp add: e)
  have b: "rq_Method req = ''GET'' \<longrightarrow> rq_Method req \<noteq> ''PROPFIND''" by simp
  show ?thesis
    unfolding dav_body_def using demo_lists_members b by (simp add: demo_dav_def e t)
qed

lemma demo_contract:
  "dav_contract \<lparr>nt_http = demo_dav, nt_codec = k, nt_xml = demo_xml\<rparr> (Me demo_client b a) base a ''u1'' map_of"
proof -
  have "ht_ParseURL demo_dav url = Inr ()" for url by (simp add: demo_dav_def)
  then show ?thesis unfolding dav_contract_def using demo_Me demo_dav_answers by simp
qed

lemma demo_dav_server: "dav_server demo_store a ''u1'' map_of"
  using demo_contract by (simp add: dav_server_def demo_store_def Store_New_def)

section \<open>The store on it\<close>

lemma demo_reads_back: "reads_back demo_store (enc_workflow demo_workflow)" "reads_back demo_store (enc_execution demo_record)"
proof -
  have "enc_workflow demo_workflow \<noteq> enc_execution demo_record" by (simp add: enc_workflow_def enc_execution_def)
  then show "reads_back demo_store (enc_workflow demo_workflow)" "reads_back demo_store (enc_execution demo_record)"
    by (auto simp: reads_back_def demo_store_def Store_New_def demo_documents_def)
qed

lemma demo_home_space: "space_ok demo_store ''u1'' (map_of demo_home)"
  by (simp add: space_ok_def demo_home_def folder_or_free_def rootURL_def definitionsURL_def executionsURL_def)

lemma demo_home_other: "url \<noteq> davBase demo_store ''u1'' \<Longrightarrow> map_of demo_home url = None"
  by (simp add: demo_home_def)

lemma demo_ids: "plain_id ''flow-1''" "plain_id ''run-1''"
  by (simp_all add: plain_id_def url_plain_def unreserved_def)

lemma demo_names [simp]: "wd_ID demo_workflow = ''flow-1''" "wd_Graph demo_workflow = zero_graph"
    "xr_ID demo_record = ''run-1''" "xr_WorkflowID demo_record = ''flow-1''" "xr_NodeResults demo_record = []"
  by (simp_all add: demo_workflow_def demo_flow_def demo_record_def)

theorem stored_workflow_roundtrip_witness:
  "\<exists>w1 w2 w3 w4. Store_Put demo_store ''Bearer t'' demo_workflow demo_home = (Inr (), w1)
    \<and> Store_Get demo_store ''Bearer t'' ''flow-1'' w1 = (Inr demo_workflow, w2)
    \<and> Store_Delete demo_store ''Bearer t'' ''flow-1'' w2 = (Inr (), w3)
    \<and> Store_Get demo_store ''Bearer t'' ''flow-1'' w3 = (Inl StoreNotFound, w4)"
proof -
  have "map_of demo_home (definitionPath demo_store ''u1'' ''flow-1'') \<noteq> Some Collection"
    by (simp add: demo_home_other definitionPath_def)
  then show ?thesis
    using stored_workflow_roundtrip [OF demo_dav_server [of "''Bearer t''"] demo_home_space, of demo_workflow]
      demo_ids(1) demo_reads_back(1) by (simp add: graph_simple_def zero_graph_def) blast
qed

text \<open>A space with one stored workflow and one stored run.\<close>

definition demo_space :: nodes where
  "demo_space = [(davBase demo_store ''u1'', Collection), (rootURL demo_store ''u1'', Collection),
     (definitionsURL demo_store ''u1'', Collection), (executionsURL demo_store ''u1'', Collection),
     (definitionPath demo_store ''u1'' ''flow-1'', File ''flow''),
     (executionsDirURL demo_store ''u1'' ''flow-1'', Collection),
     (executionPath demo_store ''u1'' ''flow-1'' ''run-1'', File ''record'')]"

lemma demo_documents_decode:
  "decode_flow demo_store ''flow'' = Inr demo_workflow" "decode_record demo_store ''record'' = Inr demo_record"
  by (simp_all add: decode_flow_def decode_record_def demo_store_def Store_New_def demo_documents_def
      dec_enc_workflow dec_enc_execution graph_simple_def zero_graph_def execution_simple_def)

lemma davBase_demo: "davBase demo_store u = ''https://ocis/remote.php/dav/files/'' @ u"
  by (simp add: davBase_def demo_store_def Store_New_def TrimRight_def)

lemmas demo_urls = davBase_demo definitionPath_def executionsDirURL_def executionPath_def rootURL_def definitionsURL_def
  executionsURL_def rootDir_def definitionsDir_def executionsDir_def

lemma demo_space_ok: "space_ok demo_store ''u1'' (map_of demo_space)"
  by (simp add: space_ok_def demo_space_def folder_or_free_def demo_urls)

lemma demo_definition_ids: "definition_ids demo_store ''u1'' (map_of demo_space) = {''flow-1''}"
  by (auto simp: definition_ids_def demo_space_def demo_urls split: if_splits)

lemma distinct_singleton: "distinct xs \<Longrightarrow> set xs = {x} \<Longrightarrow> xs = [x]"
  by (cases xs) (auto simp: subset_singleton_iff)

lemma list_complete_example:
  "\<exists>w1. Store_List demo_store ''Bearer t'' demo_space = (Inr [demo_workflow], w1)"
proof -
  have h: "holds_flow demo_store ''u1'' (map_of demo_space) ''flow-1'' flow \<longleftrightarrow> flow = demo_workflow" for flow
    using demo_documents_decode(1) by (auto simp: holds_flow_def demo_space_def demo_urls)
  obtain flows ids w1 where "Store_List demo_store ''Bearer t'' demo_space = (Inr flows, w1)" "distinct ids"
    "set ids = {''flow-1''}" "list_all2 (holds_flow demo_store ''u1'' (map_of demo_space)) ids flows"
    using list_complete [OF demo_dav_server [of "''Bearer t''"] demo_space_ok] demo_ids(1) h
    unfolding demo_definition_ids by auto
  moreover from this(2,3) have "ids = [''flow-1'']" by (rule distinct_singleton)
  ultimately show ?thesis using h by (auto simp: list_all2_Cons1)
qed

text \<open>A predicate the bookkeeping of the store keeps: the user's other files stay as they are.\<close>

definition other_files_kept :: "nodes \<Rightarrow> nodes \<Rightarrow> bool" where
  "other_files_kept w0 w = (\<forall>rest. \<not> IsInternalPath rest \<longrightarrow>
     map_of w (davBase demo_store ''u1'' @ ''/'' @ rest) = map_of w0 (davBase demo_store ''u1'' @ ''/'' @ rest))"

lemma demo_callers: "callers demo_store a = {''u1''}"
  by (simp add: callers_def demo_store_def Store_New_def demo_Me)

lemma demo_dav_frame:
  "dav_method (rq_Method req) \<Longrightarrow> url \<noteq> rq_URL req \<Longrightarrow> map_of (snd (ht_Do (nt_http (st_net demo_store)) req w)) url = map_of w url"
proof -
  assume m: "dav_method (rq_Method req)" and u: "url \<noteq> rq_URL req"
  obtain c t where e: "dav_effect req (map_of w) = (c, t)" by fastforce
  have "map_of (snd (ht_Do (nt_http (st_net demo_store)) req w)) = t"
    using demo_tree [of t req w] by (simp add: demo_store_def Store_New_def demo_dav_def e)
  then show ?thesis using dav_effect_other [OF u, of "map_of w"] m e by simp
qed

text \<open>And the names in its folders stay plain, so that the listings name plain files only.\<close>

definition plain_names :: "nodes \<Rightarrow> bool" where
  "plain_names w = (\<forall>url n. CHR 0x2F \<notin> set n \<longrightarrow> HasSuffix n ''.json'' \<longrightarrow> map_of w (url @ ''/'' @ n) \<noteq> None \<longrightarrow> url_plain n)"

definition tidy :: "nodes \<Rightarrow> nodes \<Rightarrow> bool" where
  "tidy w0 w = (other_files_kept w0 w \<and> plain_names w)"

lemma Split_subset: "p \<in> set (Split c s) \<Longrightarrow> set p \<subseteq> set s"
proof (induction s arbitrary: p)
  case (Cons d s)
  then obtain a as where s: "Split c s = a # as" using Split_not_Nil [of c s] by (cases "Split c s") auto
  then have "set a \<subseteq> set s" "set p \<subseteq> set s" if "p \<in> set as" using Cons.IH that by auto
  moreover have "set a \<subseteq> set s" using Cons.IH s by simp
  ultimately show ?case using Cons.prems s by (fastforce split: if_splits)
qed simp

lemma last_component:
  assumes "url @ ''/'' @ n = base @ ''/'' @ rest" "CHR 0x2F \<notin> set n"
  shows "set n \<subseteq> set rest"
proof -
  have "Split (CHR 0x2F) (url @ CHR 0x2F # n) = Split (CHR 0x2F) url @ [n]"
    using assms(2) by (simp add: Split_append)
  moreover have "Split (CHR 0x2F) (base @ CHR 0x2F # rest) = Split (CHR 0x2F) base @ Split (CHR 0x2F) rest"
    by (simp add: Split_append)
  ultimately have "n = last (Split (CHR 0x2F) rest)"
    using assms(1) Split_not_Nil [of "CHR 0x2F" rest] by (metis append_Cons append_Nil last_appendR last_snoc)
  then have "n \<in> set (Split (CHR 0x2F) rest)" using last_in_set [OF Split_not_Nil] by simp
  then show ?thesis by (rule Split_subset)
qed

lemma demo_lists_plain: "lists_plain demo_store a (tidy w0)"
  unfolding lists_plain_def
proof (intro allI impI)
  fix dir w names assume n: "tidy w0 w \<and> fst (propfindJSONNames demo_store a dir w) = Inr names"
  have ns: "list_all (\<lambda>n. CHR 0x2F \<notin> set n) (member_names dir w)" using member_names_set [of dir w] by (simp add: list_all_iff)
  then have s: "Split (CHR 0x2F) (join_names (member_names dir w)) = [] # member_names dir w"
    using Split_join_names [of "[]" "member_names dir w"] by simp
  let ?hs = "[(''Authorization'', a), (''Content-Type'', ''application/xml''), (''Depth'', ''1'')]"
  obtain c t where e: "dav_effect (request ''PROPFIND'' dir ?hs propfind_types) (map_of w) = (c, t)" by fastforce
  have r: "rq_Method (request ''PROPFIND'' dir ?hs propfind_types) = ''PROPFIND''" "rq_URL (request ''PROPFIND'' dir ?hs propfind_types) = dir"
    by (simp_all add: request_def Header_Set_def)
  have "\<exists>w1. send demo_dav ''PROPFIND'' dir ?hs propfind_types w = (Inr \<lparr>rs_Status = c, rs_Body = (join_names (member_names dir w), None)\<rparr>, w1)"
    using send_request [of demo_dav dir "''PROPFIND''" ?hs propfind_types w] by (simp add: demo_dav_def e r)
  then have "names = json_names ([] # member_names dir w)"
    using n s by (auto simp: propfindJSONNames_def demo_store_def Store_New_def demo_xml_def demo_listing ReadAll_def split: if_splits)
  then have "set names \<subseteq> set (json_names ([] # member_names dir w))" by simp
  then show "list_all url_plain names"
    using n member_names_set [of dir w] unfolding json_names_plain [OF ns] by (fastforce simp: tidy_def plain_names_def list_all_iff)
qed

lemma demo_kept: "kept_by_bookkeeping demo_store a (other_files_kept w0)"
  unfolding kept_by_bookkeeping_def
proof (intro conjI allI impI)
  fix req w assume "other_files_kept w0 w"
  then show "other_files_kept w0 (snd (ht_Do (nt_http (st_client demo_store)) req w))"
    by (simp add: demo_store_def Store_New_def demo_identity_def)
next
  fix req w assume b: "bookkeeping_request demo_store a req" and k: "other_files_kept w0 w"
  have m: "dav_method (rq_Method req)" using b by (simp add: bookkeeping_request_def)
  obtain r where r: "rq_URL req = davBase demo_store ''u1'' @ ''/'' @ r" "IsInternalPath r"
    using b by (auto simp: bookkeeping_request_def demo_callers inside_def)
  show "other_files_kept w0 (snd (ht_Do (nt_http (st_net demo_store)) req w))"
    unfolding other_files_kept_def
  proof (intro allI impI)
    fix r' assume n: "\<not> IsInternalPath r'"
    then have "davBase demo_store ''u1'' @ ''/'' @ r' \<noteq> rq_URL req" using r by auto
    then show "map_of (snd (ht_Do (nt_http (st_net demo_store)) req w)) (davBase demo_store ''u1'' @ ''/'' @ r')
        = map_of w0 (davBase demo_store ''u1'' @ ''/'' @ r')"
      using demo_dav_frame [OF m] k n by (simp add: other_files_kept_def)
  qed
qed

lemma demo_kept_tidy: "kept_by_bookkeeping demo_store a (tidy w0)"
  unfolding kept_by_bookkeeping_def
proof (intro conjI allI impI)
  fix req w assume "tidy w0 w"
  then show "tidy w0 (snd (ht_Do (nt_http (st_client demo_store)) req w))"
    by (simp add: demo_store_def Store_New_def demo_identity_def)
next
  fix req w assume b: "bookkeeping_request demo_store a req" and k: "tidy w0 w"
  have m: "dav_method (rq_Method req)" using b by (simp add: bookkeeping_request_def)
  obtain r where r: "rq_URL req = davBase demo_store ''u1'' @ ''/'' @ r" "url_plain r"
    using b by (auto simp: bookkeeping_request_def demo_callers inside_def)
  let ?w = "snd (ht_Do (nt_http (st_net demo_store)) req w)"
  have "url_plain n" if n: "CHR 0x2F \<notin> set n" "HasSuffix n ''.json''" "map_of ?w (url @ ''/'' @ n) \<noteq> None" for url n
  proof (cases "url @ ''/'' @ n = rq_URL req")
    case True
    then show ?thesis using last_component [of url n "davBase demo_store ''u1''" r] r n(1) by (auto simp: url_plain_def list_all_iff)
  next
    case False
    then have "map_of w (url @ ''/'' @ n) \<noteq> None" using n(3) demo_dav_frame [OF m] by simp
    then show ?thesis using k n(1,2) unfolding tidy_def plain_names_def by blast
  qed
  moreover have "other_files_kept w0 ?w"
    using demo_kept [of a w0] b k unfolding kept_by_bookkeeping_def tidy_def by blast
  ultimately show "tidy w0 ?w" unfolding tidy_def plain_names_def by blast
qed

lemma demo_space_tidy: "tidy demo_space demo_space"
proof -
  have "url_plain n" if "CHR 0x2F \<notin> set n" "map_of demo_space (url @ ''/'' @ n) \<noteq> None" for url n
  proof -
    have "url @ CHR 0x2F # n \<in> fst ` set demo_space" using that(2) by (simp add: map_of_eq_None_iff)
    then have "n \<in> (\<lambda>k. last (Split (CHR 0x2F) k)) ` fst ` set demo_space"
      using last_Split_append [OF that(1), of url] by (metis (no_types, lifting) imageI)
    then show ?thesis
      by (auto simp: demo_space_def demo_urls url_plain_def unreserved_def)
  qed
  then show ?thesis by (simp add: tidy_def other_files_kept_def plain_names_def)
qed

theorem store_stays_internal_witness:
  "other_files_kept demo_space (snd (Store_Put demo_store ''Bearer t'' (demo_workflow\<lparr>wd_ID := ''flow-2''\<rparr>) demo_space))
   \<and> other_files_kept demo_space (snd (Store_Delete demo_store ''Bearer t'' ''flow-2'' demo_space))
   \<and> other_files_kept demo_space (snd (Store_List demo_store ''Bearer t'' demo_space))
   \<and> other_files_kept demo_space (snd (ListExecutions demo_store ''Bearer t'' ''flow-2'' demo_space))"
proof -
  have i: "id_ok ''flow-2''" "plain_id ''run-2''" by (simp_all add: id_ok_def plain_id_def unreserved_def)
  show ?thesis
    using store_stays_internal [OF demo_kept_tidy [of "''Bearer t''" demo_space] demo_space_tidy i, where flow = demo_workflow and x = demo_record]
      demo_lists_plain [of "''Bearer t''" demo_space]
    unfolding tidy_def [of demo_space] by blast
qed

end
