(* ===== verification/GraphWalk.thy ===== *)
theory GraphWalk
  imports Model
begin

text \<open>
  backend/pkg/executor, the method \<^verbatim>\<open>orderedNodes\<close>: the order in which \<^verbatim>\<open>Run\<close> executes the nodes of a
  workflow graph. The walk is a loop over a queue; its termination needs the marking of visited ids,
  since graphs may have cycles.
\<close>

section \<open>The order of the nodes\<close>

text \<open>\<^verbatim>\<open>byID\<close>: of two nodes with one id the later wins, as in the map the code fills.\<close>

definition byID :: "WorkflowNode list \<Rightarrow> string \<Rightarrow> WorkflowNode option" where
  "byID nodes = map_of (rev (map (\<lambda>n. (wn_ID n, n)) nodes))"

definition outgoing :: "WorkflowEdge list \<Rightarrow> string \<Rightarrow> string list" where
  "outgoing edges nid = map we_Target (filter (\<lambda>e. we_Source e = nid) edges)"

text \<open>The id of the first trigger node; the empty string if there is none.\<close>

fun start_node :: "WorkflowNode list \<Rightarrow> string" where
  "start_node [] = []"
| "start_node (n # ns) = (if wn_Type n = ''trigger'' then wn_ID n else start_node ns)"

lemma outgoing_no_source: "nid \<notin> we_Source ` set edges \<Longrightarrow> outgoing edges nid = []"
  by (auto simp: outgoing_def filter_empty_conv)

text \<open>The loop over the queue: \<open>visited\<close> are the ids marked so far, \<open>ordered\<close> the nodes collected.\<close>

function walk :: "WorkflowNode list \<Rightarrow> WorkflowEdge list \<Rightarrow> string list \<Rightarrow> string list
    \<Rightarrow> WorkflowNode list \<Rightarrow> WorkflowNode list" where
  "walk nodes edges [] visited ordered = ordered"
| "walk nodes edges (nid # queue) visited ordered =
     (if nid \<in> set visited then walk nodes edges queue visited ordered
      else walk nodes edges (queue @ outgoing edges nid) (nid # visited)
             (case byID nodes nid of Some n \<Rightarrow> ordered @ [n] | None \<Rightarrow> ordered))"
  by pat_completeness auto

termination
proof (relation "inv_image (finite_psubset <*lex*> less_than)
    (\<lambda>(nodes, edges, queue, visited, ordered). (we_Source ` set edges - set visited, length queue))",
    goal_cases)
  case 1
  show ?case by (simp add: wf_lex_prod)
next
  case (2 nodes edges nid queue visited ordered)
  then show ?case by simp
next
  case (3 nodes edges nid queue visited ordered)
  show ?case
  proof (cases "nid \<in> we_Source ` set edges")
    case True
    then show ?thesis using 3 by (auto simp: finite_psubset_def)
  next
    case False
    then have "we_Source ` set edges - set (nid # visited) = we_Source ` set edges - set visited"
      by auto
    then show ?thesis using outgoing_no_source [OF False] by simp
  qed
qed

definition orderedNodes :: "WorkflowGraph \<Rightarrow> WorkflowNode list" where
  "orderedNodes g =
     (let start = start_node (wg_Nodes g) in
      if start = [] then [] else walk (wg_Nodes g) (wg_Edges g) [start] [] [])"

definition edge_rel :: "WorkflowEdge list \<Rightarrow> (string \<times> string) set" where
  "edge_rel edges = (\<lambda>e. (we_Source e, we_Target e)) ` set edges"

lemma in_outgoing: "t \<in> set (outgoing edges s) \<longleftrightarrow> (s, t) \<in> edge_rel edges"
  by (auto simp: outgoing_def edge_rel_def image_iff)

lemma byID_Some: "byID nodes i = Some n \<Longrightarrow> wn_ID n = i \<and> n \<in> set nodes"
  by (auto simp: byID_def dest!: map_of_SomeD)

lemma byID_dom: "(\<exists>n. byID nodes i = Some n) \<longleftrightarrow> i \<in> wn_ID ` set nodes"
proof -
  have "dom (byID nodes) = wn_ID ` set nodes"
    by (simp add: byID_def dom_map_of_conv_image_fst image_image)
  then show ?thesis by (auto simp: dom_def)
qed

text \<open>
  The ids the walk marks: the list of ids collected is kept beside the nodes, so that the nodes are
  those ids looked up.
\<close>

definition walk_inv :: "WorkflowNode list \<Rightarrow> string list \<Rightarrow> WorkflowNode list \<Rightarrow> bool" where
  "walk_inv nodes visited ordered \<longleftrightarrow>
     distinct visited \<and> ordered = List.map_filter (byID nodes) (rev visited)"

lemma map_filter_snoc:
  "List.map_filter f (xs @ [x]) = List.map_filter f xs @ (case f x of Some y \<Rightarrow> [y] | None \<Rightarrow> [])"
  by (induction xs) (auto simp: List.map_filter_simps split: option.splits)

lemma walk_visits:
  assumes "walk_inv nodes visited ordered"
    and "\<forall>s\<in>set visited. \<forall>t. (s, t) \<in> edge_rel edges \<longrightarrow> t \<in> set visited \<union> set queue"
  shows "\<exists>vs. walk_inv nodes vs (walk nodes edges queue visited ordered)
      \<and> set vs = set visited \<union> (edge_rel edges)\<^sup>* `` set queue"
  using assms
proof (induction nodes edges queue visited ordered rule: walk.induct)
  case (1 nodes edges visited ordered)
  then show ?case by (intro exI [of _ visited]) simp
next
  case (2 nodes edges nid queue visited ordered)
  let ?E = "edge_rel edges"
  show ?case
  proof (cases "nid \<in> set visited")
    case True
    then obtain vs where vs: "walk_inv nodes vs (walk nodes edges queue visited ordered)"
      "set vs = set visited \<union> ?E\<^sup>* `` set queue"
      using "2.IH"(1) "2.prems" by auto
    have "?E\<^sup>* `` {nid} \<subseteq> set vs"
    proof
      fix x assume "x \<in> ?E\<^sup>* `` {nid}"
      then have "(nid, x) \<in> ?E\<^sup>*" by simp
      then show "x \<in> set vs"
      proof (induction rule: rtrancl_induct)
        case base
        then show ?case using True vs(2) by simp
      next
        case (step y z)
        then consider "y \<in> set visited" | "y \<in> ?E\<^sup>* `` set queue" using vs(2) by auto
        then show ?case
        proof cases
          case 1
          then have "z \<in> set visited \<union> set (nid # queue)" using "2.prems"(2) step by blast
          then show ?thesis using vs(2) True by auto
        next
          case 2
          then show ?thesis using vs(2) step(2) by (auto intro: rtrancl_into_rtrancl)
        qed
      qed
    qed
    then have "set vs = set visited \<union> ?E\<^sup>* `` set (nid # queue)" using vs(2) by auto
    then show ?thesis using vs(1) True by auto
  next
    case False
    let ?ord = "case byID nodes nid of Some n \<Rightarrow> ordered @ [n] | None \<Rightarrow> ordered"
    have inv: "walk_inv nodes (nid # visited) ?ord"
      using "2.prems"(1) False by (auto simp: walk_inv_def map_filter_snoc split: option.splits)
    have cl: "\<forall>s\<in>set (nid # visited). \<forall>t. (s, t) \<in> ?E \<longrightarrow>
        t \<in> set (nid # visited) \<union> set (queue @ outgoing edges nid)"
      using "2.prems"(2) by (auto simp: in_outgoing)
    obtain vs where vs: "walk_inv nodes vs (walk nodes edges (queue @ outgoing edges nid) (nid # visited) ?ord)"
      "set vs = set (nid # visited) \<union> ?E\<^sup>* `` set (queue @ outgoing edges nid)"
      using "2.IH"(2) [OF False inv cl] by blast
    have "?E\<^sup>* `` {nid} = insert nid (?E\<^sup>* `` set (outgoing edges nid))"
    proof -
      have "?E\<^sup>* `` {nid} = {nid} \<union> ?E\<^sup>* `` (?E `` {nid})" by (auto elim: converse_rtranclE intro: converse_rtrancl_into_rtrancl)
      moreover have "?E `` {nid} = set (outgoing edges nid)" by (auto simp: in_outgoing)
      ultimately show ?thesis by simp
    qed
    then have "set vs = set visited \<union> ?E\<^sup>* `` set (nid # queue)" using vs(2) by auto
    then show ?thesis using vs(1) False by auto
  qed
qed

text \<open>
  C35. The walk collects exactly the nodes reachable from the trigger along the edges, each id once,
  whatever the shape of the graph (cycles, joins, edges to nodes that do not exist), and it always
  terminates; without a trigger node there is nothing to run.
\<close>

theorem orderedNodes_reachable:
  "distinct (map wn_ID (orderedNodes g))
   \<and> set (orderedNodes g) \<subseteq> set (wg_Nodes g)
   \<and> wn_ID ` set (orderedNodes g) =
       (if start_node (wg_Nodes g) = [] then {}
        else (edge_rel (wg_Edges g))\<^sup>* `` {start_node (wg_Nodes g)} \<inter> wn_ID ` set (wg_Nodes g))"
proof (cases "start_node (wg_Nodes g) = []")
  case True
  then show ?thesis by (simp add: orderedNodes_def)
next
  case False
  let ?b = "byID (wg_Nodes g)"
  obtain vs where vs: "walk_inv (wg_Nodes g) vs (orderedNodes g)"
    "set vs = (edge_rel (wg_Edges g))\<^sup>* `` {start_node (wg_Nodes g)}"
    using walk_visits [of "wg_Nodes g" "[]" "[]" "wg_Edges g" "[start_node (wg_Nodes g)]"] False
    by (auto simp: orderedNodes_def walk_inv_def List.map_filter_simps)
  have ids: "map wn_ID (List.map_filter ?b xs) = filter (\<lambda>i. \<exists>n. ?b i = Some n) xs" for xs
    by (induction xs) (auto simp: List.map_filter_simps dest: byID_Some split: option.splits)
  have o: "map wn_ID (orderedNodes g) = filter (\<lambda>i. \<exists>n. ?b i = Some n) (rev vs)"
    using vs(1) ids by (simp add: walk_inv_def)
  have "set (orderedNodes g) \<subseteq> set (wg_Nodes g)"
    using vs(1) by (auto simp: walk_inv_def List.map_filter_def dest: byID_Some)
  moreover have "distinct (map wn_ID (orderedNodes g))" using o vs(1) by (simp add: walk_inv_def)
  moreover have "wn_ID ` set (orderedNodes g) = set vs \<inter> wn_ID ` set (wg_Nodes g)"
  proof -
    have "wn_ID ` set (orderedNodes g) = {i \<in> set vs. \<exists>n. ?b i = Some n}"
      using arg_cong [OF o, of set] by simp
    also have "\<dots> = set vs \<inter> wn_ID ` set (wg_Nodes g)" by (auto simp: byID_dom)
    finally show ?thesis .
  qed
  ultimately show ?thesis using vs(2) False by simp
qed


text \<open>A chain: every node has one outgoing edge, to the next one, and the last has none.\<close>

fun chained :: "WorkflowEdge list \<Rightarrow> string list \<Rightarrow> bool" where
  "chained edges [] = True"
| "chained edges [x] = (outgoing edges x = [])"
| "chained edges (x # y # r) = (outgoing edges x = [y] \<and> chained edges (y # r))"

lemma byID_member: "distinct (map wn_ID nodes) \<Longrightarrow> n \<in> set nodes \<Longrightarrow> byID nodes (wn_ID n) = Some n"
  unfolding byID_def by (rule map_of_is_SomeI) (auto simp: o_def rev_map simp flip: rev_map)

lemma walk_chain:
  "chained edges (map wn_ID (n # ns)) \<Longrightarrow> distinct (map wn_ID (n # ns)) \<Longrightarrow>
   set (map wn_ID (n # ns)) \<inter> set visited = {} \<Longrightarrow>
   \<forall>m\<in>set (n # ns). byID nodes (wn_ID m) = Some m \<Longrightarrow>
   walk nodes edges [wn_ID n] visited ordered = ordered @ n # ns"
proof (induction ns arbitrary: n visited ordered)
  case Nil
  then show ?case by simp
next
  case (Cons m ns)
  then show ?case using Cons.IH [of m "wn_ID n # visited" "ordered @ [n]"] by simp
qed

lemma start_node_unique: "filter (\<lambda>n. wn_Type n = ''trigger'') nodes = [t] \<Longrightarrow> start_node nodes = wn_ID t"
  by (induction nodes) (auto split: if_splits)

text \<open>
  A workflow the user built as a chain runs in the order of the chain: for a graph with one
  trigger whose nodes are linked one after the other, the walk gives the linked nodes in that order,
  whatever the order in which the graph lists its nodes and edges.
\<close>

lemma orderedNodes_chain:
  assumes "distinct (map wn_ID (wg_Nodes g))" "set (t # ns) \<subseteq> set (wg_Nodes g)"
    "filter (\<lambda>n. wn_Type n = ''trigger'') (wg_Nodes g) = [t]" "wn_ID t \<noteq> []"
    "chained (wg_Edges g) (map wn_ID (t # ns))" "distinct (map wn_ID (t # ns))"
  shows "orderedNodes g = t # ns"
proof -
  have "\<forall>m\<in>set (t # ns). byID (wg_Nodes g) (wn_ID m) = Some m"
    using assms(1,2) by (auto intro!: byID_member)
  then have "walk (wg_Nodes g) (wg_Edges g) [wn_ID t] [] [] = t # ns"
    using walk_chain [OF assms(5,6), of "[]" "wg_Nodes g" "[]"] by simp
  then show ?thesis using assms(4) start_node_unique [OF assms(3)] by (simp add: orderedNodes_def)
qed

text \<open>Small graphs for concrete runs.\<close>

definition demo_node :: "string \<Rightarrow> string \<Rightarrow> (string \<times> json) list \<Rightarrow> WorkflowNode" where
  "demo_node i ty d = \<lparr>wn_ID = i, wn_Type = ty, wn_Position = \<lparr>np_X = ''0'', np_Y = ''0''\<rparr>, wn_Data = d\<rparr>"

definition demo_edge :: "string \<Rightarrow> string \<Rightarrow> WorkflowEdge" where
  "demo_edge a b = \<lparr>we_ID = a @ b, we_Source = a, we_Target = b, we_Data = None\<rparr>"

text \<open>
  Where paths join, the walk is not a topological order: in this graph c is reached from t directly
  and through a and b, and it is visited before b, one of its predecessors.
\<close>

definition demo_join :: WorkflowGraph where
  "demo_join = \<lparr>wg_Nodes = [demo_node ''t'' ''trigger'' [], demo_node ''a'' ''llm'' [],
       demo_node ''b'' ''llm'' [], demo_node ''c'' ''action'' []],
     wg_Edges = [demo_edge ''t'' ''a'', demo_edge ''a'' ''b'', demo_edge ''b'' ''c'', demo_edge ''t'' ''c'']\<rparr>"

lemma join_runs_before_predecessor:
  "map wn_ID (orderedNodes demo_join) = [''t'', ''a'', ''c'', ''b''] \<and> (''b'', ''c'') \<in> edge_rel (wg_Edges demo_join)"
  by (simp add: orderedNodes_def demo_join_def demo_node_def demo_edge_def outgoing_def byID_def edge_rel_def)

end
