(* ===== verification/Templates.thy ===== *)
theory Templates
  imports World
begin

text \<open>
  backend/pkg/executor, the function \<^verbatim>\<open>render\<close>: filling the placeholders of a prompt or an action
  parameter with the variables of the run. The variables are a Go map, so the order in which they are
  replaced is open; the theorem says when it does not matter.
\<close>

section \<open>Templates\<close>

abbreviation lbrace :: char where "lbrace \<equiv> CHR 0x7B"
abbreviation rbrace :: char where "rbrace \<equiv> CHR 0x7D"

definition placeholder :: "string \<Rightarrow> string" where
  "placeholder k = lbrace # lbrace # k @ [rbrace, rbrace]"

text \<open>The body of \<open>render\<close> once the order of the range loop is known.\<close>

definition render_in_order :: "vars \<Rightarrow> string \<Rightarrow> string" where
  "render_in_order order tmpl = fold (\<lambda>(k, v) out. ReplaceAll out (placeholder k) v) order tmpl"

definition render :: "'w platform \<Rightarrow> string \<Rightarrow> vars \<Rightarrow> 'w \<Rightarrow> string \<times> 'w" where
  "render P tmpl m w = (case pf_RangeVars P m w of (order, w') \<Rightarrow> (render_in_order order tmpl, w'))"

text \<open>
  The meaning of a template: literal text without braces, and holes. A hole with a value shows the
  value, a hole without one stays as it is.
\<close>

datatype segment = Lit string | Hole string

fun segment_text :: "segment \<Rightarrow> string" where
  "segment_text (Lit s) = s"
| "segment_text (Hole k) = placeholder k"

definition template_text :: "segment list \<Rightarrow> string" where
  "template_text segs = concat (map segment_text segs)"

definition plain :: "string \<Rightarrow> bool" where
  "plain s = (lbrace \<notin> set s \<and> rbrace \<notin> set s)"

fun segment_ok :: "segment \<Rightarrow> bool" where
  "segment_ok (Lit s) = plain s"
| "segment_ok (Hole k) = plain k"

fun fill :: "vars \<Rightarrow> segment \<Rightarrow> segment" where
  "fill m (Lit s) = Lit s"
| "fill m (Hole k) = (case map_of m k of Some v \<Rightarrow> Lit v | None \<Rightarrow> Hole k)"

lemma prefix_closed_key:
  "rbrace \<notin> set k \<Longrightarrow> rbrace \<notin> set k' \<Longrightarrow> HasPrefix (k' @ rbrace # x) (k @ rbrace # y) \<Longrightarrow> k = k'"
proof (induction k' arbitrary: k)
  case Nil
  then show ?case by (cases k) auto
next
  case (Cons c k')
  then show ?case by (cases k) auto
qed

lemma ReplaceAll_other_hole:
  assumes "plain k" "plain k'" "k \<noteq> k'"
  shows "ReplaceAll (placeholder k' @ s) (placeholder k) v = placeholder k' @ ReplaceAll s (placeholder k) v"
proof -
  let ?p = "placeholder k"
  have 0: "\<not> HasPrefix (placeholder k' @ s) ?p"
    using prefix_closed_key [of k k' "rbrace # s" "[rbrace]"] assms by (auto simp: placeholder_def plain_def)
  have 1: "\<not> HasPrefix (lbrace # k' @ rbrace # rbrace # s) ?p"
    using assms(2) by (cases k') (auto simp: placeholder_def plain_def)
  have "ReplaceAll (placeholder k' @ s) ?p v
      = lbrace # lbrace # ReplaceAll (k' @ rbrace # rbrace # s) ?p v"
    using 0 1 by (simp add: placeholder_def)
  also have "ReplaceAll (k' @ rbrace # rbrace # s) ?p v = k' @ rbrace # rbrace # ReplaceAll s ?p v"
    using ReplaceAll_copy [of lbrace "k' @ [rbrace, rbrace]" s "lbrace # k @ [rbrace, rbrace]" v] assms(2)
    by (auto simp: placeholder_def plain_def)
  finally show ?thesis by (simp add: placeholder_def)
qed

lemma ReplaceAll_template:
  "plain k \<Longrightarrow> list_all segment_ok segs \<Longrightarrow>
   ReplaceAll (template_text segs) (placeholder k) v = template_text (map (fill [(k, v)]) segs)"
proof (induction segs)
  case Nil
  then show ?case by (simp add: template_text_def)
next
  case (Cons seg segs)
  then have IH: "ReplaceAll (template_text segs) (placeholder k) v = template_text (map (fill [(k, v)]) segs)"
    by simp
  show ?case
  proof (cases seg)
    case (Lit s)
    then show ?thesis
      using IH Cons.prems ReplaceAll_copy [of lbrace s "template_text segs" "lbrace # k @ [rbrace, rbrace]" v]
      by (simp add: template_text_def placeholder_def plain_def)
  next
    case (Hole k')
    show ?thesis
    proof (cases "k' = k")
      case True
      have "placeholder k \<noteq> []" by (simp add: placeholder_def)
      then show ?thesis using Hole True IH ReplaceAll_match [of "placeholder k" "template_text segs" v]
        by (simp add: template_text_def)
    next
      case False
      then show ?thesis using Hole IH Cons.prems ReplaceAll_other_hole [of k k' "template_text segs" v]
        by (simp add: template_text_def)
    qed
  qed
qed

lemma fill_ok: "segment_ok s \<Longrightarrow> plain v \<Longrightarrow> segment_ok (fill [(k, v)] s)"
  by (cases s) auto

lemma render_in_order_template:
  "list_all segment_ok segs \<Longrightarrow> \<forall>(k, v)\<in>set order. plain k \<and> plain v \<Longrightarrow>
   render_in_order order (template_text segs) = template_text (map (fill order) segs)"
proof (induction order arbitrary: segs)
  case Nil
  have "fill [] = (\<lambda>s. s)" by (rule ext, case_tac s) auto
  then show ?case by (simp add: render_in_order_def)
next
  case (Cons kv order)
  obtain k v where kv: "kv = (k, v)" by fastforce
  have ok: "list_all segment_ok (map (fill [(k, v)]) segs)"
    using Cons.prems kv by (simp add: list_all_iff fill_ok)
  have "fill order (fill [(k, v)] s) = fill ((k, v) # order) s" for s
    by (cases s) auto
  then show ?case
    using Cons.IH [OF ok] Cons.prems kv ReplaceAll_template [of k segs v]
    by (simp add: render_in_order_def o_def)
qed

text \<open>
  C39. Rendering is the simultaneous substitution of the variables: for a template made of literal
  text and placeholders, and variables whose names and values contain no braces, the result is the
  template with every known placeholder replaced by its value, in every order the range loop may take.
\<close>

theorem render_substitutes:
  assumes "range_ok P" "distinct (map fst m)" "\<forall>(k, v)\<in>set m. plain k \<and> plain v"
    "list_all segment_ok segs"
  shows "fst (render P (template_text segs) m w) = template_text (map (fill m) segs)"
proof -
  obtain m' w' where r: "pf_RangeVars P m w = (m', w')" by fastforce
  then have ms: "mset m' = mset m" using assms(1) by (simp add: range_ok_vars)
  then have "set m' = set m" "distinct (map fst m')"
    using assms(2) by (metis set_mset_mset, metis mset_map mset_eq_imp_distinct_iff)
  then have "map_of m' = map_of m" using assms(2) by (metis map_of_perm_distinct)
  then have "fill m' = fill m" by (intro ext, case_tac x) auto
  moreover have "\<forall>(k, v)\<in>set m'. plain k \<and> plain v" using assms(3) \<open>set m' = set m\<close> by simp
  ultimately show ?thesis
    using render_in_order_template [OF assms(4), of m'] r by (simp add: render_def)
qed

theorem render_substitutes_witness:
  "fst (render demo_platform ''Tag {{file.name}} as {{x}}'' [(''file.name'', ''a.pdf''), (''y'', ''1'')] 0)
     = ''Tag a.pdf as {{x}}''"
proof -
  have t: "template_text [Lit ''Tag '', Hole ''file.name'', Lit '' as '', Hole ''x''] = ''Tag {{file.name}} as {{x}}''"
    by (simp add: template_text_def placeholder_def)
  show ?thesis
    using render_substitutes [of demo_platform "[(''file.name'', ''a.pdf''), (''y'', ''1'')]"
        "[Lit ''Tag '', Hole ''file.name'', Lit '' as '', Hole ''x'']" 0]
    unfolding t by (simp add: plain_def template_text_def placeholder_def)
qed

text \<open>
  Without the condition on the values the result depends on the order of the range loop: a file whose
  content is itself a placeholder is expanded or not, as the loop happens to run.
\<close>

lemma render_order_dependent:
  "render_in_order [(''file.content'', ''{{file.name}}''), (''file.name'', ''a.pdf'')] ''{{file.content}}'' = ''a.pdf''
   \<and> render_in_order [(''file.name'', ''a.pdf''), (''file.content'', ''{{file.name}}'')] ''{{file.content}}'' = ''{{file.name}}''"
  by (simp add: render_in_order_def placeholder_def)

end
