(* ===== verification/TextExtract.thy ===== *)
theory TextExtract
  imports GoPrelude
begin

text \<open>
  backend/pkg/textextract: detecting a document's format and extracting its plain text.

  The PDF parser (third party) and the zip and XML readers are parameters, one record \<open>doc_libs\<close>:
  opening a PDF and reading its text, the entries of a zip archive (name, then the result of opening
  it, then of reading it), and the tokens of an XML text up to its end or to a syntax error.
\<close>

datatype xml_token = StartElement string | EndElement string | CharData string | OtherToken

record doc_libs =
  pdf_NewReader :: "string \<Rightarrow> unit result"
  pdf_GetPlainText :: "string \<Rightarrow> string result"
  zip_NewReader :: "string \<Rightarrow> (string \<times> string result result) list result"
  xml_tokens :: "string \<Rightarrow> xml_token list \<times> go_error option"

datatype Format = FormatPlainText | FormatPDF | FormatDOCX

text \<open>\<^verbatim>\<open>filepath.Ext\<close>: the part of the last path element from its last dot on.\<close>

definition file_Ext :: "string \<Rightarrow> string" where
  "file_Ext path =
     (let base = last (Split CHR ''/'' path) in
      case LastIndex CHR ''.'' base of None \<Rightarrow> [] | Some i \<Rightarrow> drop i base)"

text \<open>\<^verbatim>\<open>strings.ToLower\<close> on ASCII letters, the only ones in the names compared with.\<close>

definition lower_char :: "char \<Rightarrow> char" where
  "lower_char c =
     (let n = (of_char c :: nat) in if 65 \<le> n \<and> n \<le> 90 then char_of (n + 32) else c)"

definition ToLower :: "string \<Rightarrow> string" where
  "ToLower s = map lower_char s"

abbreviation document_part :: string where "document_part \<equiv> ''word/document.xml''"

definition isDOCX :: "doc_libs \<Rightarrow> string \<Rightarrow> bool" where
  "isDOCX L content =
     (if \<not> HasPrefix content [CHR ''P'', CHR ''K'', CHR 0x03, CHR 0x04] then False
      else case zip_NewReader L content of
             Inl e \<Rightarrow> False
           | Inr files \<Rightarrow> list_ex (\<lambda>(name, _). name = document_part) files)"

definition DetectFormat :: "doc_libs \<Rightarrow> string \<Rightarrow> string \<Rightarrow> Format" where
  "DetectFormat L filename content =
     (if ToLower (file_Ext filename) = ''.pdf'' then FormatPDF
      else if ToLower (file_Ext filename) = ''.docx'' then FormatDOCX
      else if HasPrefix content ''%PDF-'' then FormatPDF
      else if isDOCX L content then FormatDOCX
      else FormatPlainText)"

definition extractPDF :: "doc_libs \<Rightarrow> string \<Rightarrow> string result" where
  "extractPDF L content =
     (case pdf_NewReader L content of
        Inl e \<Rightarrow> Inl (Wrap ''textextract: opening pdf'' e)
      | Inr _ \<Rightarrow> (case pdf_GetPlainText L content of
          Inl e \<Rightarrow> Inl (Wrap ''textextract: reading pdf text'' e)
        | Inr text \<Rightarrow> Inr text))"

text \<open>The token loop: the flag \<^verbatim>\<open>inText\<close> and the text built so far.\<close>

fun walk_tokens :: "xml_token list \<Rightarrow> bool \<Rightarrow> string \<Rightarrow> string" where
  "walk_tokens [] inText sb = sb"
| "walk_tokens (StartElement name # ts) inText sb =
     walk_tokens ts (if name = ''t'' then True else inText) sb"
| "walk_tokens (EndElement name # ts) inText sb =
     (if name = ''t'' then walk_tokens ts False sb
      else if name = ''p'' then walk_tokens ts inText (sb @ [CHR 0x0A])
      else walk_tokens ts inText sb)"
| "walk_tokens (CharData t # ts) inText sb = walk_tokens ts inText (if inText then sb @ t else sb)"
| "walk_tokens (OtherToken # ts) inText sb = walk_tokens ts inText sb"

definition parseWordprocessingXML :: "doc_libs \<Rightarrow> string \<Rightarrow> string result" where
  "parseWordprocessingXML L data =
     (case xml_tokens L data of
        (ts, Some e) \<Rightarrow> Inl (Wrap ''textextract: parsing docx xml'' e)
      | (ts, None) \<Rightarrow> Inr (TrimRight (CHR 0x0A) (walk_tokens ts False [])))"

definition extractDOCX :: "doc_libs \<Rightarrow> string \<Rightarrow> string result" where
  "extractDOCX L content =
     (case zip_NewReader L content of
        Inl e \<Rightarrow> Inl (Wrap ''textextract: opening docx'' e)
      | Inr files \<Rightarrow>
          (case find (\<lambda>(name, _). name = document_part) files of
             None \<Rightarrow> Inl (Msg ''textextract: docx has no word/document.xml part'')
           | Some (_, Inl e) \<Rightarrow> Inl (Wrap ''textextract: opening docx document part'' e)
           | Some (_, Inr (Inl e)) \<Rightarrow> Inl (Wrap ''textextract: reading docx document part'' e)
           | Some (_, Inr (Inr data)) \<Rightarrow> parseWordprocessingXML L data))"

definition Extract :: "doc_libs \<Rightarrow> string \<Rightarrow> string \<Rightarrow> string result" where
  "Extract L filename content =
     (case DetectFormat L filename content of
        FormatPDF \<Rightarrow> extractPDF L content
      | FormatDOCX \<Rightarrow> extractDOCX L content
      | FormatPlainText \<Rightarrow> Inr content)"

section \<open>The text of a word-processing document\<close>

text \<open>
  An XML text is a sequence of nodes; \<open>node_tokens\<close> are the tokens the reader gives for one, where \<open>Markup\<close> is a
  comment, a processing instruction or a directive. Names are local names. In a WordprocessingML part the
  elements called \<^verbatim>\<open>t\<close> hold characters only (\<open>simple_text\<close>); everything else may be nested in any way: document and
  body, run and paragraph properties, tables, text boxes with paragraphs of their own.
\<close>

datatype xml_node = Element string "xml_node list" | Text string | Markup

fun node_tokens :: "xml_node \<Rightarrow> xml_token list" where
  "node_tokens (Element name kids) = StartElement name # concat (map node_tokens kids) @ [EndElement name]"
| "node_tokens (Text s) = [CharData s]"
| "node_tokens Markup = [OtherToken]"

fun is_element :: "xml_node \<Rightarrow> bool" where
  "is_element (Element name kids) = True"
| "is_element _ = False"

fun simple_text :: "xml_node \<Rightarrow> bool" where
  "simple_text (Element name kids) = ((name = ''t'' \<longrightarrow> list_all (\<lambda>k. \<not> is_element k) kids) \<and> list_all simple_text kids)"
| "simple_text _ = True"

text \<open>What a document says: the characters of its text elements, and the end of a line after each paragraph.\<close>

fun characters :: "xml_node \<Rightarrow> string" where
  "characters (Text s) = s"
| "characters _ = []"

fun word_text :: "xml_node \<Rightarrow> string" where
  "word_text (Element name kids) =
     (if name = ''t'' then concat (map characters kids)
      else concat (map word_text kids) @ (if name = ''p'' then [CHR 0x0A] else []))"
| "word_text _ = []"

lemma walk_characters:
  "list_all (\<lambda>k. \<not> is_element k) kids \<Longrightarrow>
   walk_tokens (concat (map node_tokens kids) @ ts) True sb = walk_tokens ts True (sb @ concat (map characters kids))"
proof (induction kids arbitrary: sb)
  case (Cons k kids)
  then show ?case by (cases k) auto
qed simp

lemma walk_nodes:
  "(\<And>k ts sb. k \<in> set kids \<Longrightarrow> walk_tokens (node_tokens k @ ts) False sb = walk_tokens ts False (sb @ word_text k)) \<Longrightarrow>
   walk_tokens (concat (map node_tokens kids) @ ts) False sb = walk_tokens ts False (sb @ concat (map word_text kids))"
  by (induction kids arbitrary: sb) simp_all

lemma walk_node: "simple_text x \<Longrightarrow> walk_tokens (node_tokens x @ ts) False sb = walk_tokens ts False (sb @ word_text x)"
proof (induction x arbitrary: ts sb)
  case (Element name kids)
  show ?case
  proof (cases "name = ''t''")
    case True
    then show ?thesis using Element.prems by (simp add: walk_characters)
  next
    case False
    have "walk_tokens (concat (map node_tokens kids) @ ts') False sb' = walk_tokens ts' False (sb' @ concat (map word_text kids))" for ts' sb'
      by (rule walk_nodes) (use Element in \<open>simp add: list_all_iff\<close>)
    then show ?thesis using False by simp
  qed
qed simp_all

text \<open>
  C40. Text extraction from a DOCX file is exact: when a file is taken for one, by its name or by its content, and the first part
  called word/document.xml can be read and is well-formed XML whose text elements hold characters only, \<^verbatim>\<open>Extract\<close>
  returns the characters of its text elements in document order with a line break at the end of each
  paragraph, and nothing else of the document; trailing line breaks are trimmed.
\<close>

theorem docx_text:
  assumes "DetectFormat L name content = FormatDOCX"
    "zip_NewReader L content = Inr (before @ (document_part, Inr (Inr data)) # rest)" "document_part \<notin> fst ` set before"
    "xml_tokens L data = (concat (map node_tokens doc), None)" "list_all simple_text doc"
  shows "Extract L name content = Inr (TrimRight (CHR 0x0A) (concat (map word_text doc)))"
proof -
  have "find (\<lambda>(n, _). n = document_part) before = None"
    using assms(3) by (force simp: find_None_iff)
  then have "find (\<lambda>(n, _). n = document_part) (before @ (document_part, Inr (Inr data)) # rest) = Some (document_part, Inr (Inr data))"
    by (induction before) (auto split: if_splits)
  moreover have "walk_tokens (concat (map node_tokens doc)) False [] = concat (map word_text doc)"
    using walk_nodes [of doc "[]" "[]"] walk_node assms(5) by (simp add: list_all_iff)
  ultimately show ?thesis
    using assms by (simp add: Extract_def extractDOCX_def parseWordprocessingXML_def)
qed

text \<open>A document as the test of the package builds it, with two paragraphs, and a comment and properties added to one of its runs.\<close>

definition demo_docx :: "xml_node list" where
  "demo_docx = [Markup, Element ''document'' [Element ''body'' [
     Element ''p'' [Element ''r'' [Element ''t'' [Text ''Hello World'']]],
     Element ''p'' [Element ''pPr'' [Element ''jc'' []], Text '' '', Element ''r'' [Element ''rPr'' [Element ''b'' []], Element ''t'' [Text ''Second '', Markup]],
       Element ''r'' [Element ''t'' [Text ''paragraph'']]]]]]"

definition demo_libs :: doc_libs where
  "demo_libs = \<lparr>pdf_NewReader = (\<lambda>c. Inr ()), pdf_GetPlainText = (\<lambda>c. Inr ''pdf text''),
     zip_NewReader = (\<lambda>c. Inr [(''[Content_Types].xml'', Inr (Inr [])), (document_part, Inr (Inr ''xml''))]),
     xml_tokens = (\<lambda>d. (concat (map node_tokens demo_docx), None))\<rparr>"

theorem docx_text_witness:
  "Extract demo_libs ''/a/report.docx'' ''PK'' = Inr (''Hello World'' @ CHR 0x0A # ''Second paragraph'')"
proof -
  have f: "DetectFormat demo_libs ''/a/report.docx'' ''PK'' = FormatDOCX" by code_simp
  have z: "zip_NewReader demo_libs ''PK'' = Inr ([(''[Content_Types].xml'', Inr (Inr []))] @ (document_part, Inr (Inr ''xml'')) # [])"
    by (simp add: demo_libs_def)
  have t: "xml_tokens demo_libs ''xml'' = (concat (map node_tokens demo_docx), None)" by (simp add: demo_libs_def)
  show ?thesis
    using docx_text [OF f z _ t] by (simp add: demo_docx_def TrimRight_def)
qed

text \<open>
  A file the package does not recognise passes through unchanged, and the extension decides
  before the content is looked at.
\<close>

theorem extract_by_format:
  "(DetectFormat L name content = FormatPlainText \<longrightarrow> Extract L name content = Inr content)
   \<and> (ToLower (file_Ext name) = ''.pdf'' \<longrightarrow> Extract L name content = extractPDF L content)
   \<and> (ToLower (file_Ext name) = ''.docx'' \<longrightarrow> Extract L name content = extractDOCX L content)"
  by (simp add: Extract_def DetectFormat_def)

theorem extract_by_format_witness:
  "Extract demo_libs ''notes.txt'' ''plain'' = Inr ''plain'' \<and>
   Extract demo_libs ''/a/B.PDF'' ''plain'' = Inr ''pdf text''"
proof -
  have "DetectFormat demo_libs ''notes.txt'' ''plain'' = FormatPlainText" by code_simp
  moreover have "ToLower (file_Ext ''/a/B.PDF'') = ''.pdf''" by code_simp
  moreover have "extractPDF demo_libs ''plain'' = Inr ''pdf text''"
    by (simp add: extractPDF_def demo_libs_def)
  ultimately show ?thesis
    using extract_by_format [of demo_libs "''notes.txt''" "''plain''"]
      extract_by_format [of demo_libs "''/a/B.PDF''" "''plain''"] by simp
qed

end
