(* ===== verification/Executor.thy ===== *)
theory Executor
  imports GraphWalk Templates TextExtract
begin

text \<open>
  backend/pkg/executor: running one workflow. The node kinds (\<open>runLLM\<close>, \<open>runExtractText\<close>,
  \<open>runAction\<close>) and the loop \<open>Run\<close> over the nodes that GraphWalk orders, with the templates of
  Templates. The interfaces the executor is built from (\<^verbatim>\<open>LLMClient\<close>, \<^verbatim>\<open>FileClient\<close>, \<^verbatim>\<open>GraphClient\<close>, and
  the notification package) are records of operations on the world; an authorization header is a string.
\<close>

section \<open>Interfaces\<close>

record Message =
  ms_Role :: string
  ms_Content :: string

record 'w LLMClient =
  llm_Complete :: "Message list \<Rightarrow> string \<Rightarrow> int \<Rightarrow> 'w \<Rightarrow> string result \<times> 'w"

record 'w FileClient =
  fc_GetContent :: "string \<Rightarrow> string \<Rightarrow> 'w \<Rightarrow> (string \<times> string) result \<times> 'w"
  fc_Move :: "string \<Rightarrow> string \<Rightarrow> string \<Rightarrow> 'w \<Rightarrow> unit result \<times> 'w"
  fc_Copy :: "string \<Rightarrow> string \<Rightarrow> string \<Rightarrow> 'w \<Rightarrow> unit result \<times> 'w"
  fc_Comment :: "string \<Rightarrow> string \<Rightarrow> string \<Rightarrow> 'w \<Rightarrow> unit result \<times> 'w"

record 'w GraphClient =
  gc_ResolveItemID :: "string \<Rightarrow> string \<Rightarrow> 'w \<Rightarrow> string result \<times> 'w"
  gc_AssignTag :: "string \<Rightarrow> string \<Rightarrow> string \<Rightarrow> 'w \<Rightarrow> unit result \<times> 'w"

record 'w Executor =
  ex_llm :: "'w LLMClient"
  ex_files :: "'w FileClient"
  ex_graph :: "'w GraphClient"
  ex_notify :: "string \<Rightarrow> string \<Rightarrow> string \<Rightarrow> 'w \<Rightarrow> unit result \<times> 'w"
  ex_docs :: doc_libs
  ex_platform :: "'w platform"

section \<open>Paths\<close>

abbreviation slash :: char where "slash \<equiv> CHR 0x2F"

definition baseName :: "string \<Rightarrow> string" where
  "baseName davPath = last (Split slash (Trim slash davPath))"

definition dirName :: "string \<Rightarrow> string" where
  "dirName davPath =
     (let trimmed = Trim slash davPath in
      case LastIndex slash trimmed of None \<Rightarrow> [] | Some idx \<Rightarrow> take idx trimmed)"

lemma baseName_no_slash: "slash \<notin> set (baseName p)"
  unfolding baseName_def by (rule Split_parts [OF last_in_set]) simp

lemma Trim_append_base:
  "slash \<notin> set b \<Longrightarrow> b \<noteq> [] \<Longrightarrow> \<exists>d'. Trim slash (d @ slash # b) = b \<or> Trim slash (d @ slash # b) = d' @ slash # b"
proof (induction d)
  case Nil
  then have "dropWhile (\<lambda>x. x = slash) b = b" by (cases b) auto
  then show ?case using Nil TrimRight_append_noslash [of slash b "[]"] by (simp add: Trim_def TrimLeft_def)
next
  case (Cons c d)
  show ?case
  proof (cases "c = slash")
    case True
    then show ?thesis using Cons by (simp add: Trim_def TrimLeft_def)
  next
    case False
    then have "Trim slash ((c # d) @ slash # b) = (c # d) @ slash # b"
      using TrimRight_append_noslash [OF Cons.prems, of "(c # d) @ [slash]"]
      by (simp add: Trim_def TrimLeft_def)
    then show ?thesis by blast
  qed
qed

lemma baseName_append: "slash \<notin> set b \<Longrightarrow> b \<noteq> [] \<Longrightarrow> baseName (d @ slash # b) = b"
  using Trim_append_base [of b d] by (auto simp: baseName_def)

lemma dir_base:
  "slash \<in> set (Trim slash p) \<Longrightarrow> Trim slash p = dirName p @ slash # baseName p"
proof -
  assume "slash \<in> set (Trim slash p)"
  then obtain i where i: "LastIndex slash (Trim slash p) = Some i"
    by (metis LastIndex_None not_Some_eq)
  note s = LastIndex_Some [OF i]
  have "last (Split slash (Trim slash p)) = drop (Suc i) (Trim slash p)"
    using s by (metis last_Split_append)
  then show ?thesis using s i by (simp add: dirName_def baseName_def)
qed

section \<open>The node kinds\<close>

text \<open>
  A node handler gets the variables and its result record and gives back the error, if any, with
  both as they are then (Go passes the map and a pointer to the result).
\<close>

definition runLLM :: "'w Executor \<Rightarrow> WorkflowNode \<Rightarrow> vars \<Rightarrow> NodeResult \<Rightarrow> 'w
    \<Rightarrow> go_error option \<times> vars \<times> NodeResult \<times> 'w" where
  "runLLM ex node m res w =
     (let rawPrompt = as_string (jget (wn_Data node) ''prompt'');
          (prompt, w1) = render (ex_platform ex) rawPrompt m w
      in if prompt = [] then (Some (Msg ''llm node has no prompt configured''), m, res, w1)
         else let modelOverride = as_string (jget (wn_Data node) ''model'')
           in case llm_Complete (ex_llm ex) [\<lparr>ms_Role = ''user'', ms_Content = prompt\<rparr>] modelOverride 0 w1 of
                (Inl e, w2) \<Rightarrow> (Some e, m, res, w2)
              | (Inr output, w2) \<Rightarrow>
                  (None, vset ''llm.output'' output m, res\<lparr>nr_Output := JStr output\<rparr>, w2))"

definition runExtractText :: "'w Executor \<Rightarrow> WorkflowNode \<Rightarrow> vars \<Rightarrow> NodeResult
    \<Rightarrow> go_error option \<times> vars \<times> NodeResult" where
  "runExtractText ex node m res =
     (let v = as_string (jget (wn_Data node) ''outputVariable'');
          outputVar = (if v = [] then ''file.text'' else v)
      in case Extract (ex_docs ex) (vget m ''file.name'') (vget m ''file.content'') of
           Inl e \<Rightarrow> (Some e, m, res)
         | Inr text \<Rightarrow> (None, vset outputVar text m,
             res\<lparr>nr_Output := JStr (show_int (int (length text)) @ '' characters extracted'')\<rparr>))"

text \<open>The closure \<^verbatim>\<open>param\<close> of \<open>runAction\<close>: a parameter of the action, rendered.\<close>

definition action_param :: "'w Executor \<Rightarrow> WorkflowNode \<Rightarrow> vars \<Rightarrow> string \<Rightarrow> 'w \<Rightarrow> string \<times> 'w" where
  "action_param ex node m key w =
     (case as_object (jget (wn_Data node) ''actionParams'') of
        None \<Rightarrow> ([], w)
      | Some params \<Rightarrow> render (ex_platform ex) (as_string (jget params key)) m w)"

definition runTag :: "'w Executor \<Rightarrow> string \<Rightarrow> WorkflowNode \<Rightarrow> vars \<Rightarrow> string \<Rightarrow> NodeResult \<Rightarrow> 'w
    \<Rightarrow> string \<times> go_error option \<times> vars \<times> NodeResult \<times> 'w" where
  "runTag ex auth node m cur res w =
     (let (tag, w1) = action_param ex node m ''tag'' w in
      if tag = [] \<or> cur = [] then
        (cur, Some (Msg ''tag action needs both a target file and a tag value''), m, res, w1)
      else (case gc_ResolveItemID (ex_graph ex) auth cur w1 of
          (Inl e, w2) \<Rightarrow> (cur, Some e, m, res, w2)
        | (Inr itemID, w2) \<Rightarrow> (case gc_AssignTag (ex_graph ex) auth itemID tag w2 of
              (Inl e, w3) \<Rightarrow> (cur, Some e, m, res, w3)
            | (Inr _, w3) \<Rightarrow> (cur, None, vset ''tag.output'' tag m, res\<lparr>nr_Output := JStr tag\<rparr>, w3))))"

definition runComment :: "'w Executor \<Rightarrow> string \<Rightarrow> WorkflowNode \<Rightarrow> vars \<Rightarrow> string \<Rightarrow> NodeResult \<Rightarrow> 'w
    \<Rightarrow> string \<times> go_error option \<times> vars \<times> NodeResult \<times> 'w" where
  "runComment ex auth node m cur res w =
     (let (text, w1) = action_param ex node m ''comment'' w in
      if text = [] \<or> cur = [] then
        (cur, Some (Msg ''comment action needs both a target file and comment text''), m, res, w1)
      else (case fc_Comment (ex_files ex) auth cur text w1 of
          (Inl e, w2) \<Rightarrow> (cur, Some e, m, res, w2)
        | (Inr _, w2) \<Rightarrow> (cur, None, vset ''comment.output'' text m, res\<lparr>nr_Output := JStr text\<rparr>, w2)))"

definition runMoveCopy :: "'w Executor \<Rightarrow> string \<Rightarrow> string \<Rightarrow> WorkflowNode \<Rightarrow> vars \<Rightarrow> string \<Rightarrow> NodeResult \<Rightarrow> 'w
    \<Rightarrow> string \<times> go_error option \<times> vars \<times> NodeResult \<times> 'w" where
  "runMoveCopy ex auth actionType node m cur res w =
     (let (dest, w1) = action_param ex node m ''destination'' w in
      if dest = [] \<or> cur = [] then
        (cur, Some (Msg (actionType @ '' action needs both a target file and a destination'')), m, res, w1)
      else
        let destPath = TrimRight slash dest @ ''/'' @ baseName cur;
            (r, w2) = (if actionType = ''move'' then fc_Move (ex_files ex) auth cur destPath w1
                       else fc_Copy (ex_files ex) auth cur destPath w1)
        in case r of
             Inl e \<Rightarrow> (cur, Some e, m, res, w2)
           | Inr _ \<Rightarrow> (if actionType = ''move'' then destPath else cur, None,
               vset (actionType @ ''.output'') destPath m, res\<lparr>nr_Output := JStr destPath\<rparr>, w2))"

definition runRename :: "'w Executor \<Rightarrow> string \<Rightarrow> WorkflowNode \<Rightarrow> vars \<Rightarrow> string \<Rightarrow> NodeResult \<Rightarrow> 'w
    \<Rightarrow> string \<times> go_error option \<times> vars \<times> NodeResult \<times> 'w" where
  "runRename ex auth node m cur res w =
     (let (newName, w1) = action_param ex node m ''newName'' w in
      if newName = [] \<or> cur = [] then
        (cur, Some (Msg ''rename action needs both a target file and a new name''), m, res, w1)
      else
        let destPath = dirName cur @ ''/'' @ newName
        in case fc_Move (ex_files ex) auth cur destPath w1 of
             (Inl e, w2) \<Rightarrow> (cur, Some e, m, res, w2)
           | (Inr _, w2) \<Rightarrow> (destPath, None, vset ''rename.output'' destPath m,
               res\<lparr>nr_Output := JStr destPath\<rparr>, w2))"

definition runNotify :: "'w Executor \<Rightarrow> WorkflowNode \<Rightarrow> vars \<Rightarrow> string \<Rightarrow> NodeResult \<Rightarrow> 'w
    \<Rightarrow> string \<times> go_error option \<times> vars \<times> NodeResult \<times> 'w" where
  "runNotify ex node m cur res w =
     (let (target, w1) = action_param ex node m ''target'' w in
      if target = [] then (cur, Some (Msg ''notify action needs a target''), m, res, w1)
      else
        let (message, w2) = action_param ex node m ''message'' w1
        in case ex_notify ex target ''Workflows'' message w2 of
             (Inl e, w3) \<Rightarrow> (cur, Some e, m, res, w3)
           | (Inr _, w3) \<Rightarrow> (cur, None, vset ''notify.output'' ''sent'' m,
               res\<lparr>nr_Output := JStr ''sent''\<rparr>, w3))"

definition runAction :: "'w Executor \<Rightarrow> string \<Rightarrow> WorkflowNode \<Rightarrow> vars \<Rightarrow> string \<Rightarrow> NodeResult \<Rightarrow> 'w
    \<Rightarrow> string \<times> go_error option \<times> vars \<times> NodeResult \<times> 'w" where
  "runAction ex auth node m cur res w =
     (let actionType = as_string (jget (wn_Data node) ''actionType'') in
      if actionType = ''tag'' then runTag ex auth node m cur res w
      else if actionType = ''comment'' then runComment ex auth node m cur res w
      else if actionType = ''move'' \<or> actionType = ''copy'' then runMoveCopy ex auth actionType node m cur res w
      else if actionType = ''rename'' then runRename ex auth node m cur res w
      else if actionType = ''notify'' then runNotify ex node m cur res w
      else (cur, Some (Msg (''unknown action type '' @ Quote actionType)), m, res, w))"

section \<open>Running a workflow\<close>

text \<open>The switch on the node type in the loop of \<^verbatim>\<open>Run\<close>.\<close>

definition runNode :: "'w Executor \<Rightarrow> string \<Rightarrow> WorkflowNode \<Rightarrow> vars \<Rightarrow> string \<Rightarrow> NodeResult \<Rightarrow> 'w
    \<Rightarrow> string \<times> go_error option \<times> vars \<times> NodeResult \<times> 'w" where
  "runNode ex auth node m cur res w =
     (if wn_Type node = ''llm'' then
        (case runLLM ex node m res w of (err, m', res', w') \<Rightarrow> (cur, err, m', res', w'))
      else if wn_Type node = ''extractText'' then
        (case runExtractText ex node m res of (err, m', res') \<Rightarrow> (cur, err, m', res', w))
      else if wn_Type node = ''action'' then runAction ex auth node m cur res w
      else (cur, Some (Msg (''unknown node type '' @ Quote (wn_Type node))), m, res, w))"

definition fresh_result :: "WorkflowNode \<Rightarrow> NodeResult" where
  "fresh_result node = \<lparr>nr_NodeID = wn_ID node, nr_Status = ''succeeded'', nr_Output = JNull, nr_Error = None\<rparr>"

definition failed_result :: "NodeResult \<Rightarrow> go_error \<Rightarrow> NodeResult" where
  "failed_result res e = res\<lparr>nr_Status := ''failed'',
     nr_Error := Some \<lparr>er_Code = ''nodeFailed'', er_Message = error_text e\<rparr>\<rparr>"

text \<open>The loop: the results so far, and whether it stopped at a failing node.\<close>

fun runNodes :: "'w Executor \<Rightarrow> string \<Rightarrow> WorkflowNode list \<Rightarrow> vars \<Rightarrow> string \<Rightarrow> NodeResult list \<Rightarrow> 'w
    \<Rightarrow> NodeResult list \<times> bool \<times> 'w" where
  "runNodes ex auth [] m cur results w = (results, False, w)"
| "runNodes ex auth (node # nodes) m cur results w =
     (if wn_Type node = ''trigger'' then runNodes ex auth nodes m cur results w
      else (case runNode ex auth node m cur (fresh_result node) w of
          (cur', Some e, m', res, w') \<Rightarrow> (results @ [failed_result res e], True, w')
        | (cur', None, m', res, w') \<Rightarrow> runNodes ex auth nodes m' cur' (results @ [res]) w'))"

text \<open>The variables a run starts with: the target file's name and content, if it could be read.\<close>

definition initial_vars :: "'w Executor \<Rightarrow> string \<Rightarrow> string \<Rightarrow> 'w \<Rightarrow> vars \<times> 'w" where
  "initial_vars ex auth resourcePath w =
     (if resourcePath = [] then ([], w)
      else (case fc_GetContent (ex_files ex) auth resourcePath w of
          (Inl e, w') \<Rightarrow> ([], w')
        | (Inr (content, name), w') \<Rightarrow>
            (vset ''file.content'' content (vset ''file.name'' name []), w')))"

definition Run :: "'w Executor \<Rightarrow> string \<Rightarrow> WorkflowDefinition \<Rightarrow> string \<Rightarrow> string \<Rightarrow> 'w
    \<Rightarrow> ExecutionRecord \<times> 'w" where
  "Run ex auth flow triggeredBy resourcePath w =
     (let P = ex_platform ex;
          (uuid, w1) = pf_NewUUID P w;
          (started, w2) = pf_Now P w1;
          (m, w3) = initial_vars ex auth resourcePath w2;
          (results, failed, w4) = runNodes ex auth (orderedNodes (wd_Graph flow)) m resourcePath [] w3;
          (completed, w5) = pf_Now P w4
      in (\<lparr>xr_ID = uuid, xr_WorkflowID = wd_ID flow, xr_TriggeredBy = triggeredBy,
           xr_Status = (if failed then ''failed'' else ''succeeded''),
           xr_StartedDateTime = format_rfc3339_nano started,
           xr_CompletedDateTime = format_rfc3339_nano completed,
           xr_NodeResults = results,
           xr_Error = (if failed then Some \<lparr>er_Code = ''executionFailed'',
               er_Message = ''one or more nodes failed''\<rparr> else None)\<rparr>, w5))"


section \<open>What a run reports\<close>

lemmas node_kind_defs =
  runLLM_def runExtractText_def runTag_def runComment_def runMoveCopy_def runRename_def runNotify_def

text \<open>No handler touches the identity or the status of its result record.\<close>

definition same_result :: "NodeResult \<Rightarrow> NodeResult \<Rightarrow> bool" where
  "same_result r r' \<longleftrightarrow> nr_NodeID r' = nr_NodeID r \<and> nr_Status r' = nr_Status r \<and> nr_Error r' = nr_Error r"

lemma runLLM_result: "runLLM ex n m r w = (e, m', r', w') \<Longrightarrow> same_result r r'"
  by (auto simp: runLLM_def same_result_def Let_def split: prod.splits sum.splits if_splits)

lemma runExtractText_result: "runExtractText ex n m r = (e, m', r') \<Longrightarrow> same_result r r'"
  by (auto simp: runExtractText_def same_result_def Let_def split: sum.splits)

lemma runTag_result: "runTag ex a n m c r w = (c', e, m', r', w') \<Longrightarrow> same_result r r'"
  by (auto simp: runTag_def same_result_def Let_def split: prod.splits sum.splits if_splits)

lemma runComment_result: "runComment ex a n m c r w = (c', e, m', r', w') \<Longrightarrow> same_result r r'"
  by (auto simp: runComment_def same_result_def Let_def split: prod.splits sum.splits if_splits)

lemma runMoveCopy_result: "runMoveCopy ex a t n m c r w = (c', e, m', r', w') \<Longrightarrow> same_result r r'"
  by (auto simp: runMoveCopy_def same_result_def Let_def split: prod.splits sum.splits if_splits)

lemma runRename_result: "runRename ex a n m c r w = (c', e, m', r', w') \<Longrightarrow> same_result r r'"
  by (auto simp: runRename_def same_result_def Let_def split: prod.splits sum.splits if_splits)

lemma runNotify_result: "runNotify ex n m c r w = (c', e, m', r', w') \<Longrightarrow> same_result r r'"
  by (auto simp: runNotify_def same_result_def Let_def split: prod.splits sum.splits if_splits)

lemma runAction_result: "runAction ex a n m c r w = (c', e, m', r', w') \<Longrightarrow> same_result r r'"
  unfolding runAction_def Let_def
  by (auto simp: same_result_def split: if_splits
      dest!: runTag_result runComment_result runMoveCopy_result runRename_result runNotify_result)

lemma runNode_result: "runNode ex a n m c r w = (c', e, m', r', w') \<Longrightarrow> same_result r r'"
  unfolding runNode_def
  by (auto simp: same_result_def split: if_splits prod.splits
      dest!: runLLM_result runExtractText_result runAction_result)

lemma runNodes_acc:
  "runNodes ex a nodes m c results w =
   (case runNodes ex a nodes m c [] w of (rs, f, w') \<Rightarrow> (results @ rs, f, w'))"
proof (induction nodes arbitrary: m c results w)
  case Nil
  then show ?case by simp
next
  case (Cons n nodes)
  obtain c' e m' r' w' where r: "runNode ex a n m c (fresh_result n) w = (c', e, m', r', w')"
    by (metis prod_cases5)
  show ?case
  proof (cases "wn_Type n = ''trigger''")
    case True
    then show ?thesis using Cons.IH [of m c results w] by simp
  next
    case False
    then show ?thesis
      using r Cons.IH [of m' c' "results @ [r']" w'] Cons.IH [of m' c' "[r']" w']
      by (cases e) (auto split: prod.splits)
  qed
qed

definition steps :: "WorkflowNode list \<Rightarrow> WorkflowNode list" where
  "steps nodes = filter (\<lambda>n. wn_Type n \<noteq> ''trigger'') nodes"

definition succeeded :: "NodeResult \<Rightarrow> bool" where
  "succeeded r = (nr_Status r = ''succeeded'' \<and> nr_Error r = None)"

definition failed :: "NodeResult \<Rightarrow> bool" where
  "failed r = (nr_Status r = ''failed'' \<and> nr_Error r \<noteq> None)"

text \<open>The results report the first \<open>k\<close> steps: all of them succeeded, or the last one failed.\<close>

definition complete_report :: "WorkflowNode list \<Rightarrow> NodeResult list \<Rightarrow> bool" where
  "complete_report nodes rs = (map nr_NodeID rs = map wn_ID nodes \<and> list_all succeeded rs)"

definition partial_report :: "WorkflowNode list \<Rightarrow> NodeResult list \<Rightarrow> bool" where
  "partial_report nodes rs =
     (\<exists>ok bad later n. nodes = map fst ok @ n # later \<and> rs = map snd ok @ [bad]
        \<and> list_all (\<lambda>(m, r). nr_NodeID r = wn_ID m \<and> succeeded r) ok
        \<and> nr_NodeID bad = wn_ID n \<and> failed bad)"

lemma runNodes_report:
  "case runNodes ex a nodes m c [] w of (rs, f, w') \<Rightarrow>
     (if f then partial_report (steps nodes) rs else complete_report (steps nodes) rs)"
proof (induction nodes arbitrary: m c w)
  case Nil
  then show ?case by (simp add: complete_report_def steps_def)
next
  case (Cons n nodes)
  obtain c' e m' r' w' where r: "runNode ex a n m c (fresh_result n) w = (c', e, m', r', w')"
    by (metis prod_cases5)
  show ?case
  proof (cases "wn_Type n = ''trigger''")
    case True
    then have st: "steps (n # nodes) = steps nodes" by (simp add: steps_def)
    have run: "runNodes ex a (n # nodes) m c [] w = runNodes ex a nodes m c [] w" using True by simp
    show ?thesis unfolding st run by (rule Cons.IH)
  next
    case False
    then have st: "steps (n # nodes) = n # steps nodes" by (simp add: steps_def)
    have r': "nr_NodeID r' = wn_ID n" "succeeded r'"
      using runNode_result [OF r] by (simp_all add: same_result_def fresh_result_def succeeded_def)
    show ?thesis
    proof (cases e)
      case (Some err)
      have "partial_report (n # steps nodes) [failed_result r' err]"
        unfolding partial_report_def
        by (intro exI [of _ "[]"] exI [of _ "failed_result r' err"] exI [of _ "steps nodes"] exI [of _ n])
          (simp add: r' failed_result_def failed_def)
      then show ?thesis using r False Some st by simp
    next
      case None
      obtain rs f w'' where rn: "runNodes ex a nodes m' c' [] w' = (rs, f, w'')" by (metis prod_cases3)
      have run: "runNodes ex a (n # nodes) m c [] w = (r' # rs, f, w'')"
        using r False None rn runNodes_acc [of ex a nodes m' c' "[r']" w'] by simp
      have IH: "if f then partial_report (steps nodes) rs else complete_report (steps nodes) rs"
        using Cons.IH [of m' c' w'] rn by simp
      show ?thesis
      proof (cases f)
        case True
        then obtain ok bad later k where "steps nodes = map fst ok @ k # later" "rs = map snd ok @ [bad]"
          "list_all (\<lambda>(m, r). nr_NodeID r = wn_ID m \<and> succeeded r) ok" "nr_NodeID bad = wn_ID k" "failed bad"
          using IH by (auto simp: partial_report_def)
        then have "partial_report (n # steps nodes) (r' # rs)"
          unfolding partial_report_def
          by (intro exI [of _ "(n, r') # ok"] exI [of _ bad] exI [of _ later] exI [of _ k]) (simp add: r')
        then show ?thesis using run st True by simp
      next
        case False
        then show ?thesis using run st IH r' by (simp add: complete_report_def)
      qed
    qed
  qed
qed

text \<open>
  C15. The execution record tells what happened: either the run is reported as succeeded, without an
  error, and every non-trigger node of the ordered graph has a result, in order, that succeeded; or it
  is reported as failed, with an error, the results cover the nodes up to one that failed, which is
  the last one reported, and every earlier one succeeded.
\<close>

theorem Run_report:
  "case fst (Run ex auth flow by path w) of rec \<Rightarrow>
     (xr_Status rec = ''succeeded'' \<and> xr_Error rec = None
        \<and> complete_report (steps (orderedNodes (wd_Graph flow))) (xr_NodeResults rec))
     \<or> (xr_Status rec = ''failed'' \<and> xr_Error rec \<noteq> None
        \<and> partial_report (steps (orderedNodes (wd_Graph flow))) (xr_NodeResults rec))"
proof -
  obtain u w1 t w2 m w3 where e: "pf_NewUUID (ex_platform ex) w = (u, w1)" "pf_Now (ex_platform ex) w1 = (t, w2)"
    "initial_vars ex auth path w2 = (m, w3)" by (metis surj_pair)
  obtain rs f w4 where rn: "runNodes ex auth (orderedNodes (wd_Graph flow)) m path [] w3 = (rs, f, w4)"
    by (metis prod_cases3)
  obtain t' w5 where t': "pf_Now (ex_platform ex) w4 = (t', w5)" by (metis surj_pair)
  show ?thesis
    using runNodes_report [where ex = ex and a = auth and nodes = "orderedNodes (wd_Graph flow)"
        and m = m and c = path and w = w3] e rn t'
    by (cases f) (simp_all add: Run_def Let_def)
qed

text \<open>
  A failing node ends the run: if running some nodes stops at a failure, appending any nodes
  changes neither the results nor the world the run leaves, so nothing after the failing node is
  executed.
\<close>

lemma run_stops_at_failure:
  assumes "runNodes ex auth xs m cur results w = (rs, True, w')"
  shows "runNodes ex auth (xs @ ys) m cur results w = (rs, True, w')"
  using assms
proof (induction xs arbitrary: m cur results w)
  case Nil
  then show ?case by simp
next
  case (Cons n xs)
  obtain c' e m' r' w1 where r: "runNode ex auth n m cur (fresh_result n) w = (c', e, m', r', w1)"
    by (metis prod_cases5)
  then show ?case using Cons by (cases e) (auto split: if_splits)
qed

text \<open>
  The run follows its file: a failing action leaves the current path and the variables alone; a
  successful move or rename makes the new path both the current path and its reported output; every
  other action leaves the current path; and a move keeps the file's name.
\<close>

lemma runAction_path:
  assumes "runAction ex auth n m cur r w = (cur', e, m', r', w')"
  shows "if e \<noteq> None then cur' = cur \<and> m' = m
     else if as_string (jget (wn_Data n) ''actionType'') \<in> {''move'', ''rename''}
       then nr_Output r' = JStr cur' \<and> cur \<noteq> []
         \<and> vget m' (as_string (jget (wn_Data n) ''actionType'') @ ''.output'') = cur'
         \<and> (as_string (jget (wn_Data n) ''actionType'') = ''move'' \<and> baseName cur \<noteq> [] \<longrightarrow>
              baseName cur' = baseName cur)
     else cur' = cur"
  using assms baseName_append [OF baseName_no_slash]
  unfolding runAction_def Let_def
  by (auto simp: node_kind_defs Let_def vget_vset split: if_splits prod.splits sum.splits)

end
