(* ===== verification/WebdavFile.thy ===== *)
theory WebdavFile
  imports WebdavExample Executor
begin

text \<open>
  backend/pkg/webdavfile: reading, moving, copying and commenting files in the caller's space, the
  file operations of the action nodes. A comment is kept as one more string in a JSON list below
  \<^verbatim>\<open>.workflows/comments\<close>, in a file named after the commented path.
\<close>

record 'w FilesClient =
  wf_ocisURL :: string
  wf_client :: "'w net"
  wf_clientURL :: string
  wf_net :: "'w net"

definition FilesClient_New :: "string \<Rightarrow> 'w net \<Rightarrow> string \<Rightarrow> 'w net \<Rightarrow> 'w FilesClient" where
  "FilesClient_New ocisURL client clientURL nt =
     \<lparr>wf_ocisURL = TrimRight (CHR ''/'') ocisURL, wf_client = client, wf_clientURL = clientURL, wf_net = nt\<rparr>"

definition davURL :: "'w FilesClient \<Rightarrow> string \<Rightarrow> string \<Rightarrow> string" where
  "davURL c userID davPath =
     wf_ocisURL c @ ''/remote.php/dav/files/'' @ userID @ ''/'' @ EscapedPath (Trim (CHR ''/'') davPath)"

definition files_caller :: "'w FilesClient \<Rightarrow> string \<Rightarrow> 'w \<Rightarrow> string result \<times> 'w" where
  "files_caller c authHeader w = wrap_err ''resolve current user'' (Me (wf_client c) (wf_clientURL c) authHeader w)"

definition GetContent :: "'w FilesClient \<Rightarrow> string \<Rightarrow> string \<Rightarrow> 'w \<Rightarrow> (string \<times> string) result \<times> 'w" where
  "GetContent c authHeader davPath w =
     and_then (files_caller c authHeader w) (\<lambda>userID w1.
     and_then (send (nt_http (wf_net c)) ''GET'' (davURL c userID davPath) (bearer authHeader) [] w1) (\<lambda>res w2.
       (if rs_Status res \<noteq> 200
        then Inl (Msg (''GET '' @ davPath @ '' returned status '' @ show_int (rs_Status res)))
        else check_err (ReadAll res) (\<lambda>data. Inr (data, path_Base davPath)), w2)))"

definition copyOrMove :: "'w FilesClient \<Rightarrow> string \<Rightarrow> string \<Rightarrow> string \<Rightarrow> string \<Rightarrow> 'w \<Rightarrow> unit result \<times> 'w" where
  "copyOrMove c method authHeader davPath destDavPath w =
     and_then (files_caller c authHeader w) (\<lambda>userID w1.
     and_then (send (nt_http (wf_net c)) method (davURL c userID davPath)
         [(''Authorization'', authHeader), (''Destination'', davURL c userID destDavPath), (''Overwrite'', ''F'')] [] w1)
       (\<lambda>res w2.
       (if rs_Status res = 201 \<or> rs_Status res = 204 then Inr ()
        else Inl (Msg (method @ '' '' @ davPath @ '' -> '' @ destDavPath @ '' returned status '' @ show_int (rs_Status res))), w2)))"

definition Files_Move :: "'w FilesClient \<Rightarrow> string \<Rightarrow> string \<Rightarrow> string \<Rightarrow> 'w \<Rightarrow> unit result \<times> 'w" where
  "Files_Move c authHeader davPath destDavPath = copyOrMove c ''MOVE'' authHeader davPath destDavPath"

definition Files_Copy :: "'w FilesClient \<Rightarrow> string \<Rightarrow> string \<Rightarrow> string \<Rightarrow> 'w \<Rightarrow> unit result \<times> 'w" where
  "Files_Copy c authHeader davPath destDavPath = copyOrMove c ''COPY'' authHeader davPath destDavPath"

definition files_mkcol :: "'w FilesClient \<Rightarrow> string \<Rightarrow> string \<Rightarrow> string \<Rightarrow> 'w \<Rightarrow> unit result \<times> 'w" where
  "files_mkcol c authHeader userID davPath w =
     and_then (send (nt_http (wf_net c)) ''MKCOL'' (davURL c userID davPath) (bearer authHeader) [] w) (\<lambda>res w1.
       (if rs_Status res = 201 \<or> rs_Status res = 405 \<or> rs_Status res = 409 then Inr ()
        else Inl (Msg (''MKCOL '' @ davPath @ '' returned status '' @ show_int (rs_Status res))), w1))"

definition sidecarPath :: "string \<Rightarrow> string" where
  "sidecarPath davPath = ''.workflows/comments/'' @ RawURL_EncodeToString davPath @ ''.json''"

text \<open>
  \<^verbatim>\<open>json.Unmarshal(existing, &comments)\<close> into a nil \<^verbatim>\<open>[]string\<close> with the error dropped: an element that is not
  a string stays the empty string, a document that is not a list leaves no comments.
\<close>

definition comment_texts :: "json \<Rightarrow> string list" where
  "comment_texts j = (case j of JArr vs \<Rightarrow> map as_string vs | _ \<Rightarrow> [])"

definition comments_json :: "string list \<Rightarrow> json" where
  "comments_json cs = JArr (map JStr cs)"

definition Comment :: "'w FilesClient \<Rightarrow> string \<Rightarrow> string \<Rightarrow> string \<Rightarrow> 'w \<Rightarrow> unit result \<times> 'w" where
  "Comment c authHeader davPath txt w =
     and_then (files_caller c authHeader w) (\<lambda>userID w1.
     and_then (files_mkcol c authHeader userID ''.workflows'' w1) (\<lambda>_ w2.
     and_then (files_mkcol c authHeader userID ''.workflows/comments'' w2) (\<lambda>_ w3.
       (case GetContent c authHeader (sidecarPath davPath) w3 of (existing, w4) \<Rightarrow>
         (let comments = (case existing of
                Inl err \<Rightarrow> []
              | Inr (content, _) \<Rightarrow> (case json_Unmarshal (nt_codec (wf_net c)) content of
                    Inl err \<Rightarrow> [] | Inr j \<Rightarrow> comment_texts j))
          in and_then (send (nt_http (wf_net c)) ''PUT'' (davURL c userID (sidecarPath davPath))
                 [(''Authorization'', authHeader), (''Content-Type'', ''application/json'')]
                 (json_Marshal (nt_codec (wf_net c)) (comments_json (comments @ [txt]))) w4) (\<lambda>res w5.
               (if rs_Status res \<noteq> 201 \<and> rs_Status res \<noteq> 204
                then Inl (Msg (''PUT comment sidecar returned status '' @ show_int (rs_Status res)))
                else Inr (), w5)))))))"

text \<open>The client as the executor sees it.\<close>

definition file_client :: "'w FilesClient \<Rightarrow> 'w FileClient" where
  "file_client c = \<lparr>fc_GetContent = GetContent c, fc_Move = Files_Move c, fc_Copy = Files_Copy c, fc_Comment = Comment c\<rparr>"

section \<open>On a server that keeps to the protocol\<close>

definition files_base :: "'w FilesClient \<Rightarrow> string \<Rightarrow> string" where
  "files_base c u = wf_ocisURL c @ ''/remote.php/dav/files/'' @ u"

definition files_server :: "'w FilesClient \<Rightarrow> string \<Rightarrow> string \<Rightarrow> ('w \<Rightarrow> dav_tree) \<Rightarrow> bool" where
  "files_server c a u tree =
     dav_contract (wf_net c) (Me (wf_client c) (wf_clientURL c) a) (files_base c u) a u tree"

lemma davURL_base: "davURL c u p = files_base c u @ ''/'' @ EscapedPath (Trim (CHR ''/'') p)"
  by (simp add: davURL_def files_base_def)

lemma files_caller_tree: "files_server c a u tree \<Longrightarrow> \<exists>w1. files_caller c a w = (Inr u, w1) \<and> tree w1 = tree w"
  unfolding files_server_def dav_contract_def files_caller_def by (metis wrap_err_simps(2))

lemma files_send:
  assumes "files_server c a u tree" "has_auth a hs" "in_contract (request m (davURL c u p) hs b) (tree w)"
  obtains res w1 where "send (nt_http (wf_net c)) m (davURL c u p) hs b w = (Inr res, w1)"
    "rs_Status res = fst (dav_effect (request m (davURL c u p) hs b) (tree w))"
    "tree w1 = snd (dav_effect (request m (davURL c u p) hs b) (tree w))"
    "dav_body (wf_net c) (request m (davURL c u p) hs b) (tree w) res"
  using contract_send [OF files_server_def [THEN iffD1, OF assms(1)] davURL_base assms(2,3)] by blast

lemma has_auth_destination [simp]:
  "has_auth a [(''Authorization'', a), (''Destination'', d), (''Overwrite'', f)]"
  by (simp add: has_auth_def request_def Header_Set_def vget_vset)

lemma request_destination [simp]:
  "vget (rq_Header (request m url [(''Authorization'', a), (''Destination'', d), (''Overwrite'', f)] b)) ''Destination'' = d"
  "vget (rq_Header (request m url [(''Authorization'', a), (''Destination'', d), (''Overwrite'', f)] b)) ''Overwrite'' = f"
  by (simp_all add: request_def Header_Set_def vget_vset)

lemma copyOrMove_tree:
  assumes "files_server c a u tree" "method = ''MOVE'' \<or> method = ''COPY''" "tree w (davURL c u p) \<noteq> Some Collection"
  shows "\<exists>r w1. copyOrMove c method a p q w = (r, w1)
    \<and> (let (status, t) = dav_effect (request method (davURL c u p)
          [(''Authorization'', a), (''Destination'', davURL c u q), (''Overwrite'', ''F'')] []) (tree w)
       in tree w1 = t \<and> (r = Inr () \<longleftrightarrow> status = 201 \<or> status = 204))"
proof -
  obtain w1 where w1: "files_caller c a w = (Inr u, w1)" "tree w1 = tree w" using files_caller_tree [OF assms(1)] by metis
  let ?hs = "[(''Authorization'', a), (''Destination'', davURL c u q), (''Overwrite'', ''F'')]"
  have k: "in_contract (request method (davURL c u p) ?hs []) (tree w1)" using assms(2,3) w1(2) by (auto simp: in_contract_def)
  obtain res w2 where "send (nt_http (wf_net c)) method (davURL c u p) ?hs [] w1 = (Inr res, w2)"
    "rs_Status res = fst (dav_effect (request method (davURL c u p) ?hs []) (tree w1))"
    "tree w2 = snd (dav_effect (request method (davURL c u p) ?hs []) (tree w1))"
    by (rule files_send [OF assms(1) has_auth_destination k])
  then show ?thesis using w1 by (auto simp: copyOrMove_def split: prod.split)
qed

text \<open>
  C27. Moving and copying never destroy a file. If the destination is free, in an existing folder and
  not the file itself, the move succeeds, the content is at the destination and gone from the source
  (for a copy it is in both); in every other case the caller gets an error and no file anywhere has
  changed. In particular an existing destination is never overwritten.
\<close>

theorem move_copy_safe:
  assumes "files_server c a u tree" "tree w (davURL c u p) \<noteq> Some Collection"
  shows "(case (tree w (davURL c u p), tree w (davURL c u q), tree w (parent_url (davURL c u q))) of
     (Some (File b), None, Some Collection) \<Rightarrow>
       (\<exists>w1. Files_Move c a p q w = (Inr (), w1)
          \<and> tree w1 = (tree w)(davURL c u p := None, davURL c u q \<mapsto> File b))
       \<and> (\<exists>w1. Files_Copy c a p q w = (Inr (), w1) \<and> tree w1 = (tree w)(davURL c u q \<mapsto> File b))
     | _ \<Rightarrow>
       (\<exists>err w1. Files_Move c a p q w = (Inl err, w1) \<and> tree w1 = tree w)
       \<and> (\<exists>err w1. Files_Copy c a p q w = (Inl err, w1) \<and> tree w1 = tree w))"
proof -
  let ?eff = "\<lambda>m. dav_effect (request m (davURL c u p)
          [(''Authorization'', a), (''Destination'', davURL c u q), (''Overwrite'', ''F'')] []) (tree w)"
  obtain r1 w1 where m: "Files_Move c a p q w = (r1, w1)" "tree w1 = snd (?eff ''MOVE'')"
    "r1 = Inr () \<longleftrightarrow> fst (?eff ''MOVE'') = 201 \<or> fst (?eff ''MOVE'') = 204"
    using copyOrMove_tree [OF assms(1) _ assms(2), of "''MOVE''" q] by (auto simp: Files_Move_def split_beta Let_def)
  obtain r2 w2 where k: "Files_Copy c a p q w = (r2, w2)" "tree w2 = snd (?eff ''COPY'')"
    "r2 = Inr () \<longleftrightarrow> fst (?eff ''COPY'') = 201 \<or> fst (?eff ''COPY'') = 204"
    using copyOrMove_tree [OF assms(1) _ assms(2), of "''COPY''" q] by (auto simp: Files_Copy_def split_beta Let_def)
  show ?thesis
    using assms(2) m k by (cases r1; cases r2) (auto simp: dav_effect_def Let_def split: option.splits dav_node.splits if_splits)
qed

section \<open>Comments\<close>

definition comments_dir :: string where
  "comments_dir = ''.workflows/comments''"

lemma RawURL_plain: "CHR 0x2F \<notin> set (RawURL_EncodeToString p)" "url_plain (RawURL_EncodeToString p)"
proof -
  have "list_all unreserved url_alphabet" "CHR 0x2F \<notin> set url_alphabet" by code_simp+
  then show "CHR 0x2F \<notin> set (RawURL_EncodeToString p)" "url_plain (RawURL_EncodeToString p)"
    using RawURL_set [of p] by (auto simp: url_plain_def list_all_iff)
qed

text \<open>The URLs involved: none of these paths needs escaping.\<close>

lemma comment_urls:
  "davURL c u ''.workflows'' = files_base c u @ CHR 0x2F # ''.workflows''"
  "davURL c u ''.workflows/comments'' = davURL c u ''.workflows'' @ CHR 0x2F # ''comments''"
  "davURL c u (sidecarPath p) = davURL c u ''.workflows/comments'' @ CHR 0x2F # RawURL_EncodeToString p @ ''.json''"
proof -
  have t: "Trim (CHR 0x2F) ''.workflows'' = ''.workflows''" "Trim (CHR 0x2F) ''.workflows/comments'' = ''.workflows/comments''"
    "Trim (CHR 0x2F) (sidecarPath p) = sidecarPath p"
    using TrimRight_append_noslash [of "CHR 0x2F" "''.json''" "''.workflows/comments/'' @ RawURL_EncodeToString p"]
    by (simp_all add: Trim_def TrimLeft_def TrimRight_def sidecarPath_def)
  have e: "EscapedPath ''.workflows'' = ''.workflows''" "EscapedPath ''.workflows/comments'' = ''.workflows/comments''"
    "EscapedPath (sidecarPath p) = sidecarPath p"
    using RawURL_plain(2) by (intro EscapedPath_plain; simp add: sidecarPath_def unreserved_def)+
  show "davURL c u ''.workflows'' = files_base c u @ CHR 0x2F # ''.workflows''"
    "davURL c u ''.workflows/comments'' = davURL c u ''.workflows'' @ CHR 0x2F # ''comments''"
    "davURL c u (sidecarPath p) = davURL c u ''.workflows/comments'' @ CHR 0x2F # RawURL_EncodeToString p @ ''.json''"
    unfolding davURL_base t e by (simp_all add: sidecarPath_def)
qed

lemma sidecar_distinct [simp]:
  "davURL c u (sidecarPath p) \<noteq> davURL c u ''.workflows''" "davURL c u (sidecarPath p) \<noteq> davURL c u ''.workflows/comments''"
  "davURL c u ''.workflows/comments'' \<noteq> davURL c u ''.workflows''"
  "davURL c u (sidecarPath p) = davURL c u (sidecarPath p') \<longleftrightarrow> p = p'"
  unfolding comment_urls by simp_all

lemma sidecar_parents [simp]:
  "parent_url (davURL c u ''.workflows'') = files_base c u"
  "parent_url (davURL c u ''.workflows/comments'') = davURL c u ''.workflows''"
  "parent_url (davURL c u (sidecarPath p)) = davURL c u ''.workflows/comments''"
  unfolding comment_urls using RawURL_plain(1) by (subst parent_url_append; simp)+

text \<open>What the backend keeps about a path: the comments in its file.\<close>

definition stored_comments :: "'w FilesClient \<Rightarrow> string \<Rightarrow> dav_tree \<Rightarrow> string \<Rightarrow> string list" where
  "stored_comments c u t p =
     (case t (davURL c u (sidecarPath p)) of
        Some (File data) \<Rightarrow> (case json_Unmarshal (nt_codec (wf_net c)) data of Inl err \<Rightarrow> [] | Inr j \<Rightarrow> comment_texts j)
      | _ \<Rightarrow> [])"

lemma files_mkcol_tree:
  assumes "files_server c a u tree" "folder_or_free (tree w) (davURL c u p)"
    "tree w (parent_url (davURL c u p)) = Some Collection"
  shows "\<exists>w1. files_mkcol c a u p w = (Inr (), w1) \<and> tree w1 = (tree w)(davURL c u p \<mapsto> Collection)"
proof -
  obtain res w1 where "send (nt_http (wf_net c)) ''MKCOL'' (davURL c u p) (bearer a) [] w = (Inr res, w1)"
    "rs_Status res = fst (dav_effect (request ''MKCOL'' (davURL c u p) (bearer a) []) (tree w))"
    "tree w1 = snd (dav_effect (request ''MKCOL'' (davURL c u p) (bearer a) []) (tree w))"
    by (rule files_send [OF assms(1) has_auth_bearer in_contract_request(1)])
  then show ?thesis using assms(2,3) by (auto simp: files_mkcol_def dav_effect_def Let_def folder_or_free_def)
qed

lemma GetContent_tree:
  assumes "files_server c a u tree" "tree w (davURL c u p) \<noteq> Some Collection"
  shows "\<exists>r w1. GetContent c a p w = (r, w1) \<and> tree w1 = tree w
    \<and> (case tree w (davURL c u p) of Some (File data) \<Rightarrow> r = Inr (data, path_Base p) | _ \<Rightarrow> isl r)"
proof -
  obtain w1 where w1: "files_caller c a w = (Inr u, w1)" "tree w1 = tree w" using files_caller_tree [OF assms(1)] by metis
  obtain res w2 where "send (nt_http (wf_net c)) ''GET'' (davURL c u p) (bearer a) [] w1 = (Inr res, w2)"
    "rs_Status res = fst (dav_effect (request ''GET'' (davURL c u p) (bearer a) []) (tree w1))"
    "tree w2 = snd (dav_effect (request ''GET'' (davURL c u p) (bearer a) []) (tree w1))"
    "dav_body (wf_net c) (request ''GET'' (davURL c u p) (bearer a) []) (tree w1) res"
    by (rule files_send [OF assms(1) has_auth_bearer in_contract_request(3) [where t = "tree w1", OF assms(2) [folded w1(2)]]])
  then show ?thesis
    using w1 assms(2) by (auto simp: GetContent_def dav_effect_def dav_body_def Let_def ReadAll_def
        split: option.splits dav_node.splits)
qed

text \<open>
  C28. Comments accumulate: on a server that keeps to the protocol, commenting a file succeeds from a
  space without the folders on, appends the text to what was stored for exactly that path, in order,
  and leaves the comments of every other path and every other file alone.
\<close>

theorem comments_append:
  assumes "files_server c a u tree" "tree w (files_base c u) = Some Collection"
    "folder_or_free (tree w) (davURL c u ''.workflows'')" "folder_or_free (tree w) (davURL c u ''.workflows/comments'')"
    "tree w (davURL c u (sidecarPath p)) \<noteq> Some Collection"
    "json_Unmarshal (nt_codec (wf_net c)) (json_Marshal (nt_codec (wf_net c))
        (comments_json (stored_comments c u (tree w) p @ [txt])))
      = Inr (comments_json (stored_comments c u (tree w) p @ [txt]))"
  shows "\<exists>w1. Comment c a p txt w = (Inr (), w1)
    \<and> stored_comments c u (tree w1) p = stored_comments c u (tree w) p @ [txt]
    \<and> (\<forall>p'. p' \<noteq> p \<longrightarrow> stored_comments c u (tree w1) p' = stored_comments c u (tree w) p')
    \<and> (\<forall>url. url \<notin> {davURL c u ''.workflows'', davURL c u ''.workflows/comments'', davURL c u (sidecarPath p)}
          \<longrightarrow> tree w1 url = tree w url)"
proof -
  let ?url = "davURL c u (sidecarPath p)" and ?cs = "stored_comments c u (tree w) p"
  let ?hs = "[(''Authorization'', a), (''Content-Type'', ''application/json'')]"
  let ?body = "json_Marshal (nt_codec (wf_net c)) (comments_json (?cs @ [txt]))"
  obtain w1 where w1: "files_caller c a w = (Inr u, w1)" "tree w1 = tree w" using files_caller_tree [OF assms(1)] by metis
  obtain w2 where w2: "files_mkcol c a u ''.workflows'' w1 = (Inr (), w2)"
    "tree w2 = (tree w)(davURL c u ''.workflows'' \<mapsto> Collection)"
    using files_mkcol_tree [OF assms(1), of w1 "''.workflows''"] assms(2,3) w1(2) by auto
  obtain w3 where w3: "files_mkcol c a u ''.workflows/comments'' w2 = (Inr (), w3)"
    "tree w3 = (tree w)(davURL c u ''.workflows'' \<mapsto> Collection, davURL c u ''.workflows/comments'' \<mapsto> Collection)"
    using files_mkcol_tree [OF assms(1), of w2 "''.workflows/comments''"] assms(4) w2(2)
    by (auto simp: folder_or_free_def)
  have same: "tree w3 (davURL c u (sidecarPath q)) = tree w (davURL c u (sidecarPath q))" for q by (simp add: w3(2))
  obtain r w4 where w4: "GetContent c a (sidecarPath p) w3 = (r, w4)" "tree w4 = tree w3"
    "case tree w ?url of Some (File data) \<Rightarrow> r = Inr (data, path_Base (sidecarPath p)) | _ \<Rightarrow> isl r"
    using GetContent_tree [OF assms(1), of w3 "sidecarPath p"] assms(5) unfolding same by blast
  have cs: "(case r of Inl err \<Rightarrow> [] | Inr (content, _) \<Rightarrow> (case json_Unmarshal (nt_codec (wf_net c)) content of
      Inl err \<Rightarrow> [] | Inr j \<Rightarrow> comment_texts j)) = ?cs"
    using w4(3) assms(5) by (auto simp: stored_comments_def isl_def split: option.splits dav_node.splits)
  obtain res w5 where w5: "send (nt_http (wf_net c)) ''PUT'' ?url ?hs ?body w4 = (Inr res, w5)"
    "rs_Status res = fst (dav_effect (request ''PUT'' ?url ?hs ?body) (tree w4))"
    "tree w5 = snd (dav_effect (request ''PUT'' ?url ?hs ?body) (tree w4))"
    by (rule files_send [OF assms(1) has_auth_json(1) in_contract_request(2)])
  have put: "rs_Status res = 201 \<or> rs_Status res = 204" "tree w5 = (tree w3)(?url \<mapsto> File ?body)"
    using w5(2,3) assms(5) by (auto simp: w4(2) w3(2) dav_effect_def Let_def)
  have "Comment c a p txt w = (Inr (), w5)"
    using w1 w2 w3 w4(1) w5(1) put(1) by (auto simp: Comment_def cs)
  moreover have "stored_comments c u (tree w5) p = ?cs @ [txt]"
    using assms(6) by (simp add: stored_comments_def put(2) comment_texts_def comments_json_def o_def)
  moreover have "stored_comments c u (tree w5) p' = stored_comments c u (tree w) p'" if "p' \<noteq> p" for p'
    using that same [of p'] by (simp add: stored_comments_def put(2))
  ultimately show ?thesis by (auto simp: put(2) w3(2))
qed

text \<open>
  The list is read before it is written, and a read that fails counts as no comments: when the server
  cannot deliver the comments just then, the file is overwritten with the new one alone.
\<close>

lemma comments_lost_on_failed_read:
  assumes "files_caller c a w = (Inr u, w1)" "files_mkcol c a u ''.workflows'' w1 = (Inr (), w2)"
    "files_mkcol c a u ''.workflows/comments'' w2 = (Inr (), w3)"
    "GetContent c a (sidecarPath p) w3 = (Inl err, w4)"
  shows "Comment c a p txt w =
    and_then (send (nt_http (wf_net c)) ''PUT'' (davURL c u (sidecarPath p))
        [(''Authorization'', a), (''Content-Type'', ''application/json'')]
        (json_Marshal (nt_codec (wf_net c)) (comments_json [txt])) w4)
      (\<lambda>res w5. (if rs_Status res \<noteq> 201 \<and> rs_Status res \<noteq> 204
         then Inl (Msg (''PUT comment sidecar returned status '' @ show_int (rs_Status res))) else Inr (), w5))"
  using assms by (simp add: Comment_def)

section \<open>Concrete runs\<close>

text \<open>A client of the example server, whose codec reads back one list of comments.\<close>

definition demo_comments :: codec where
  "demo_comments = \<lparr>json_Marshal = (\<lambda>j. if j = comments_json [''first'', ''second''] then ''two'' else ''other''),
     json_Unmarshal = (\<lambda>s. if s = ''two'' then Inr (comments_json [''first'', ''second''])
       else if s = ''one'' then Inr (comments_json [''first'']) else Inl (Msg s)),
     json_Decode = (\<lambda>s. Inl (Msg s))\<rparr>"

definition demo_files :: "nodes FilesClient" where
  "demo_files = FilesClient_New ''https://ocis'' demo_client ''https://ocis''
     \<lparr>nt_http = demo_dav, nt_codec = demo_comments, nt_xml = demo_xml\<rparr>"

lemma demo_files_server: "files_server demo_files a ''u1'' map_of"
  using demo_contract by (simp add: files_server_def demo_files_def FilesClient_New_def)

lemma demo_files_URL: "files_base demo_files ''u1'' = ''https://ocis/remote.php/dav/files/u1''"
  by (simp add: files_base_def demo_files_def FilesClient_New_def TrimRight_def)

lemma demo_URLs:
  "davURL demo_files ''u1'' ''/a.txt'' = ''https://ocis/remote.php/dav/files/u1/a.txt''"
  "davURL demo_files ''u1'' ''/b.txt'' = ''https://ocis/remote.php/dav/files/u1/b.txt''"
  unfolding davURL_base demo_files_URL
  by (simp_all add: Trim_def TrimLeft_def TrimRight_def EscapedPath_plain unreserved_def)

definition demo_user_files :: nodes where
  "demo_user_files = [(''https://ocis/remote.php/dav/files/u1'', Collection),
     (''https://ocis/remote.php/dav/files/u1/a.txt'', File ''content''),
     (davURL demo_files ''u1'' ''.workflows'', Collection),
     (davURL demo_files ''u1'' ''.workflows/comments'', Collection),
     (davURL demo_files ''u1'' (sidecarPath ''/a.txt''), File ''one'')]"

theorem move_copy_safe_witness:
  "(\<exists>w1. Files_Move demo_files ''Bearer t'' ''/a.txt'' ''/b.txt'' demo_user_files = (Inr (), w1)
      \<and> map_of w1 ''https://ocis/remote.php/dav/files/u1/b.txt'' = Some (File ''content''))
   \<and> (\<exists>err w1. Files_Move demo_files ''Bearer t'' ''/b.txt'' ''/a.txt'' demo_user_files = (Inl err, w1))"
proof -
  let ?t = "map_of demo_user_files"
  have n: "''https://ocis/remote.php/dav/files/u1'' \<noteq> davURL demo_files ''u1'' q" for q
    using demo_files_URL unfolding davURL_base by simp
  have f: "?t (davURL demo_files ''u1'' ''/a.txt'') = Some (File ''content'')"
    "?t (davURL demo_files ''u1'' ''/b.txt'') = None"
    "?t (parent_url (davURL demo_files ''u1'' ''/b.txt'')) = Some Collection"
    using comment_urls [of demo_files "''u1''"] demo_files_URL
    by (simp_all add: demo_URLs demo_user_files_def parent_url_def)
  show ?thesis
    using move_copy_safe [OF demo_files_server [of "''Bearer t''"], of demo_user_files "''/a.txt''" "''/b.txt''"]
      move_copy_safe [OF demo_files_server [of "''Bearer t''"], of demo_user_files "''/b.txt''" "''/a.txt''"]
    unfolding f by (auto simp: demo_URLs)
qed

theorem comments_append_witness:
  "\<exists>w1. Comment demo_files ''Bearer t'' ''/a.txt'' ''second'' demo_user_files = (Inr (), w1)
     \<and> stored_comments demo_files ''u1'' (map_of w1) ''/a.txt'' = [''first'', ''second'']"
proof -
  have k: "json_Unmarshal (nt_codec (wf_net demo_files)) ''one'' = Inr (comments_json [''first''])"
    "json_Unmarshal (nt_codec (wf_net demo_files)) (json_Marshal (nt_codec (wf_net demo_files)) (comments_json [''first'', ''second'']))
       = Inr (comments_json [''first'', ''second''])"
    by (simp_all add: demo_files_def FilesClient_New_def demo_comments_def)
  have t: "map_of demo_user_files (files_base demo_files ''u1'') = Some Collection"
    "map_of demo_user_files (davURL demo_files ''u1'' ''.workflows'') = Some Collection"
    "map_of demo_user_files (davURL demo_files ''u1'' ''.workflows/comments'') = Some Collection"
    "map_of demo_user_files (davURL demo_files ''u1'' (sidecarPath ''/a.txt'')) = Some (File ''one'')"
    using comment_urls [of demo_files "''u1''"] demo_files_URL by (simp_all add: demo_user_files_def)
  have "stored_comments demo_files ''u1'' (map_of demo_user_files) ''/a.txt'' = [''first'']"
    by (simp add: stored_comments_def t k comment_texts_def comments_json_def)
  then show ?thesis
    using comments_append [OF demo_files_server [of "''Bearer t''"], of demo_user_files "''/a.txt''" "''second''"] k(2)
    by (auto simp: t folder_or_free_def)
qed

end
