(* ===== verification/Llm.thy ===== *)
theory Llm
  imports ModelJson Http Executor
begin

text \<open>
  backend/pkg/llm: the chat-completion client of the llm node. What is sent (only model, messages and
  a limit the server's configuration caps), and what counts as an answer.
\<close>

record 'w LlmClient =
  lc_endpoint :: string
  lc_apiKey :: string
  lc_model :: string
  lc_maxTokens :: int
  lc_http :: "'w http"
  lc_codec :: codec

definition LlmClient_New :: "string \<Rightarrow> string \<Rightarrow> string \<Rightarrow> int \<Rightarrow> 'w http \<Rightarrow> codec \<Rightarrow> 'w LlmClient" where
  "LlmClient_New endpoint apiKey model maxTokens ht k =
     \<lparr>lc_endpoint = TrimRight (CHR ''/'') endpoint, lc_apiKey = apiKey, lc_model = model,
      lc_maxTokens = (if maxTokens \<le> 0 then 4096 else maxTokens), lc_http = ht, lc_codec = k\<rparr>"

text \<open>A nil client is not configured.\<close>

definition Configured :: "'w LlmClient option \<Rightarrow> bool" where
  "Configured c = (case c of None \<Rightarrow> False | Some c \<Rightarrow> lc_endpoint c \<noteq> [])"

definition enc_message :: "Message \<Rightarrow> json" where
  "enc_message m = JObj [(''role'', JStr (ms_Role m)), (''content'', JStr (ms_Content m))]"

definition enc_chatRequest :: "string \<Rightarrow> Message list \<Rightarrow> int \<Rightarrow> json" where
  "enc_chatRequest model messages maxTokens =
     JObj ([(''model'', JStr model), (''messages'', JArr (map enc_message messages))]
       @ (if maxTokens = 0 then [] else [(''max_tokens'', JNum (show_int maxTokens))]))"

definition dec_message :: "Message \<Rightarrow> json \<Rightarrow> Message result" where
  "dec_message = dec_struct (\<lambda>m kvs.
     check_err (string_field ''role'' (ms_Role m) kvs) (\<lambda>r.
     check_err (string_field ''content'' (ms_Content m) kvs) (\<lambda>c. Inr \<lparr>ms_Role = r, ms_Content = c\<rparr>)))"

text \<open>\<^verbatim>\<open>chatResponse\<close>: the messages of the choices.\<close>

definition dec_chatResponse :: "json \<Rightarrow> Message list result" where
  "dec_chatResponse = dec_struct (value_field ''choices'' (dec_slice (dec_struct (value_field ''message'' dec_message))
     \<lparr>ms_Role = [], ms_Content = []\<rparr>)) []"

definition chat_headers :: "'w LlmClient \<Rightarrow> (string \<times> string) list" where
  "chat_headers c = (''Content-Type'', ''application/json'') #
     (if lc_apiKey c \<noteq> [] then [(''Authorization'', ''Bearer '' @ lc_apiKey c)] else [])"

definition clamp_tokens :: "int \<Rightarrow> int \<Rightarrow> int" where
  "clamp_tokens cap maxTokens = (if maxTokens \<le> 0 \<or> maxTokens > cap then cap else maxTokens)"

definition Complete :: "'w LlmClient option \<Rightarrow> Message list \<Rightarrow> string \<Rightarrow> int \<Rightarrow> 'w \<Rightarrow> string result \<times> 'w" where
  "Complete client messages modelOverride maxTokens w =
     (case client of
        None \<Rightarrow> (Inl (Msg ''no LLM endpoint configured''), w)
      | Some c \<Rightarrow>
          if \<not> Configured client then (Inl (Msg ''no LLM endpoint configured''), w)
          else
            let model = (if modelOverride \<noteq> [] then modelOverride else lc_model c);
                limit = clamp_tokens (lc_maxTokens c) maxTokens;
                body = json_Marshal (lc_codec c) (enc_chatRequest model messages limit)
            in and_then (send (lc_http c) ''POST'' (lc_endpoint c @ ''/chat/completions'') (chat_headers c) body w) (\<lambda>res w1.
              (if rs_Status res \<noteq> 200
               then Inl (Msg (''llm endpoint returned status '' @ show_int (rs_Status res) @ '': '' @ fst (rs_Body res)))
               else case check_err (DecodeBody (lc_codec c) res) dec_chatResponse of
                      Inl err \<Rightarrow> Inl (Wrap ''decode llm response'' err)
                    | Inr [] \<Rightarrow> Inl (Msg ''llm response had no choices'')
                    | Inr (choice # _) \<Rightarrow> Inr (ms_Content choice), w1)))"

text \<open>The client as the executor sees it.\<close>

definition llm_client :: "'w LlmClient option \<Rightarrow> 'w LLMClient" where
  "llm_client c = \<lparr>llm_Complete = Complete c\<rparr>"

section \<open>What is sent\<close>

lemma clamp_bounds:
  "0 < cap \<Longrightarrow> 0 < clamp_tokens cap n \<and> clamp_tokens cap n \<le> cap \<and> (0 < n \<longrightarrow> clamp_tokens cap n \<le> n)
   \<and> (0 < n \<and> n \<le> cap \<longrightarrow> clamp_tokens cap n = n)"
  by (auto simp: clamp_tokens_def)

text \<open>
  C38. The server's ceiling cannot be exceeded: with an endpoint configured, a completion is one POST
  whose body holds the model, the messages and a token limit that lies between 1 and the configured
  ceiling (4096 when none is set), equals the caller's limit when that is allowed, and is there
  whatever the caller asks for; without an endpoint nothing is sent. An answer is only
  ever the content of the first choice of a reply with status 200.
\<close>

theorem completion_request:
  assumes "c = LlmClient_New endpoint key model cap ht k"
  shows "(TrimRight (CHR 0x2F) endpoint = [] \<longrightarrow>
       Complete (Some c) ms override n w = (Inl (Msg ''no LLM endpoint configured''), w))
   \<and> (TrimRight (CHR 0x2F) endpoint \<noteq> [] \<longrightarrow>
       (\<exists>limit r w1. 0 < limit \<and> limit \<le> (if cap \<le> 0 then 4096 else cap) \<and> (0 < n \<longrightarrow> limit \<le> n)
          \<and> (0 < n \<and> n \<le> cap \<longrightarrow> limit = n)
          \<and> send ht ''POST'' (TrimRight (CHR 0x2F) endpoint @ ''/chat/completions'') (chat_headers c)
              (json_Marshal k (JObj [(''model'', JStr (if override \<noteq> [] then override else model)),
                 (''messages'', JArr (map enc_message ms)), (''max_tokens'', JNum (show_int limit))])) w = (r, w1)
          \<and> snd (Complete (Some c) ms override n w) = w1
          \<and> (\<forall>answer. fst (Complete (Some c) ms override n w) = Inr answer \<longrightarrow>
               (\<exists>res j m rest. r = Inr res \<and> rs_Status res = 200 \<and> DecodeBody k res = Inr j
                  \<and> dec_chatResponse j = Inr (m # rest) \<and> answer = ms_Content m))))"
proof (intro conjI impI)
  assume "TrimRight (CHR 0x2F) endpoint = []"
  then show "Complete (Some c) ms override n w = (Inl (Msg ''no LLM endpoint configured''), w)"
    by (simp add: Complete_def Configured_def assms LlmClient_New_def)
next
  assume e: "TrimRight (CHR 0x2F) endpoint \<noteq> []"
  let ?cap = "if cap \<le> 0 then 4096 else cap" let ?limit = "clamp_tokens ?cap n"
  let ?send = "send ht ''POST'' (TrimRight (CHR 0x2F) endpoint @ ''/chat/completions'') (chat_headers c)
      (json_Marshal k (JObj [(''model'', JStr (if override \<noteq> [] then override else model)),
         (''messages'', JArr (map enc_message ms)), (''max_tokens'', JNum (show_int ?limit))])) w"
  obtain r w1 where r: "?send = (r, w1)" by fastforce
  have b: "0 < ?limit \<and> ?limit \<le> ?cap \<and> (0 < n \<longrightarrow> ?limit \<le> n) \<and> (0 < n \<and> n \<le> ?cap \<longrightarrow> ?limit = n)"
    by (rule clamp_bounds) simp
  have sel: "lc_endpoint c = TrimRight (CHR 0x2F) endpoint" "lc_maxTokens c = ?cap" "lc_http c = ht" "lc_codec c = k"
    "lc_model c = model"
    by (simp_all add: assms LlmClient_New_def)
  have nz: "?limit \<noteq> 0" using b by linarith
  have c: "Complete (Some c) ms override n w = and_then (r, w1) (\<lambda>res w1.
      (if rs_Status res \<noteq> 200
       then Inl (Msg (''llm endpoint returned status '' @ show_int (rs_Status res) @ '': '' @ fst (rs_Body res)))
       else case check_err (DecodeBody k res) dec_chatResponse of
              Inl err \<Rightarrow> Inl (Wrap ''decode llm response'' err)
            | Inr [] \<Rightarrow> Inl (Msg ''llm response had no choices'')
            | Inr (choice # _) \<Rightarrow> Inr (ms_Content choice), w1))"
    unfolding r [symmetric] Complete_def Configured_def Let_def option.case sel enc_chatRequest_def using e nz
    by (simp only: not_False_eq_True if_True if_False simp_thms append.simps)
  have "snd (Complete (Some c) ms override n w) = w1" unfolding c by (cases r) simp_all
  moreover have "\<exists>res j m rest. r = Inr res \<and> rs_Status res = 200 \<and> DecodeBody k res = Inr j
      \<and> dec_chatResponse j = Inr (m # rest) \<and> answer = ms_Content m"
    if "fst (Complete (Some c) ms override n w) = Inr answer" for answer
    using that unfolding c by (cases r) (auto split: if_splits sum.splits list.splits elim!: check_err_InrE)
  ultimately show "\<exists>limit r w1. 0 < limit \<and> limit \<le> ?cap \<and> (0 < n \<longrightarrow> limit \<le> n) \<and> (0 < n \<and> n \<le> cap \<longrightarrow> limit = n)
      \<and> send ht ''POST'' (TrimRight (CHR 0x2F) endpoint @ ''/chat/completions'') (chat_headers c)
          (json_Marshal k (JObj [(''model'', JStr (if override \<noteq> [] then override else model)),
             (''messages'', JArr (map enc_message ms)), (''max_tokens'', JNum (show_int limit))])) w = (r, w1)
      \<and> snd (Complete (Some c) ms override n w) = w1
      \<and> (\<forall>answer. fst (Complete (Some c) ms override n w) = Inr answer \<longrightarrow>
           (\<exists>res j m rest. r = Inr res \<and> rs_Status res = 200 \<and> DecodeBody k res = Inr j
              \<and> dec_chatResponse j = Inr (m # rest) \<and> answer = ms_Content m))"
    using b r by (intro exI [of _ ?limit] exI [of _ r] exI [of _ w1]) auto
qed

definition demo_llm_http :: "int http" where
  "demo_llm_http = \<lparr>ht_ParseURL = (\<lambda>url. Inr ()),
     ht_Do = (\<lambda>req w. (Inr \<lparr>rs_Status = 200, rs_Body = (''reply'', None)\<rparr>, w + 1))\<rparr>"

definition demo_llm_codec :: codec where
  "demo_llm_codec = \<lparr>json_Marshal = (\<lambda>j. ''request''), json_Unmarshal = (\<lambda>s. Inl (Msg s)),
     json_Decode = (\<lambda>s. Inr (JObj [(''choices'', JArr [JObj [(''message'', JObj [(''content'', JStr ''done'')])]])]))\<rparr>"

definition demo_llm :: "int LlmClient" where
  "demo_llm = LlmClient_New ''http://llm/'' ''key'' ''m'' 100 demo_llm_http demo_llm_codec"

theorem completion_request_witness:
  "fst (Complete (Some demo_llm) [] ''other'' 500 7) = Inr ''done'' \<and>
   (\<exists>limit r w1. 0 < limit \<and> limit \<le> 100 \<and> send demo_llm_http ''POST'' ''http://llm/chat/completions'' (chat_headers demo_llm)
      (json_Marshal demo_llm_codec (JObj [(''model'', JStr ''other''), (''messages'', JArr []),
         (''max_tokens'', JNum (show_int limit))])) 7 = (r, w1) \<and> w1 = 8)"
proof -
  have t: "TrimRight (CHR 0x2F) ''http://llm/'' = ''http://llm''" by (simp add: TrimRight_def)
  have run: "Complete (Some demo_llm) [] ''other'' 500 7 = (Inr ''done'', 8)"
    by (simp add: Complete_def Configured_def demo_llm_def LlmClient_New_def t Let_def send_def NewRequest_def
        demo_llm_http_def demo_llm_codec_def DecodeBody_def dec_chatResponse_def dec_message_def dec_struct_def
        dec_slice_def key_matches_def ascii_lower_def)
  show ?thesis
    using completion_request [OF demo_llm_def, of "[]" "''other''" 500 7] unfolding run t by auto
qed

end
