(* ===== verification/Notify.thy ===== *)
theory Notify
  imports TextExtract "HOL-Library.Word"
begin

text \<open>
  backend/pkg/notify: the guard in front of the notification library, which keeps a workflow from
  reaching into the backend's own network. URL parsing (scheme and host name), name resolution and the
  library itself are the fields of \<open>notifier\<close>; the classification of an address is Go's package net,
  bit by bit. An address is the list of its 4 or 16 bytes.
\<close>

unbundle bit_operations_syntax

type_synonym ip = "8 word list"

record 'w notifier =
  no_Parse :: "string \<Rightarrow> (string \<times> string) result"
  no_Lookup :: "string \<Rightarrow> 'w \<Rightarrow> ip list result \<times> 'w"
  no_Add :: "string \<Rightarrow> 'w \<Rightarrow> unit result \<times> 'w"
  no_Deliver :: "string \<Rightarrow> string \<Rightarrow> string \<Rightarrow> 'w \<Rightarrow> unit result \<times> 'w"

section \<open>Addresses\<close>

text \<open>\<^verbatim>\<open>IP.To4\<close>: a 4-byte address, or the last four bytes of an IPv4-mapped one.\<close>

definition To4 :: "ip \<Rightarrow> ip option" where
  "To4 a = (if length a = 4 then Some a
     else if length a = 16 \<and> take 12 a = replicate 10 0 @ [0xff, 0xff] then Some (drop 12 a)
     else None)"

definition IsLoopback :: "ip \<Rightarrow> bool" where
  "IsLoopback a = (case To4 a of Some b \<Rightarrow> b ! 0 = 127 | None \<Rightarrow> a = replicate 15 0 @ [1])"

definition IsPrivate :: "ip \<Rightarrow> bool" where
  "IsPrivate a =
     (case To4 a of
        Some b \<Rightarrow> b ! 0 = 10 \<or> (b ! 0 = 172 \<and> (b ! 1) AND 0xf0 = 16) \<or> (b ! 0 = 192 \<and> b ! 1 = 168)
      | None \<Rightarrow> length a = 16 \<and> (a ! 0) AND 0xfe = 0xfc)"

definition IsLinkLocalUnicast :: "ip \<Rightarrow> bool" where
  "IsLinkLocalUnicast a =
     (case To4 a of
        Some b \<Rightarrow> b ! 0 = 169 \<and> b ! 1 = 254
      | None \<Rightarrow> length a = 16 \<and> a ! 0 = 0xfe \<and> (a ! 1) AND 0xc0 = 0x80)"

definition IsLinkLocalMulticast :: "ip \<Rightarrow> bool" where
  "IsLinkLocalMulticast a =
     (case To4 a of
        Some b \<Rightarrow> b ! 0 = 224 \<and> b ! 1 = 0 \<and> b ! 2 = 0
      | None \<Rightarrow> length a = 16 \<and> a ! 0 = 0xff \<and> (a ! 1) AND 0x0f = 2)"

definition IsUnspecified :: "ip \<Rightarrow> bool" where
  "IsUnspecified a = (case To4 a of Some b \<Rightarrow> b = replicate 4 0 | None \<Rightarrow> a = replicate 16 0)"

definition isDisallowedTarget :: "ip \<Rightarrow> bool" where
  "isDisallowedTarget a =
     (IsLoopback a \<or> IsPrivate a \<or> IsLinkLocalUnicast a \<or> IsLinkLocalMulticast a \<or> IsUnspecified a)"

section \<open>The guard\<close>

definition raw_schemes :: "string list" where
  "raw_schemes = [''json'', ''jsons'', ''form'', ''forms'', ''xml'', ''xmls'', ''http'', ''https'']"

definition guardTarget :: "'w notifier \<Rightarrow> string \<Rightarrow> 'w \<Rightarrow> unit result \<times> 'w" where
  "guardTarget n target w =
     (case no_Parse n target of
        Inl err \<Rightarrow> (Inl (Wrap ''invalid notification target'' err), w)
      | Inr (scheme, host) \<Rightarrow>
          if ToLower scheme \<notin> set raw_schemes then (Inr (), w)
          else if host = [] then (Inr (), w)
          else (case no_Lookup n host w of
                  (Inl err, w1) \<Rightarrow> (Inr (), w1)
                | (Inr ips, w1) \<Rightarrow>
                    (if list_ex isDisallowedTarget ips
                     then Inl (Msg (''notification target host '' @ Quote host @ '' resolves to a disallowed address''))
                     else Inr (), w1)))"

definition Notify_Send :: "'w notifier \<Rightarrow> string \<Rightarrow> string \<Rightarrow> string \<Rightarrow> 'w \<Rightarrow> unit result \<times> 'w" where
  "Notify_Send n target title body w =
     (case guardTarget n target w of
        (Inl err, w1) \<Rightarrow> (Inl err, w1)
      | (Inr _, w1) \<Rightarrow>
          (case no_Add n target w1 of
             (Inl err, w2) \<Rightarrow> (Inl (Wrap ''invalid notification target'' err), w2)
           | (Inr _, w2) \<Rightarrow> no_Deliver n target title body w2))"

section \<open>What it blocks\<close>

text \<open>The IPv4 networks of the guard, as ranges of the address read as a number.\<close>

definition ipv4_number :: "ip \<Rightarrow> nat" where
  "ipv4_number a = foldl (\<lambda>n b. n * 256 + unat b) 0 a"

definition ipv4_network :: "nat \<Rightarrow> nat \<Rightarrow> ip \<Rightarrow> bool" where
  "ipv4_network base bits a = (ipv4_number a div 2 ^ (32 - bits) = base div 2 ^ (32 - bits))"

definition dotted :: "nat \<Rightarrow> nat \<Rightarrow> nat \<Rightarrow> nat \<Rightarrow> nat" where
  "dotted p q r s = ((p * 256 + q) * 256 + r) * 256 + s"

definition blocked_networks :: "(nat \<times> nat) list" where
  "blocked_networks = [(dotted 127 0 0 0, 8), (dotted 10 0 0 0, 8), (dotted 172 16 0 0, 12), (dotted 192 168 0 0, 16),
     (dotted 169 254 0 0, 16), (dotted 224 0 0 0, 24), (dotted 0 0 0 0, 32)]"

lemma word8_eq_iff: "(b :: 8 word) = c \<longleftrightarrow> unat b = unat c"
  by (metis unsigned_word_eqI)

lemma word8_high_nibble: "(b :: 8 word) AND 0xf0 = 16 \<longleftrightarrow> unat b div 16 = 1"
proof -
  have "list_all (\<lambda>n. ((word_of_nat n :: 8 word) AND 0xf0 = 16) = (n div 16 = 1)) [0..<256]" by code_simp
  moreover have "unat b \<in> set [0..<256]" using unsigned_less [of b] by simp
  ultimately have "((word_of_nat (unat b) :: 8 word) AND 0xf0 = 16) = (unat b div 16 = 1)"
    unfolding list_all_iff by (rule bspec)
  then show ?thesis by simp
qed

lemma ipv4_number_bytes: "ipv4_number [p, q, r, s] = dotted (unat p) (unat q) (unat r) (unat s)"
  by (simp add: ipv4_number_def dotted_def)

lemma dotted_div:
  assumes "s < 256" "r < 256" "q < 256"
  shows "dotted p q r s div 2 ^ 8 = (p * 256 + q) * 256 + r" "dotted p q r s div 2 ^ 16 = p * 256 + q"
    "dotted p q r s div 2 ^ 20 = p * 16 + q div 16" "dotted p q r s div 2 ^ 24 = p"
proof -
  have d: "(x * 256 + y) div 256 = x" if "y < 256" for x y :: nat using that by simp
  show a: "dotted p q r s div 2 ^ 8 = (p * 256 + q) * 256 + r" using d assms by (simp add: dotted_def)
  have "dotted p q r s div 2 ^ 16 = dotted p q r s div 2 ^ 8 div 256" by (simp flip: div_mult2_eq)
  then show b: "dotted p q r s div 2 ^ 16 = p * 256 + q" unfolding a using d assms by simp
  have "dotted p q r s div 2 ^ 24 = dotted p q r s div 2 ^ 16 div 256" by (simp flip: div_mult2_eq)
  then show "dotted p q r s div 2 ^ 24 = p" unfolding b using d assms by simp
  have "dotted p q r s div 2 ^ 20 = dotted p q r s div 2 ^ 16 div 16" by (simp flip: div_mult2_eq)
  then show "dotted p q r s div 2 ^ 20 = p * 16 + q div 16" unfolding b by simp
qed

lemma networks:
  "ipv4_network (dotted x 0 0 0) 8 [p, q, r, s] \<longleftrightarrow> unat p = x"
  "y < 256 \<Longrightarrow> ipv4_network (dotted x y 0 0) 12 [p, q, r, s] \<longleftrightarrow> unat p * 16 + unat q div 16 = x * 16 + y div 16"
  "y < 256 \<Longrightarrow> ipv4_network (dotted x y 0 0) 16 [p, q, r, s] \<longleftrightarrow> unat p * 256 + unat q = x * 256 + y"
  "y < 256 \<Longrightarrow> ipv4_network (dotted x y 0 0) 24 [p, q, r, s] \<longleftrightarrow> (unat p * 256 + unat q) * 256 + unat r = (x * 256 + y) * 256"
proof -
  have b: "unat q < 256" "unat r < 256" "unat s < 256"
    using unsigned_less [of q] unsigned_less [of r] unsigned_less [of s] by simp_all
  note d = dotted_div [OF b(3,2,1)] and z = dotted_div [of 0 0]
  show "ipv4_network (dotted x 0 0 0) 8 [p, q, r, s] \<longleftrightarrow> unat p = x"
    unfolding ipv4_network_def ipv4_number_bytes using d(4) [of "unat p"] z(4) [of 0 x] by simp
  show "y < 256 \<Longrightarrow> ipv4_network (dotted x y 0 0) 12 [p, q, r, s] \<longleftrightarrow> unat p * 16 + unat q div 16 = x * 16 + y div 16"
    unfolding ipv4_network_def ipv4_number_bytes using d(3) [of "unat p"] z(3) [of y x] by simp
  show "y < 256 \<Longrightarrow> ipv4_network (dotted x y 0 0) 16 [p, q, r, s] \<longleftrightarrow> unat p * 256 + unat q = x * 256 + y"
    unfolding ipv4_network_def ipv4_number_bytes using d(2) [of "unat p"] z(2) [of y x] by simp
  show "y < 256 \<Longrightarrow> ipv4_network (dotted x y 0 0) 24 [p, q, r, s] \<longleftrightarrow> (unat p * 256 + unat q) * 256 + unat r = (x * 256 + y) * 256"
    unfolding ipv4_network_def ipv4_number_bytes using d(1) [of "unat p"] z(1) [of y x] by simp
qed

lemma place_value: "q < m \<Longrightarrow> y < m \<Longrightarrow> p * m + q = x * m + y \<longleftrightarrow> p = x \<and> q = (y :: nat)"
proof
  assume m: "q < m" "y < m" and "p * m + q = x * m + y"
  then have "(p * m + q) div m = (x * m + y) div m" "(p * m + q) mod m = (x * m + y) mod m" by simp_all
  then show "p = x \<and> q = y" using m by simp
qed simp

lemma blocked_bytes:
  "(\<exists>(base, bits)\<in>set blocked_networks. ipv4_network base bits [p, q, r, s]) \<longleftrightarrow>
     unat p = 127 \<or> unat p = 10 \<or> (unat p = 172 \<and> unat q div 16 = 1) \<or> (unat p = 192 \<and> unat q = 168)
     \<or> (unat p = 169 \<and> unat q = 254) \<or> (unat p = 224 \<and> unat q = 0 \<and> unat r = 0)
     \<or> (unat p = 0 \<and> unat q = 0 \<and> unat r = 0 \<and> unat s = 0)"
proof -
  have b: "unat q < 256" "unat r < 256" using unsigned_less [of q] unsigned_less [of r] by simp_all
  have n: "ipv4_network (dotted 0 0 0 0) 32 [p, q, r, s] \<longleftrightarrow> unat p = 0 \<and> unat q = 0 \<and> unat r = 0 \<and> unat s = 0"
    unfolding ipv4_network_def ipv4_number_bytes by (simp add: dotted_def)
  have q: "unat q div 16 < 16" using b by auto
  have n2: "ipv4_network (dotted 172 16 0 0) 12 [p, q, r, s] \<longleftrightarrow> unat p = 172 \<and> unat q div 16 = 1"
    using place_value [OF q, of 1 "unat p" 172] by (simp add: networks(2))
  have n3: "ipv4_network (dotted x y 0 0) 16 [p, q, r, s] \<longleftrightarrow> unat p = x \<and> unat q = y" if "y < 256" for x y
    using networks(3) [OF that] place_value [OF b(1) that] by blast
  have n4: "ipv4_network (dotted 224 0 0 0) 24 [p, q, r, s] \<longleftrightarrow> unat p = 224 \<and> unat q = 0 \<and> unat r = 0"
    using networks(4) [of 0 224 p q r s] place_value [OF b(2), of 0 "unat p * 256 + unat q" "224 * 256 + 0"]
      place_value [OF b(1), of 0 "unat p" 224] by auto
  have l: "(\<exists>(base, bits)\<in>set blocked_networks. N base bits) \<longleftrightarrow>
      N (dotted 127 0 0 0) 8 \<or> N (dotted 10 0 0 0) 8 \<or> N (dotted 172 16 0 0) 12 \<or> N (dotted 192 168 0 0) 16
      \<or> N (dotted 169 254 0 0) 16 \<or> N (dotted 224 0 0 0) 24 \<or> N (dotted 0 0 0 0) 32" for N
    by (simp add: blocked_networks_def)
  have m: "192 < (256 :: nat)" "168 < (256 :: nat)" "254 < (256 :: nat)" by simp_all
  show ?thesis unfolding l networks(1) n2 n3 [OF m(2)] n3 [OF m(3)] n4 n ..
qed

lemma To4_length: "To4 a = Some b \<Longrightarrow> \<exists>p q r s. b = [p, q, r, s]"
proof -
  assume "To4 a = Some b"
  then have "length b = 4" by (auto simp: To4_def split: if_splits)
  then show ?thesis by (auto simp: eval_nat_numeral length_Suc_conv)
qed

lemma disallowed_ipv4:
  assumes "To4 a = Some b"
  shows "isDisallowedTarget a \<longleftrightarrow> (\<exists>(base, bits)\<in>set blocked_networks. ipv4_network base bits b)"
proof -
  obtain p q r s where b: "b = [p, q, r, s]" using To4_length [OF assms] by blast
  have u: "unat (n :: 8 word) = k \<longleftrightarrow> n = word_of_nat k" if "k < 256" for n k
    using that unsigned_less [of n] by (auto simp: unsigned_of_nat take_bit_nat_eq_self)
  have four: "replicate 4 (0 :: 8 word) = [0, 0, 0, 0]" by (simp add: eval_nat_numeral)
  show ?thesis
    unfolding b blocked_bytes isDisallowedTarget_def IsLoopback_def IsPrivate_def IsLinkLocalUnicast_def
      IsLinkLocalMulticast_def IsUnspecified_def assms option.case b
    by (auto simp: u word8_high_nibble four)
qed

lemma ipv4_number_acc: "foldl (\<lambda>n b. n * 256 + unat (b :: 8 word)) m ys = m * 256 ^ length ys + ipv4_number ys"
proof (induction ys arbitrary: m rule: rev_induct)
  case (snoc y ys)
  show ?case using snoc.IH [of m] snoc.IH [of 0] by (simp add: ipv4_number_def algebra_simps)
qed (simp add: ipv4_number_def)

lemma ipv4_number_snoc: "ipv4_number (xs @ [x]) = ipv4_number xs * 256 + unat x"
  by (simp add: ipv4_number_def)

lemma ipv4_number_append: "ipv4_number (xs @ ys) = ipv4_number xs * 256 ^ length ys + ipv4_number ys"
  using ipv4_number_acc [of "ipv4_number xs" ys] by (simp add: ipv4_number_def)

lemma ipv4_number_less: "ipv4_number xs < 256 ^ length xs"
proof (induction xs rule: rev_induct)
  case (snoc x xs)
  have "unat x < 256" using unsigned_less [of x] by simp
  then show ?case using snoc by (simp add: ipv4_number_snoc)
qed (simp add: ipv4_number_def)

lemma ipv4_number_div: "ipv4_number (xs @ ys) div 256 ^ length ys = ipv4_number xs"
  using ipv4_number_less [of ys] by (simp add: ipv4_number_append)

lemma ipv4_number_inject: "length xs = length ys \<Longrightarrow> ipv4_number xs = ipv4_number ys \<longleftrightarrow> xs = ys"
proof (induction xs arbitrary: ys rule: rev_induct)
  case (snoc x xs)
  then obtain y zs where ys: "ys = zs @ [y]" "length zs = length xs" by (cases ys rule: rev_cases) auto
  have "unat x < 256" "unat y < 256" using unsigned_less [of x] unsigned_less [of y] by simp_all
  then have "ipv4_number xs * 256 + unat x = ipv4_number zs * 256 + unat y \<longleftrightarrow> ipv4_number xs = ipv4_number zs \<and> unat x = unat y"
    by (rule place_value)
  then show ?case using snoc.IH [of zs] ys by (auto simp: ipv4_number_snoc word8_eq_iff)
qed simp

lemma word8_cases:
  assumes "list_all (\<lambda>n. P (word_of_nat n :: 8 word)) [0..<256]"
  shows "P b"
proof -
  have "unat b \<in> set [0..<256]" using unsigned_less [of b] by simp
  with assms have "P (word_of_nat (unat b))" unfolding list_all_iff by (rule bspec)
  then show ?thesis by simp
qed

lemma word8_bits:
  "(b :: 8 word) AND 0xfe = 0xfc \<longleftrightarrow> unat b div 2 = 126"
  "(b :: 8 word) AND 0xc0 = 0x80 \<longleftrightarrow> unat b div 64 = 2"
  "(b :: 8 word) AND 0x0f = 2 \<longleftrightarrow> unat b mod 16 = 2"
  by (rule word8_cases [of "\<lambda>b. (b AND 0xfe = 0xfc) = (unat b div 2 = 126)"], code_simp,
      rule word8_cases [of "\<lambda>b. (b AND 0xc0 = 0x80) = (unat b div 64 = 2)"], code_simp,
      rule word8_cases [of "\<lambda>b. (b AND 0x0f = 2) = (unat b mod 16 = 2)"], code_simp)

text \<open>
  The IPv6 networks of the guard, given by the first sixteen bits of their base. A link-local multicast address
  has scope 2 after any four flags, which makes sixteen networks.
\<close>

definition ipv6_network :: "nat \<Rightarrow> nat \<Rightarrow> ip \<Rightarrow> bool" where
  "ipv6_network base bits a = (ipv4_number a div 2 ^ (128 - bits) = base div 2 ^ (128 - bits))"

definition hextet :: "nat \<Rightarrow> nat" where
  "hextet h = h * 2 ^ 112"

definition blocked_networks6 :: "(nat \<times> nat) list" where
  "blocked_networks6 = [(1, 128), (0, 128), (hextet 0xfc00, 7), (hextet 0xfe80, 10)]
     @ map (\<lambda>x. (hextet (0xff02 + 16 * x), 16)) [0..<16]"

lemma networks6:
  assumes "length a = 16"
  shows "ipv6_network n 128 a \<longleftrightarrow> ipv4_number a = n"
    "ipv6_network (hextet h) 16 a \<longleftrightarrow> unat (a ! 0) * 256 + unat (a ! 1) = h"
    "ipv6_network (hextet h) 10 a \<longleftrightarrow> (unat (a ! 0) * 256 + unat (a ! 1)) div 64 = h div 64"
    "ipv6_network (hextet h) 7 a \<longleftrightarrow> unat (a ! 0) div 2 = h div 512"
proof -
  obtain p q r where a: "a = [p, q] @ r" "length r = 14"
    using assms by (cases a; cases "tl a") auto
  have two: "ipv4_number a div 2 ^ 112 = unat p * 256 + unat q"
    using ipv4_number_div [of "[p, q]" r] a by (simp add: ipv4_number_def)
  have k: "x div 2 ^ (112 + j) = x div 2 ^ 112 div 2 ^ j" for x j :: nat by (simp add: div_mult2_eq power_add)
  have h: "hextet h div 2 ^ 112 = h" by (simp add: hextet_def)
  have q: "unat q < 256" using unsigned_less [of q] by simp
  have one: "(unat p * 256 + unat q) div 2 ^ 9 = unat p div 2"
  proof -
    have "(unat p * 256 + unat q) div 2 ^ 9 = (unat p * 256 + unat q) div 256 div 2" by (simp flip: div_mult2_eq)
    then show ?thesis using q by simp
  qed
  show "ipv6_network n 128 a \<longleftrightarrow> ipv4_number a = n" by (simp add: ipv6_network_def)
  show "ipv6_network (hextet h) 16 a \<longleftrightarrow> unat (a ! 0) * 256 + unat (a ! 1) = h"
    using two h a(1) by (simp add: ipv6_network_def)
  show "ipv6_network (hextet h) 10 a \<longleftrightarrow> (unat (a ! 0) * 256 + unat (a ! 1)) div 64 = h div 64"
    using two h a(1) k [of _ 6] by (simp add: ipv6_network_def)
  show "ipv6_network (hextet h) 7 a \<longleftrightarrow> unat (a ! 0) div 2 = h div 512"
    using two h a(1) k [of _ 9] one by (simp add: ipv6_network_def)
qed

lemma disallowed_ipv6:
  assumes "To4 a = None" "length a = 16"
  shows "isDisallowedTarget a \<longleftrightarrow> (\<exists>(base, bits)\<in>set blocked_networks6. ipv6_network base bits a)"
proof -
  let ?p = "unat (a ! 0)" and ?q = "unat (a ! 1)"
  have b: "?p < 256" "?q < 256" using unsigned_less [of "a ! 0"] unsigned_less [of "a ! 1"] by simp_all
  have l: "ipv4_number (replicate 15 0 @ [1]) = 1" "ipv4_number (replicate 16 0) = 0"
    by (simp_all add: ipv4_number_def eval_nat_numeral)
  have n1: "ipv6_network 1 128 a \<longleftrightarrow> a = replicate 15 0 @ [1]" "ipv6_network 0 128 a \<longleftrightarrow> a = replicate 16 0"
    using ipv4_number_inject [of a "replicate 15 0 @ [1]"] ipv4_number_inject [of a "replicate 16 0"] assms(2)
    by (simp_all add: networks6 l)
  have n7: "ipv6_network (hextet 0xfc00) 7 a \<longleftrightarrow> (a ! 0) AND 0xfe = 0xfc"
    by (simp add: networks6 [OF assms(2)] word8_bits)
  have "(?p * 256 + ?q) div 64 = ?p * 4 + ?q div 64" by simp
  then have "(?p * 256 + ?q) div 64 = 0xfe80 div 64 \<longleftrightarrow> ?p * 4 + ?q div 64 = 254 * 4 + 2" by simp
  also have "\<dots> \<longleftrightarrow> ?p = 254 \<and> ?q div 64 = 2" by (rule place_value) (use b in auto)
  finally have n10: "ipv6_network (hextet 0xfe80) 10 a \<longleftrightarrow> a ! 0 = 0xfe \<and> (a ! 1) AND 0xc0 = 0x80"
    by (simp add: networks6 [OF assms(2)] word8_bits word8_eq_iff [of "a ! 0"])
  have m: "?p * 256 + ?q = 0xff02 + 16 * x \<longleftrightarrow> ?p = 255 \<and> ?q = 2 + 16 * x" if "x < 16" for x
    using place_value [of ?q 256 "2 + 16 * x" ?p 255] b that by simp
  have "?q mod 16 = 2 \<longleftrightarrow> (\<exists>x < 16. ?q = 2 + 16 * x)"
  proof
    assume "?q mod 16 = 2"
    then have "?q = 2 + 16 * (?q div 16)" by presburger
    moreover have "?q div 16 < 16" using b by auto
    ultimately show "\<exists>x < 16. ?q = 2 + 16 * x" by blast
  next
    assume "\<exists>x < 16. ?q = 2 + 16 * x"
    then show "?q mod 16 = 2" by presburger
  qed
  then have "(\<exists>x < 16. ?p * 256 + ?q = 0xff02 + 16 * x) \<longleftrightarrow> ?p = 255 \<and> ?q mod 16 = 2" using m by blast
  then have n16: "(\<exists>x < 16. ipv6_network (hextet (0xff02 + 16 * x)) 16 a) \<longleftrightarrow> a ! 0 = 0xff \<and> (a ! 1) AND 0x0f = 2"
    by (simp add: networks6 [OF assms(2)] word8_bits word8_eq_iff [of "a ! 0"])
  have "(\<exists>(base, bits)\<in>set blocked_networks6. ipv6_network base bits a) \<longleftrightarrow>
      ipv6_network 1 128 a \<or> ipv6_network 0 128 a \<or> ipv6_network (hextet 0xfc00) 7 a \<or> ipv6_network (hextet 0xfe80) 10 a
      \<or> (\<exists>x < 16. ipv6_network (hextet (0xff02 + 16 * x)) 16 a)"
    by (auto simp: blocked_networks6_def)
  then show ?thesis
    unfolding n1 n7 n10 n16 isDisallowedTarget_def IsLoopback_def IsPrivate_def IsLinkLocalUnicast_def
      IsLinkLocalMulticast_def IsUnspecified_def assms(1) option.case assms(2) by auto
qed

text \<open>The networks of the guard, by the version of the address.\<close>

definition in_blocked_network :: "ip \<Rightarrow> bool" where
  "in_blocked_network a =
     (case To4 a of
        Some b \<Rightarrow> \<exists>(base, bits)\<in>set blocked_networks. ipv4_network base bits b
      | None \<Rightarrow> \<exists>(base, bits)\<in>set blocked_networks6. ipv6_network base bits a)"

lemma disallowed_networks: "length a \<in> {4, 16} \<Longrightarrow> isDisallowedTarget a \<longleftrightarrow> in_blocked_network a"
proof (cases "To4 a")
  case None
  moreover assume "length a \<in> {4, 16}"
  ultimately have "length a = 16" by (auto simp: To4_def)
  then show ?thesis using disallowed_ipv6 [OF None] None by (simp add: in_blocked_network_def)
next
  case (Some b)
  then show ?thesis using disallowed_ipv4 [OF Some] by (simp add: in_blocked_network_def)
qed

text \<open>
  C37. A workflow cannot make the backend call into its own network: a raw webhook target whose host resolves
  to any address of the loopback, private, link-local or link-local multicast networks or to the unspecified address,
  of IPv4 (also when written as an IPv4-mapped address) or of IPv6, is refused before the notification library
  sees it; a host that resolves to other addresses only is passed on to the library. The networks are given as
  ranges of the address read as a number.
\<close>

theorem internal_targets_blocked:
  assumes "no_Parse n target = Inr (scheme, host)" "ToLower scheme \<in> set raw_schemes" "host \<noteq> []"
    "no_Lookup n host w = (Inr ips, w1)" "list_all (\<lambda>a. length a \<in> {4, 16}) ips"
  shows "if \<exists>a\<in>set ips. in_blocked_network a
    then Notify_Send n target title body w =
      (Inl (Msg (''notification target host '' @ Quote host @ '' resolves to a disallowed address'')), w1)
    else Notify_Send n target title body w =
      (case no_Add n target w1 of
         (Inl err, w2) \<Rightarrow> (Inl (Wrap ''invalid notification target'' err), w2)
       | (Inr _, w2) \<Rightarrow> no_Deliver n target title body w2)"
proof -
  have "list_ex isDisallowedTarget ips \<longleftrightarrow> (\<exists>a\<in>set ips. in_blocked_network a)"
    using disallowed_networks assms(5) by (auto simp: list_ex_iff list_all_iff)
  then show ?thesis by (simp add: Notify_Send_def guardTarget_def assms)
qed

definition demo_notifier :: "int notifier" where
  "demo_notifier = \<lparr>no_Parse = (\<lambda>t. Inr (''https'', t)),
     no_Lookup = (\<lambda>h w. (Inr (if h = ''inside'' then [[93, 184, 216, 34], [0xfe, 0x80] @ replicate 13 0 @ [1]]
       else [[93, 184, 216, 34]]), w + 1)),
     no_Add = (\<lambda>t w. (Inr (), w + 10)), no_Deliver = (\<lambda>t ti b w. (Inr (), w + 100))\<rparr>"

theorem internal_targets_blocked_witness:
  "snd (Notify_Send demo_notifier ''inside'' ''t'' ''b'' 0) = 1 \<and> snd (Notify_Send demo_notifier ''outside'' ''t'' ''b'' 0) = 111"
proof -
  let ?a = "[0xfe, 0x80] @ replicate 13 0 @ [1] :: ip"
  have s: "ToLower ''https'' \<in> set raw_schemes" by code_simp
  have n: "in_blocked_network ?a" "\<not> in_blocked_network [93, 184, 216, 34]"
    by (simp flip: disallowed_networks, code_simp)+
  show ?thesis
    using internal_targets_blocked [of demo_notifier "''inside''" "''https''" "''inside''" 0 "[[93, 184, 216, 34], ?a]" 1 "''t''" "''b''"]
      internal_targets_blocked [of demo_notifier "''outside''" "''https''" "''outside''" 0 "[[93, 184, 216, 34]]" 1 "''t''" "''b''"] s n
    by (simp add: demo_notifier_def)
qed

end
