(* ===== verification/Config.thy ===== *)
theory Config
  imports GoBase64 LocalDB World
begin

text \<open>
  backend/pkg/config: the settings read from the environment, with their defaults, and the key that
  encrypts stored credentials. The environment is a map from names to values; \<^verbatim>\<open>crypto/rand\<close> is an
  operation on the world.
\<close>

type_synonym env = "string \<Rightarrow> string option"

record Config =
  cf_HTTPAddr :: string
  cf_DebugAddr :: string
  cf_OCISURL :: string
  cf_OCISInsecure :: bool
  cf_AllowedOrigin :: string
  cf_LLMEndpoint :: string
  cf_LLMAPIKey :: string
  cf_LLMModel :: string
  cf_LLMMaxTokens :: int
  cf_DBPath :: string
  cf_EncryptionKey :: string
  cf_LogLevel :: string
  cf_encryptionKeyGenerated :: bool

definition defaultLLMMaxTokens :: int where "defaultLLMMaxTokens = 4096"

text \<open>\<^verbatim>\<open>strconv.Atoi\<close> for a 64-bit int, and \<^verbatim>\<open>strconv.ParseBool\<close>.\<close>

definition decimal :: "string \<Rightarrow> int option" where
  "decimal s = (if s \<noteq> [] \<and> list_all (\<lambda>c. 48 \<le> (of_char c :: nat) \<and> (of_char c :: nat) \<le> 57) s
     then Some (foldl (\<lambda>n c. n * 10 + (of_char c - 48)) 0 s) else None)"

definition Atoi :: "string \<Rightarrow> int option" where
  "Atoi s =
     (case (case s of c # t \<Rightarrow> if c = CHR ''-'' then map_option uminus (decimal t)
                               else if c = CHR ''+'' then decimal t else decimal s
            | [] \<Rightarrow> None) of
        None \<Rightarrow> None
      | Some n \<Rightarrow> if - (2 ^ 63) \<le> n \<and> n < 2 ^ 63 then Some n else None)"

definition ParseBool :: "string \<Rightarrow> bool option" where
  "ParseBool s =
     (if s \<in> {''1'', ''t'', ''T'', ''TRUE'', ''true'', ''True''} then Some True
      else if s \<in> {''0'', ''f'', ''F'', ''FALSE'', ''false'', ''False''} then Some False
      else None)"

definition getEnv :: "env \<Rightarrow> string \<Rightarrow> string \<Rightarrow> string" where
  "getEnv env key fallback = (case env key of Some v \<Rightarrow> if v \<noteq> [] then v else fallback | None \<Rightarrow> fallback)"

definition getEnvInt :: "env \<Rightarrow> string \<Rightarrow> int \<Rightarrow> int" where
  "getEnvInt env key fallback =
     (case env key of None \<Rightarrow> fallback
      | Some v \<Rightarrow> if v = [] then fallback else (case Atoi v of None \<Rightarrow> fallback | Some n \<Rightarrow> n))"

definition getEnvBool :: "env \<Rightarrow> string \<Rightarrow> bool \<Rightarrow> bool" where
  "getEnvBool env key fallback =
     (case env key of None \<Rightarrow> fallback
      | Some v \<Rightarrow> if v = [] then fallback else (case ParseBool v of None \<Rightarrow> fallback | Some b \<Rightarrow> b))"

definition loadOrGenerateEncryptionKey :: "env \<Rightarrow> ('w \<Rightarrow> string result \<times> 'w) \<Rightarrow> 'w \<Rightarrow> (string \<times> bool) result \<times> 'w" where
  "loadOrGenerateEncryptionKey env rnd w =
     (case env ''WORKFLOWS_ENCRYPTION_KEY'' of
        Some encoded \<Rightarrow>
          if encoded \<noteq> [] then
            (case DecodeString encoded of
               None \<Rightarrow> (Inl (Wrap ''WORKFLOWS_ENCRYPTION_KEY is not valid base64'' (Msg ''illegal base64 data'')), w)
             | Some key \<Rightarrow>
                 if length key \<noteq> 32
                 then (Inl (Msg (''WORKFLOWS_ENCRYPTION_KEY must decode to 32 bytes, got '' @ show_nat (length key))), w)
                 else (Inr (key, False), w))
          else (case rnd w of
             (Inl err, w1) \<Rightarrow> (Inl (Wrap ''generate encryption key'' err), w1)
           | (Inr key, w1) \<Rightarrow> (Inr (key, True), w1))
      | None \<Rightarrow> (case rnd w of
             (Inl err, w1) \<Rightarrow> (Inl (Wrap ''generate encryption key'' err), w1)
           | (Inr key, w1) \<Rightarrow> (Inr (key, True), w1)))"

definition FromEnv :: "env \<Rightarrow> ('w \<Rightarrow> string result \<times> 'w) \<Rightarrow> 'w \<Rightarrow> Config result \<times> 'w" where
  "FromEnv env rnd w =
     (let cfg = \<lparr>cf_HTTPAddr = getEnv env ''WORKFLOWS_HTTP_ADDR'' ''0.0.0.0:9105'',
            cf_DebugAddr = getEnv env ''WORKFLOWS_DEBUG_ADDR'' ''0.0.0.0:9109'',
            cf_OCISURL = getEnv env ''WORKFLOWS_OCIS_URL'' ''https://host.docker.internal:9200'',
            cf_OCISInsecure = getEnvBool env ''WORKFLOWS_OCIS_INSECURE'' False,
            cf_AllowedOrigin = getEnv env ''WORKFLOWS_ALLOWED_ORIGIN'' [],
            cf_LLMEndpoint = getEnv env ''WORKFLOWS_LLM_ENDPOINT'' [],
            cf_LLMAPIKey = getEnv env ''WORKFLOWS_LLM_API_KEY'' [],
            cf_LLMModel = getEnv env ''WORKFLOWS_LLM_MODEL'' [],
            cf_LLMMaxTokens = getEnvInt env ''WORKFLOWS_LLM_MAX_TOKENS'' defaultLLMMaxTokens,
            cf_DBPath = getEnv env ''WORKFLOWS_DB_PATH'' ''workflows.db'',
            cf_EncryptionKey = [], cf_LogLevel = getEnv env ''WORKFLOWS_LOG_LEVEL'' ''info'',
            cf_encryptionKeyGenerated = False\<rparr>
      in if cf_OCISURL cfg = [] then (Inl (Msg ''WORKFLOWS_OCIS_URL must not be empty''), w)
         else let cfg1 = (if cf_AllowedOrigin cfg = [] then cfg\<lparr>cf_AllowedOrigin := cf_OCISURL cfg\<rparr> else cfg) in
           (case loadOrGenerateEncryptionKey env rnd w of
              (Inl err, w1) \<Rightarrow> (Inl err, w1)
            | (Inr (key, generated), w1) \<Rightarrow>
                (Inr (cfg1\<lparr>cf_EncryptionKey := key, cf_encryptionKeyGenerated := generated\<rparr>), w1)))"

lemma getEnv_nonempty: "fallback \<noteq> [] \<Longrightarrow> getEnv env key fallback \<noteq> []"
  by (simp add: getEnv_def split: option.split)

text \<open>
  A configuration that loads can run: reading the environment fails only for an encryption key
  that is set but is not the base64 of 32 bytes, or when no random key can be drawn; otherwise the
  base URL and the allowed origin are not empty, the key has 32 bytes, is the decoded one when a key
  is set and is reported as generated exactly when none is, and a new database file opens with it when no statement fails.
\<close>

lemma config_usable:
  assumes "\<And>key w1. rnd w = (Inr key, w1) \<Longrightarrow> length key = 32"
  shows "case FromEnv env rnd w of
    (Inl err, _) \<Rightarrow> (\<exists>encoded. env ''WORKFLOWS_ENCRYPTION_KEY'' = Some encoded \<and> encoded \<noteq> []
          \<and> (\<forall>key. DecodeString encoded = Some key \<longrightarrow> length key \<noteq> 32))
        \<or> (getEnv env ''WORKFLOWS_ENCRYPTION_KEY'' [] = [] \<and> isl (fst (rnd w)))
  | (Inr cfg, _) \<Rightarrow> cf_OCISURL cfg \<noteq> [] \<and> cf_AllowedOrigin cfg \<noteq> [] \<and> length (cf_EncryptionKey cfg) = 32
      \<and> (cf_encryptionKeyGenerated cfg \<longleftrightarrow> getEnv env ''WORKFLOWS_ENCRYPTION_KEY'' [] = [])
      \<and> (\<forall>encoded. env ''WORKFLOWS_ENCRYPTION_KEY'' = Some encoded \<and> encoded \<noteq> [] \<longrightarrow> DecodeString encoded = Some (cf_EncryptionKey cfg))
      \<and> (\<exists>db. db_Open (cf_EncryptionKey cfg) (Inr ()) [] [] = Inr db)"
proof -
  have u: "getEnv env ''WORKFLOWS_OCIS_URL'' ''https://host.docker.internal:9200'' \<noteq> []"
    by (rule getEnv_nonempty) simp
  have db: "\<exists>db. db_Open key (Inr ()) [] [] = Inr db" if "length key = 32" for key
    using that db_Open_clean [of key "\<lparr>box_key = key\<rparr>" "[]"] by (auto simp: secretbox_New_def)
  show ?thesis
    using assms u db unfolding FromEnv_def Let_def
    by (auto simp: loadOrGenerateEncryptionKey_def getEnv_def split: sum.splits prod.splits option.splits if_splits)
qed

end
