(* ===== verification/Scheduler.thy ===== *)
theory Scheduler
  imports Runtime
begin

text \<open>
  backend/pkg/scheduler: deciding on every tick which schedule triggers are due, and running one.
  The table \<^verbatim>\<open>lastRun\<close> is a map from workflow ids to instants; the mutex makes each access atomic
  and only the ticking goroutine uses it. The cron parser (robfig/cron) is a parameter \<open>parse\<close>: it
  gives the function \<^verbatim>\<open>Next\<close> of the schedule, or an error. A started goroutine is returned by \<open>tick\<close>
  as the entry it was started with; what it does is \<open>runOne\<close>.
\<close>

type_synonym cron = "string \<Rightarrow> (time \<Rightarrow> time) result"
type_synonym last_run = "string \<Rightarrow> time option"

section \<open>One tick\<close>

definition lastRunFor :: "string \<Rightarrow> time \<Rightarrow> last_run \<Rightarrow> time \<times> last_run" where
  "lastRunFor workflowID now lr =
     (case lr workflowID of
        None \<Rightarrow> (now, lr(workflowID \<mapsto> now))
      | Some prev \<Rightarrow> (prev, lr))"

definition setLastRun :: "string \<Rightarrow> time \<Rightarrow> last_run \<Rightarrow> last_run" where
  "setLastRun workflowID t lr = lr(workflowID \<mapsto> t)"

fun tick_entries :: "cron \<Rightarrow> time \<Rightarrow> TriggerIndexEntry list \<Rightarrow> last_run
    \<Rightarrow> last_run \<times> TriggerIndexEntry list" where
  "tick_entries parse now [] lr = (lr, [])"
| "tick_entries parse now (e # es) lr =
     (case parse (ti_Schedule e) of
        Inl err \<Rightarrow> tick_entries parse now es lr
      | Inr schedule_Next \<Rightarrow>
          let (prev, lr1) = lastRunFor (ti_WorkflowID e) now lr; next_at = schedule_Next prev in
          if after next_at now then tick_entries parse now es lr1
          else let (lr2, started) = tick_entries parse now es (setLastRun (ti_WorkflowID e) now lr1)
            in (lr2, e # started))"

definition tick :: "'w engine \<Rightarrow> cron \<Rightarrow> DB \<Rightarrow> last_run \<Rightarrow> 'w
    \<Rightarrow> DB \<times> last_run \<times> TriggerIndexEntry list \<times> 'w" where
  "tick en parse db lr w =
     (case ListScheduleTriggers db of
        (Inl err, db1) \<Rightarrow> (db1, lr, [], w)
      | (Inr entries, db1) \<Rightarrow>
          let (now, w1) = pf_Now (en_platform en) w;
              (lr1, started) = tick_entries parse now entries lr
          in (db1, lr1, started, w1))"

definition runOne :: "'w engine \<Rightarrow> TriggerIndexEntry \<Rightarrow> DB \<Rightarrow> 'w \<Rightarrow> DB \<times> 'w" where
  "runOne en e db w =
     (case GetAutomation (en_gcm en) (ti_UserID e) db of
        (Inl err, db1) \<Rightarrow> (db1, w)
      | (Inr automation, db1) \<Rightarrow>
          (db1, load_and_run en ''schedule'' (BasicAuth automation) (ti_WorkflowID e) [] w))"

section \<open>What one tick does\<close>

text \<open>
  The effect of a tick on one workflow: its new entry of \<^verbatim>\<open>lastRun\<close>, and whether it is started.
\<close>

definition step_one :: "(time \<Rightarrow> time) \<Rightarrow> time \<Rightarrow> time option \<Rightarrow> time option \<times> bool" where
  "step_one nxt now b =
     (let prev = (case b of None \<Rightarrow> now | Some t \<Rightarrow> t) in
      if nxt prev > now then (Some prev, False) else (Some now, True))"

lemma tick_entries_Cons:
  "tick_entries parse now (e # es) lr =
     (case parse (ti_Schedule e) of
        Inl err \<Rightarrow> tick_entries parse now es lr
      | Inr nxt \<Rightarrow>
          let r = tick_entries parse now es (lr(ti_WorkflowID e := fst (step_one nxt now (lr (ti_WorkflowID e))))) in
          (fst r, if snd (step_one nxt now (lr (ti_WorkflowID e))) then e # snd r else snd r))"
  by (auto simp: lastRunFor_def setLastRun_def step_one_def after_def Let_def fun_upd_idem
      split: sum.splits option.splits prod.splits)

declare tick_entries.simps(2) [simp del]

lemma tick_entries_other:
  "i \<notin> ti_WorkflowID ` set es \<Longrightarrow> fst (tick_entries parse now es lr) i = lr i"
  by (induction es arbitrary: lr) (auto simp: tick_entries_Cons Let_def split: sum.splits)

lemma tick_entries_started: "set (snd (tick_entries parse now es lr)) \<subseteq> set es"
proof (induction es arbitrary: lr)
  case (Cons e es)
  show ?case
    using subsetD [OF Cons.IH] by (auto simp: tick_entries_Cons Let_def split: sum.splits if_splits)
qed simp

lemma tick_entries_started_id:
  "f \<in> set (snd (tick_entries parse now es lr)) \<Longrightarrow> ti_WorkflowID f \<in> ti_WorkflowID ` set es"
  using tick_entries_started by fast

lemma tick_entries_member:
  assumes "distinct (map ti_WorkflowID es)" "e \<in> set es" "parse (ti_Schedule e) = Inr nxt"
  shows "fst (tick_entries parse now es lr) (ti_WorkflowID e) = fst (step_one nxt now (lr (ti_WorkflowID e)))
    \<and> filter (\<lambda>f. ti_WorkflowID f = ti_WorkflowID e) (snd (tick_entries parse now es lr)) =
        (if snd (step_one nxt now (lr (ti_WorkflowID e))) then [e] else [])"
  using assms
proof (induction es arbitrary: lr)
  case (Cons f es)
  show ?case
  proof (cases "e = f")
    case True
    then have new: "ti_WorkflowID e \<notin> ti_WorkflowID ` set es" using Cons.prems by simp
    have "filter (\<lambda>g. ti_WorkflowID g = ti_WorkflowID e) (snd (tick_entries parse now es lr')) = []" for lr'
    proof (rule filter_False, rule ballI)
      fix g assume "g \<in> set (snd (tick_entries parse now es lr'))"
      from tick_entries_started_id [OF this] new show "ti_WorkflowID g \<noteq> ti_WorkflowID e" by metis
    qed
    then show ?thesis
      using True Cons.prems new by (simp add: tick_entries_Cons tick_entries_other Let_def)
  next
    case False
    then have e: "e \<in> set es" "distinct (map ti_WorkflowID es)" "ti_WorkflowID e \<noteq> ti_WorkflowID f"
      using Cons.prems by (auto simp: image_iff)
    then show ?thesis
      using Cons.IH [OF e(2,1) Cons.prems(3)]
      by (simp add: tick_entries_Cons Let_def split: sum.split)
  qed
qed simp

lemma tick_entries_invalid:
  assumes "distinct (map ti_WorkflowID es)" "e \<in> set es" "parse (ti_Schedule e) = Inl err"
  shows "e \<notin> set (snd (tick_entries parse now es lr))"
  using assms
proof (induction es arbitrary: lr)
  case (Cons f es)
  then show ?case
    using tick_entries_started [of parse now es]
    by (cases "e = f") (auto simp: tick_entries_Cons Let_def split: sum.splits)
qed simp

section \<open>Many ticks\<close>

text \<open>The instants at which workflow \<open>i\<close> is started in a sequence of ticks.\<close>

fun fire_times :: "cron \<Rightarrow> string \<Rightarrow> (time \<times> TriggerIndexEntry list) list \<Rightarrow> last_run \<Rightarrow> time list" where
  "fire_times parse i [] lr = []"
| "fire_times parse i ((now, es) # ticks) lr =
     (let (lr1, started) = tick_entries parse now es lr in
      map (\<lambda>_. now) (filter (\<lambda>e. ti_WorkflowID e = i) started) @ fire_times parse i ticks lr1)"

definition scheduled_in :: "TriggerIndexEntry \<Rightarrow> (time \<times> TriggerIndexEntry list) list \<Rightarrow> bool" where
  "scheduled_in e ticks = list_all (\<lambda>(now, es). distinct (map ti_WorkflowID es) \<and> e \<in> set es) ticks"

lemma step_one_None: "\<forall>t. t < nxt t \<Longrightarrow> step_one nxt now None = (Some now, False)"
  by (simp add: step_one_def)

lemma fire_times_from:
  assumes "parse (ti_Schedule e) = Inr nxt" "\<forall>t. t < nxt t" "scheduled_in e ticks"
    "lr (ti_WorkflowID e) = Some b" "ticks = [] \<longrightarrow> t < nxt b" "ticks \<noteq> [] \<longrightarrow> t = fst (last ticks)"
  shows "successively (\<lambda>x y. nxt x \<le> y) (b # fire_times parse (ti_WorkflowID e) ticks lr)
    \<and> t < nxt (last (b # fire_times parse (ti_WorkflowID e) ticks lr))"
  using assms(3-)
proof (induction ticks arbitrary: lr b)
  case (Cons x ticks)
  obtain now es where x: "x = (now, es)" by fastforce
  obtain lr1 started where te: "tick_entries parse now es lr = (lr1, started)" by fastforce
  have d: "distinct (map ti_WorkflowID es)" "e \<in> set es" and sch: "scheduled_in e ticks"
    using Cons.prems x by (auto simp: scheduled_in_def)
  note m = tick_entries_member [where parse = parse and now = now and lr = lr, OF d assms(1), unfolded te Cons.prems(2), simplified]
  show ?case
  proof (cases "nxt b > now")
    case True
    then have "lr1 (ti_WorkflowID e) = Some b" and f: "filter (\<lambda>f. ti_WorkflowID f = ti_WorkflowID e) started = []"
      using m by (simp_all add: step_one_def)
    then show ?thesis
      using Cons.IH [OF sch, of lr1 b] Cons.prems x te True by (cases "ticks = []") auto
  next
    case False
    then have "lr1 (ti_WorkflowID e) = Some now" and f: "filter (\<lambda>f. ti_WorkflowID f = ti_WorkflowID e) started = [e]"
      using m by (simp_all add: step_one_def)
    then show ?thesis
      using Cons.IH [OF sch, of lr1 now] Cons.prems x te False assms(2) by (cases "ticks = []") auto
  qed
qed simp

lemma fire_times_in:
  "set (fire_times parse i ticks lr) \<subseteq> fst ` set ticks"
proof (induction ticks arbitrary: lr)
  case (Cons x ticks)
  obtain now es where x: "x = (now, es)" by fastforce
  obtain lr1 started where te: "tick_entries parse now es lr = (lr1, started)" by fastforce
  show ?case using Cons.IH [of lr1] x te by auto
qed simp

lemma last_start_shift:
  fixes b c t :: int
  assumes "b < c" "c < t" "finite X"
  shows "Max {x \<in> insert b (insert c X). x < t} = Max {x \<in> insert c X. x < t}"
proof -
  have "{x \<in> insert b (insert c X). x < t} = insert b {x \<in> insert c X. x < t}" using assms by auto
  moreover have "c \<le> Max {x \<in> insert c X. x < t}" by (rule Max_ge) (use assms(2,3) in auto)
  then have "b < Max {x \<in> insert c X. x < t}" using assms(1) by linarith
  moreover have "{x \<in> insert c X. x < t} \<noteq> {}" using assms(2) by auto
  ultimately show ?thesis using assms(3) by simp
qed

text \<open>The ticks at which the workflow is started, by the last start (or the baseline \<open>b\<close>) before each of them.\<close>

lemma fire_times_exact:
  assumes "parse (ti_Schedule e) = Inr nxt" "scheduled_in e ticks" "lr (ti_WorkflowID e) = Some b"
    "sorted_wrt (<) (b # map fst ticks)" "F = fire_times parse (ti_WorkflowID e) ticks lr"
  shows "sorted_wrt (<) F \<and> set F = {t \<in> fst ` set ticks. nxt (Max {x \<in> insert b (set F). x < t}) \<le> t}"
  using assms(2-)
proof (induction ticks arbitrary: lr b F)
  case (Cons x ticks)
  obtain now es where x: "x = (now, es)" by fastforce
  obtain lr1 started where te: "tick_entries parse now es lr = (lr1, started)" by fastforce
  have d: "distinct (map ti_WorkflowID es)" "e \<in> set es" and sch: "scheduled_in e ticks"
    using Cons.prems x by (auto simp: scheduled_in_def)
  note m = tick_entries_member [where parse = parse and now = now and lr = lr, OF d assms(1), unfolded te Cons.prems(2), simplified]
  have b: "b < now" and later: "\<forall>t \<in> fst ` set ticks. now < t" and srt: "sorted_wrt (<) (now # map fst ticks)" "sorted_wrt (<) (b # map fst ticks)"
    using Cons.prems(3) x by auto
  let ?F = "fire_times parse (ti_WorkflowID e) ticks lr1"
  have F_later: "\<forall>t \<in> set ?F. now < t" using fire_times_in later by blast
  show ?case
  proof (cases "nxt b > now")
    case True
    then have lr1: "lr1 (ti_WorkflowID e) = Some b" and f: "filter (\<lambda>f. ti_WorkflowID f = ti_WorkflowID e) started = []"
      using m by (simp_all add: step_one_def)
    have F: "F = ?F" using Cons.prems(4) x te f by simp
    have "{x \<in> insert b (set ?F). x < now} = {b}" using F_later b by auto
    then show ?thesis
      using Cons.IH [of lr1 b ?F] sch lr1 srt(2) True x unfolding F by auto
  next
    case False
    then have lr1: "lr1 (ti_WorkflowID e) = Some now" and f: "filter (\<lambda>f. ti_WorkflowID f = ti_WorkflowID e) started = [e]"
      using m by (simp_all add: step_one_def)
    have F: "F = now # ?F" using Cons.prems(4) x te f by simp
    have now: "{x \<in> insert b (insert now (set ?F)). x < now} = {b}" using F_later b by auto
    define M where "M t = Max {x \<in> insert b (insert now (set ?F)). x < t}" for t
    define M' where "M' t = Max {x \<in> insert now (set ?F). x < t}" for t
    have mx: "M t = M' t" if "t \<in> fst ` set ticks" for t
      unfolding M_def M'_def by (rule last_start_shift [OF b]) (use later that in auto)
    have "{t \<in> fst ` set ticks. nxt (M t) \<le> t} = {t \<in> fst ` set ticks. nxt (M' t) \<le> t}"
      by (intro Collect_cong conj_cong refl) (simp only: mx)
    moreover have ih: "sorted_wrt (<) ?F \<and> set ?F = {t \<in> fst ` set ticks. nxt (M' t) \<le> t}"
      unfolding M'_def by (rule Cons.IH [of lr1 now ?F]) (use sch lr1 srt(1) in auto)
    moreover have "nxt (M now) \<le> now" using False unfolding M_def now by simp
    ultimately have "insert now (set ?F) = {t \<in> insert now (fst ` set ticks). nxt (M t) \<le> t}" by blast
    then have "set F = {t \<in> fst ` set (x # ticks). nxt (Max {x \<in> insert b (set F). x < t}) \<le> t}"
      unfolding F x M_def list.set image_insert fst_conv .
    moreover have "sorted_wrt (<) F" using ih F_later unfolding F by simp
    ultimately show ?thesis by blast
  qed
qed simp

text \<open>
  C14. When a schedule starts its workflow. Take a workflow whose valid schedule is in the index on every
  tick, first seen at the first tick. The first sighting starts nothing. From one start to the next
  (and from the first sighting to the first start) the schedule has an occurrence that is due at the
  second, so no start is spurious and no occurrence leads to two; and after the last tick no occurrence since the last
  start is overdue. When the instants of the ticks rise, the starts are exactly the ticks by which the first occurrence after
  the start before has come due: a start is never later than the first tick after an occurrence, and all the occurrences
  that came due between two ticks lead to one start.
\<close>

theorem schedule_followed:
  assumes "parse (ti_Schedule e) = Inr nxt" "\<forall>t. t < nxt t" "scheduled_in e ((start, es) # ticks)"
    "lr (ti_WorkflowID e) = None" "starts = fire_times parse (ti_WorkflowID e) ((start, es) # ticks) lr"
  shows "successively (\<lambda>x y. nxt x \<le> y) (start # starts)
    \<and> fst (last ((start, es) # ticks)) < nxt (last (start # starts))
    \<and> (sorted_wrt (<) (start # map fst ticks) \<longrightarrow> sorted_wrt (<) starts
         \<and> set starts = {t \<in> fst ` set ticks. nxt (Max {x \<in> insert start (set starts). x < t}) \<le> t})"
proof -
  obtain lr1 started where te: "tick_entries parse start es lr = (lr1, started)" by fastforce
  have d: "distinct (map ti_WorkflowID es)" "e \<in> set es" and sch: "scheduled_in e ticks"
    using assms(3) by (auto simp: scheduled_in_def)
  have first: "lr1 (ti_WorkflowID e) = Some start" "filter (\<lambda>f. ti_WorkflowID f = ti_WorkflowID e) started = []"
    using tick_entries_member [where parse = parse and now = start and lr = lr, OF d assms(1)] te assms(2,4) by (simp_all add: step_one_None)
  then have s: "starts = fire_times parse (ti_WorkflowID e) ticks lr1" using te assms(5) by simp
  have "successively (\<lambda>x y. nxt x \<le> y) (start # starts) \<and> fst (last ((start, es) # ticks)) < nxt (last (start # starts))"
    using fire_times_from [where parse = parse and lr = lr1 and t = "fst (last ((start, es) # ticks))",
        OF assms(1,2) sch] first assms(2) s
    by (cases "ticks = []") auto
  then show ?thesis using fire_times_exact [where parse = parse and lr = lr1, OF assms(1) sch first(1) _ s] by blast
qed

text \<open>A concrete schedule: every hour, on the hour.\<close>

definition demo_cron :: cron where
  "demo_cron s = (if s = ''0 * * * *'' then Inr (\<lambda>t. (t div hour + 1) * hour) else Inl (Msg s))"

definition demo_schedule :: TriggerIndexEntry where
  "demo_schedule = \<lparr>ti_WorkflowID = ''w1'', ti_UserID = ''u1'', ti_TriggerType = ''schedule'',
     ti_Schedule = ''0 * * * *'', ti_EventType = [], ti_PathPrefix = [], ti_Extension = [], ti_SpaceID = []\<rparr>"

lemma demo_hourly: "(t::int) < (t div hour + 1) * hour"
  using div_mult_mod_eq [of t hour] pos_mod_bound [of hour t] by (simp add: distrib_right)

theorem schedule_followed_witness:
  "successively (\<lambda>x y. (x div hour + 1) * hour \<le> y) [30 * minute, 70 * minute, 125 * minute]
   \<and> set [70 * minute, 125 * minute] = {t \<in> fst ` set (map (\<lambda>m. (m * minute, [demo_schedule])) [45, 70, 100, 125]).
        (Max {x \<in> insert (30 * minute) (set [70 * minute, 125 * minute]). x < t} div hour + 1) * hour \<le> t}
   \<and> fire_times demo_cron ''w1'' (map (\<lambda>m. (m * minute, [demo_schedule])) [30, 45, 70, 100, 125]) (\<lambda>_. None)
      = [70 * minute, 125 * minute]"
proof -
  let ?ticks = "map (\<lambda>m. (m * minute, [demo_schedule])) [45, 70, 100, 125]"
  have eval: "fire_times demo_cron ''w1'' ((30 * minute, [demo_schedule]) # ?ticks) (\<lambda>_. None) = [70 * minute, 125 * minute]"
    by (simp add: demo_cron_def demo_schedule_def tick_entries_Cons step_one_def)
  have i: "ti_WorkflowID demo_schedule = ''w1''" "demo_cron (ti_Schedule demo_schedule) = Inr (\<lambda>t. (t div hour + 1) * hour)"
    by (simp_all add: demo_schedule_def demo_cron_def)
  have s: "scheduled_in demo_schedule ((30 * minute, [demo_schedule]) # ?ticks)" by (simp add: scheduled_in_def)
  have n: "\<forall>t. t < (t div hour + 1) * hour" using demo_hourly by blast
  have srt: "sorted_wrt (<) (30 * minute # map fst ?ticks)" by simp
  have ticks: "map (\<lambda>m. (m * minute, [demo_schedule])) [30, 45, 70, 100, 125] = (30 * minute, [demo_schedule]) # ?ticks" by simp
  note r = schedule_followed [where parse = demo_cron and e = demo_schedule and nxt = "\<lambda>t. (t div hour + 1) * hour" and lr = "\<lambda>_. None",
      OF i(2) n s refl, unfolded i(1), OF eval [symmetric]]
  show ?thesis unfolding ticks using r srt eval by blast
qed

section \<open>Corners\<close>

text \<open>
  A schedule that never occurs (such as February 30): \<^verbatim>\<open>Next\<close> answers the zero instant, which is
  never after the current time, so the workflow is started on every tick.
\<close>

lemma unsatisfiable_schedule_always_fires:
  "parse (ti_Schedule e) = Inr (\<lambda>_. zero_time) \<Longrightarrow> zero_time \<le> now \<Longrightarrow>
   snd (tick_entries parse now [e] lr) = [e]"
  by (simp add: tick_entries_Cons step_one_def Let_def)

text \<open>
  The baseline survives the time a workflow is disabled: enabled again after a break, it is started at
  once for the occurrence it missed in the break, although a workflow just enabled is meant to wait
  for its next occurrence.
\<close>

lemma re_enabled_fires_retroactively:
  "fire_times demo_cron ''w1'' [(0, [demo_schedule]), (30 * minute, []), (90 * minute, [demo_schedule])]
     (\<lambda>_. None) = [90 * minute]"
  by (simp add: demo_cron_def demo_schedule_def tick_entries_Cons step_one_def)

text \<open>
  A schedule in seconds is allowed, but the scheduler looks at it every ten seconds: of the occurrences every five seconds,
  one in two starts nothing.
\<close>

lemma occurrences_coalesce:
  "fire_times (\<lambda>s. Inr (\<lambda>t. (t div (5 * second) + 1) * (5 * second))) ''w1''
     (map (\<lambda>n. (n * second, [demo_schedule])) [0, 10, 20, 30]) (\<lambda>_. None) = map (\<lambda>n. n * second) [10, 20, 30]"
  by (simp add: demo_schedule_def tick_entries_Cons step_one_def)

end
