(* ===== verification/Reconciler.thy ===== *)
theory Reconciler
  imports SSEStream
begin

text \<open>
  backend/pkg/reconcile: catching up from oCIS's activity log after a user's notification stream was
  down. Here are the mapping of messages, the rate limit of passes, the scope of drives, one pass over
  a drive with its cursor in the local database, and the dispatch of one activity.
\<close>

record reconciler_config =
  rc_gracePeriod :: duration
  rc_overlap :: duration
  rc_firstConnectLookback :: duration
  rc_maxConcurrent :: nat

section \<open>Mapping and splitting\<close>

definition messageToTriggerType :: "(string \<times> string) list" where
  "messageToTriggerType =
     [(''{user} added {resource} to {folder}'', ''upload''),
      (''{user} moved {resource} to {folder}'', ''move''),
      (''{user} renamed {oldResource} to {resource}'', ''move'')]"

definition TriggerType :: "string \<Rightarrow> string option" where
  "TriggerType message = map_of messageToTriggerType message"

definition splitResourceID :: "string \<Rightarrow> (string \<times> string) option" where
  "splitResourceID i =
     (case LastIndex (CHR ''!'') i of None \<Rightarrow> None | Some idx \<Rightarrow> Some (take idx i, i))"

section \<open>When and where a pass runs\<close>

definition shouldStartPass :: "'w platform \<Rightarrow> reconciler_config \<Rightarrow> string \<Rightarrow> (string \<Rightarrow> time option) \<Rightarrow> 'w
    \<Rightarrow> bool \<times> (string \<Rightarrow> time option) \<times> 'w" where
  "shouldStartPass P cfg userID lastPassStart w =
     (case pf_Now P w of (now, w1) \<Rightarrow>
        (case lastPassStart userID of
           Some prev \<Rightarrow>
             if time_sub now prev < rc_gracePeriod cfg then (False, lastPassStart, w1)
             else (True, lastPassStart(userID \<mapsto> now), w1)
         | None \<Rightarrow> (True, lastPassStart(userID \<mapsto> now), w1)))"

text \<open>The first loop: the scoped drives of the user, and whether some trigger of the user is unscoped.\<close>

fun drive_scope :: "string \<Rightarrow> TriggerIndexEntry list \<Rightarrow> string list \<times> bool" where
  "drive_scope userID [] = ([], False)"
| "drive_scope userID (e # es) =
     (let (scoped, needsAll) = drive_scope userID es in
      if ti_UserID e \<noteq> userID then (scoped, needsAll)
      else if ti_SpaceID e = [] then (scoped, True)
      else (if ti_SpaceID e \<in> set scoped then scoped else ti_SpaceID e # scoped, needsAll))"

definition drivesForUser :: "'w engine \<Rightarrow> TriggerIndexEntry list \<Rightarrow> string \<Rightarrow> string \<Rightarrow> 'w
    \<Rightarrow> string list result \<times> 'w" where
  "drivesForUser en entries authHeader userID w =
     (case drive_scope userID entries of (scoped, needsAll) \<Rightarrow>
        if \<not> needsAll then (case pf_RangeKeys (en_platform en) scoped w of (drives, w1) \<Rightarrow> (Inr drives, w1))
        else (case en_ListDrives en authHeader w of
                (Inl e, w1) \<Rightarrow> (Inl e, w1)
              | (Inr all, w1) \<Rightarrow>
                  (Inr (map dr_ID (filter (\<lambda>d. dr_DriveType d \<noteq> ''virtual'') all)), w1)))"

section \<open>Dispatching an activity\<close>

definition runWorkflow :: "'w engine \<Rightarrow> string \<Rightarrow> string \<Rightarrow> string \<Rightarrow> 'w \<Rightarrow> 'w" where
  "runWorkflow en authHeader workflowID resourcePath w =
     load_and_run en ''event'' authHeader workflowID resourcePath w"

fun run_matching :: "'w engine \<Rightarrow> string \<Rightarrow> string \<Rightarrow> string \<Rightarrow> string \<Rightarrow> string \<Rightarrow> TriggerIndexEntry list \<Rightarrow> 'w \<Rightarrow> 'w" where
  "run_matching en userID authHeader triggerType path driveID [] w = w"
| "run_matching en userID authHeader triggerType path driveID (e # es) w =
     (if ti_UserID e \<noteq> userID \<or> ti_EventType e \<noteq> triggerType
      then run_matching en userID authHeader triggerType path driveID es w
      else if \<not> MatchesFilters e path driveID
      then run_matching en userID authHeader triggerType path driveID es w
      else run_matching en userID authHeader triggerType path driveID es
             (runWorkflow en authHeader (ti_WorkflowID e) path w))"

definition dispatch :: "'w engine \<Rightarrow> TriggerIndexEntry list \<Rightarrow> string \<Rightarrow> string \<Rightarrow> string \<Rightarrow> Activity \<Rightarrow> 'w \<Rightarrow> 'w" where
  "dispatch en entries userID authHeader driveID a w =
     (case TriggerType (ac_Message a) of
        None \<Rightarrow> w
      | Some triggerType \<Rightarrow>
          if ac_ResourceID a = [] then w
          else (case splitResourceID (ac_ResourceID a) of
                  None \<Rightarrow> w
                | Some (spaceID, itemID) \<Rightarrow>
                    (case en_ItemPath en authHeader driveID itemID w of
                       (Inl err, w1) \<Rightarrow> w1
                     | (Inr path, w1) \<Rightarrow>
                         if IsInternalPath path then w1
                         else run_matching en userID authHeader triggerType path driveID entries w1)))"

text \<open>The loop over the activities, with the set \<open>seen\<close> of ids handled before.\<close>

fun dispatch_all :: "'w engine \<Rightarrow> TriggerIndexEntry list \<Rightarrow> string \<Rightarrow> string \<Rightarrow> string \<Rightarrow> string list
    \<Rightarrow> Activity list \<Rightarrow> 'w \<Rightarrow> 'w" where
  "dispatch_all en entries userID authHeader driveID seen [] w = w"
| "dispatch_all en entries userID authHeader driveID seen (a # as) w =
     (if ac_ID a \<in> set seen then dispatch_all en entries userID authHeader driveID seen as w
      else dispatch_all en entries userID authHeader driveID (ac_ID a # seen) as
             (dispatch en entries userID authHeader driveID a w))"

section \<open>One pass\<close>

definition reconcileDrive :: "'w engine \<Rightarrow> reconciler_config \<Rightarrow> TriggerIndexEntry list \<Rightarrow> string \<Rightarrow> string
    \<Rightarrow> string \<Rightarrow> DB \<Rightarrow> 'w \<Rightarrow> DB \<times> 'w" where
  "reconcileDrive en cfg entries userID authHeader driveID db w =
     (case pf_Now (en_platform en) w of (now, w0) \<Rightarrow>
      case (case GetEventCursor userID driveID db of
              (Inl err, db1) \<Rightarrow>
                (if \<not> errors_is err DbNotFound then None
                 else Some (True, \<lparr>ec_UserID = userID, ec_DriveID = driveID,
                        ec_LastChecked = now - rc_firstConnectLookback cfg, ec_LastStatus = ''full''\<rparr>), db1)
            | (Inr cursor, db1) \<Rightarrow> (Some (False, cursor), db1)) of
        (None, db1) \<Rightarrow> (db1, w0)
      | (Some (firstEver, cursor), db1) \<Rightarrow>
          if \<not> firstEver \<and> time_sub now (ec_LastChecked cursor) < rc_gracePeriod cfg then (db1, w0)
          else let since0 = ec_LastChecked cursor - rc_overlap cfg;
                   floor = now - rc_firstConnectLookback cfg;
                   since = (if before since0 floor then floor else since0)
               in case en_ListActivities en authHeader driveID since w0 of
                    (Inl err, w1) \<Rightarrow>
                      if pf_CtxDone (en_platform en) w1 then (db1, w1)
                      else (snd (UpsertEventCursor \<lparr>ec_UserID = userID, ec_DriveID = driveID,
                              ec_LastChecked = ec_LastChecked cursor, ec_LastStatus = ''sse-only''\<rparr> db1), w1)
                  | (Inr activities, w1) \<Rightarrow>
                      let w2 = dispatch_all en entries userID authHeader driveID [] activities w1
                      in (snd (UpsertEventCursor \<lparr>ec_UserID = userID, ec_DriveID = driveID,
                            ec_LastChecked = now, ec_LastStatus = ''full''\<rparr> db1), w2))"

fun reconcile_drives :: "'w engine \<Rightarrow> reconciler_config \<Rightarrow> TriggerIndexEntry list \<Rightarrow> string \<Rightarrow> string
    \<Rightarrow> string list \<Rightarrow> DB \<Rightarrow> 'w \<Rightarrow> DB \<times> 'w" where
  "reconcile_drives en cfg entries userID authHeader [] db w = (db, w)"
| "reconcile_drives en cfg entries userID authHeader (d # ds) db w =
     (case reconcileDrive en cfg entries userID authHeader d db w of (db1, w1) \<Rightarrow>
        reconcile_drives en cfg entries userID authHeader ds db1 w1)"

text \<open>
  \<open>acquire\<close> is the wait for a slot of the semaphore: it gives True with a slot, or False if the context
  was done first.
\<close>

definition Reconcile :: "'w engine \<Rightarrow> reconciler_config \<Rightarrow> ('w \<Rightarrow> bool \<times> 'w) \<Rightarrow> string \<Rightarrow> string
    \<Rightarrow> (string \<Rightarrow> time option) \<Rightarrow> DB \<Rightarrow> 'w \<Rightarrow> (string \<Rightarrow> time option) \<times> DB \<times> 'w" where
  "Reconcile en cfg acquire userID authHeader lastPassStart db w =
     (case shouldStartPass (en_platform en) cfg userID lastPassStart w of
        (False, lps, w1) \<Rightarrow> (lps, db, w1)
      | (True, lps, w1) \<Rightarrow>
          (case acquire w1 of
             (False, w2) \<Rightarrow> (lps, db, w2)
           | (True, w2) \<Rightarrow>
               (case ListEventTriggers db of
                  (Inl err, db1) \<Rightarrow> (lps, db1, w2)
                | (Inr entries, db1) \<Rightarrow>
                    (case drivesForUser en entries authHeader userID w2 of
                       (Inl err, w3) \<Rightarrow> (lps, db1, w3)
                     | (Inr drives, w3) \<Rightarrow>
                         (case reconcile_drives en cfg entries userID authHeader drives db1 w3 of
                            (db2, w4) \<Rightarrow> (lps, db2, w4))))))"

section \<open>Scope\<close>

lemma drive_scope_spec:
  "distinct (fst (drive_scope u es))
   \<and> set (fst (drive_scope u es)) = ti_SpaceID ` {e \<in> set es. ti_UserID e = u \<and> ti_SpaceID e \<noteq> []}
   \<and> snd (drive_scope u es) = (\<exists>e \<in> set es. ti_UserID e = u \<and> ti_SpaceID e = [])"
  by (induction es) (auto simp: split_beta Let_def)

text \<open>
  The scope of a pass: if every event trigger of the user names a space, exactly those spaces are
  visited, each once; as soon as one names none, exactly the drives the user can list are visited,
  virtual ones left out. Other users' triggers do not matter.
\<close>

lemma drives_scope:
  assumes "range_ok (en_platform en)" "drivesForUser en es a u w = (Inr drives, w1)"
  shows "if \<exists>e \<in> set es. ti_UserID e = u \<and> ti_SpaceID e = []
    then (\<exists>all. en_ListDrives en a w = (Inr all, w1)
            \<and> drives = map dr_ID (filter (\<lambda>d. dr_DriveType d \<noteq> ''virtual'') all))
    else distinct drives \<and> set drives = ti_SpaceID ` {e \<in> set es. ti_UserID e = u}"
proof -
  obtain scoped needsAll where sc: "drive_scope u es = (scoped, needsAll)" by fastforce
  note spec = drive_scope_spec [of u es, unfolded sc fst_conv snd_conv]
  show ?thesis
  proof (cases needsAll)
    case True
    then show ?thesis using assms(2) sc spec by (auto simp: drivesForUser_def split: prod.splits sum.splits)
  next
    case False
    then have r: "pf_RangeKeys (en_platform en) scoped w = (drives, w1)"
      using assms(2) sc by (auto simp: drivesForUser_def split: prod.splits)
    have "mset drives = mset scoped" using range_ok_keys [OF assms(1) r] .
    then have "distinct drives" "set drives = set scoped"
      using spec by (metis mset_eq_imp_distinct_iff, metis set_mset_mset)
    moreover have "{e \<in> set es. ti_UserID e = u \<and> ti_SpaceID e \<noteq> []} = {e \<in> set es. ti_UserID e = u}"
      using False spec by auto
    ultimately show ?thesis using False spec by auto
  qed
qed

text \<open>
  A space a trigger names is not visited when another trigger of the user names none and the space is
  not among the user's listed drives, although the scope is meant to contain both.
\<close>

lemma scoped_drive_dropped:
  "fst (drivesForUser demo_engine [demo_event_trigger ''w1'' ''u1'' [],
       (demo_event_trigger ''w2'' ''u1'' [])\<lparr>ti_SpaceID := ''shared''\<rparr>] ''Basic x'' ''u1'' 7) = Inr [''d1'']"
  by (simp add: drivesForUser_def demo_engine_def demo_event_trigger_def)

section \<open>Dispatch agrees with the live path\<close>

lemma run_matching_dispatched:
  "\<not> IsInternalPath p \<Longrightarrow>
   run_matching en u a t p d es w = fold (\<lambda>(i, q). runWorkflow en a i q) (dispatched u t p d es) w"
  by (induction es arbitrary: w) (auto simp: candidate_def)

lemma LastIndex_some_char: "c \<in> set s \<Longrightarrow> \<exists>i. LastIndex c s = Some i"
  using LastIndex_None [of c s] by (cases "LastIndex c s") auto

lemma dispatched_unresolved:
  "dispatched u t [] d es = map (\<lambda>e. (ti_WorkflowID e, [])) (filter (\<lambda>e. candidate u t e
     \<and> ti_PathPrefix e = [] \<and> ti_Extension e = [] \<and> (ti_SpaceID e = [] \<or> ti_SpaceID e = d)) es)"
  by (induction es) (auto simp: MatchesFilters_def HasPrefix_def HasSuffix_def)

text \<open>
  C21. Where the two event paths agree and where they do not: take a live event and a logged activity of the same trigger type for
  the same item of the same space. When the path of the item resolves, the workflows the backstop runs, one after
  the other, are exactly the workflows the live path would start, in the same order and on the
  same path. When it does not, the backstop runs nothing, whereas the live path starts exactly the workflows of the user and type
  whose trigger filters by neither path nor extension (nor by another space), on an empty path.
\<close>

theorem dispatch_agrees_with_sse:
  assumes "TriggerType (ac_Message act) = Some t" "map_of eventTypeMap evt = Some t"
    "decode_payload c data = Inr \<lparr>ep_ItemID = ac_ResourceID act, ep_SpaceID = d\<rparr>" "d \<noteq> []"
    "CHR ''!'' \<in> set (ac_ResourceID act)" "en_ItemPath en a d (ac_ResourceID act) w = (resolved, w1)"
    "ListEventTriggers db = (Inr entries, db1)"
  shows "case resolved of
      Inr p \<Rightarrow> dispatch en entries u a d act w =
        fold (\<lambda>(i, q). runWorkflow en a i q) (fst (handleEvent en c u a evt data db w)) w1
    | Inl err \<Rightarrow> dispatch en entries u a d act w = w1
        \<and> fst (handleEvent en c u a evt data db w) = map (\<lambda>e. (ti_WorkflowID e, [])) (filter (\<lambda>e. candidate u t e
             \<and> ti_PathPrefix e = [] \<and> ti_Extension e = [] \<and> (ti_SpaceID e = [] \<or> ti_SpaceID e = d)) entries)"
proof -
  obtain i where i: "splitResourceID (ac_ResourceID act) = Some (take i (ac_ResourceID act), ac_ResourceID act)"
    using LastIndex_some_char [OF assms(5)] by (auto simp: splitResourceID_def)
  define p where "p = (case resolved of Inr q \<Rightarrow> q | Inl err \<Rightarrow> [])"
  have disp: "dispatch en entries u a d act w =
      (if isl resolved \<or> IsInternalPath p then w1 else run_matching en u a t p d entries w1)"
    using assms(1,5,6) i by (auto simp: dispatch_def p_def split: sum.split)
  have path: "event_path en a \<lparr>ep_ItemID = ac_ResourceID act, ep_SpaceID = d\<rparr> w = (p, w1)"
    using assms(4,5,6) by (auto simp: event_path_def p_def split: sum.split)
  have "dispatched u t p d entries = []" if "\<not> list_ex (candidate u t) entries"
    using that by (auto simp: dispatched_def list_ex_iff filter_empty_conv)
  then have "fst (handleEvent en c u a evt data db w) = dispatched u t p d entries"
    using assms(2,3,7) path by (auto simp: handleEvent_def handle_entries_spec)
  then show ?thesis
    using disp run_matching_dispatched [of p en u a t d entries w1] dispatched_unresolved [of u t d entries]
    by (cases resolved) (auto simp: p_def)
qed

definition demo_item_codec :: codec where
  "demo_item_codec = \<lparr>json_Marshal = (\<lambda>j. ''json''),
     json_Unmarshal = (\<lambda>s. Inr (JObj [(''itemid'', JStr ''st$sp!op''), (''spaceid'', JStr ''st$sp'')])),
     json_Decode = (\<lambda>s. Inl (Msg s))\<rparr>"

text \<open>An oCIS that does not find the path of an item.\<close>

definition lost_engine :: "int engine" where
  "lost_engine = demo_engine\<lparr>en_ItemPath := (\<lambda>a s i w. (Inl (Msg ''404''), w + 1))\<rparr>"

theorem dispatch_agrees_with_sse_witness:
  "dispatch demo_engine [demo_event_trigger ''w1'' ''u1'' []] ''u1'' ''Basic x'' ''st$sp'' (demo_activity ''a1'') 7
   = fold (\<lambda>(i, q). runWorkflow demo_engine ''Basic x'' i q) [(''w1'', ''/in/st$sp!op'')] 107
   \<and> dispatch lost_engine [demo_event_trigger ''w1'' ''u1'' []] ''u1'' ''Basic x'' ''st$sp'' (demo_activity ''a1'') 7 = 8
   \<and> fst (handleEvent lost_engine demo_item_codec ''u1'' ''Basic x'' ''postprocessing-finished'' []
       (demo_db\<lparr>db_triggers := [demo_event_trigger ''w1'' ''u1'' []]\<rparr>) 7) = [(''w1'', [])]"
proof -
  let ?db = "demo_db\<lparr>db_triggers := [demo_event_trigger ''w1'' ''u1'' []]\<rparr>"
  have t: "TriggerType (ac_Message (demo_activity ''a1'')) = Some ''upload''" "map_of eventTypeMap ''postprocessing-finished'' = Some ''upload''"
    by (simp_all add: TriggerType_def messageToTriggerType_def demo_activity_def eventTypeMap_def)
  have dec: "decode_payload demo_item_codec [] = Inr \<lparr>ep_ItemID = ac_ResourceID (demo_activity ''a1''), ep_SpaceID = ''st$sp''\<rparr>"
    by (simp add: decode_payload_def demo_item_codec_def key_matches_def ascii_lower_def demo_activity_def)
  have l: "ListEventTriggers ?db = (Inr [demo_event_trigger ''w1'' ''u1'' []], ?db)"
    by (simp add: ListEventTriggers_def listTriggers_def db_simps sql_select_def demo_event_trigger_def)
  have p: "en_ItemPath demo_engine ''Basic x'' ''st$sp'' (ac_ResourceID (demo_activity ''a1'')) 7 = (Inr ''/in/st$sp!op'', 107)"
    by (simp add: demo_engine_def demo_activity_def)
  have h: "fst (handleEvent demo_engine demo_item_codec ''u1'' ''Basic x'' ''postprocessing-finished'' [] ?db 7)
      = [(''w1'', ''/in/st$sp!op'')]"
    by code_simp
  have q: "en_ItemPath lost_engine ''Basic x'' ''st$sp'' (ac_ResourceID (demo_activity ''a1'')) 7 = (Inl (Msg ''404''), 8)"
    by (simp add: lost_engine_def)
  have r: "ac_ResourceID (demo_activity ''a1'') = ''st$sp!op''" by (simp add: demo_activity_def)
  have c: "candidate ''u1'' ''upload'' (demo_event_trigger ''w1'' ''u1'' [])" "ti_PathPrefix (demo_event_trigger ''w1'' ''u1'' []) = []"
    "ti_Extension (demo_event_trigger ''w1'' ''u1'' []) = []" "ti_SpaceID (demo_event_trigger ''w1'' ''u1'' []) = []"
    "ti_WorkflowID (demo_event_trigger ''w1'' ''u1'' []) = ''w1''"
    by (simp_all add: candidate_def demo_event_trigger_def)
  show ?thesis
    using dispatch_agrees_with_sse [where u = "''u1''" and en = demo_engine, OF t dec _ _ p l] h
      dispatch_agrees_with_sse [where u = "''u1''" and en = lost_engine, OF t dec _ _ q l] r c
    by simp
qed

section \<open>Each activity once\<close>

fun first_by_id :: "string list \<Rightarrow> Activity list \<Rightarrow> Activity list" where
  "first_by_id seen [] = []"
| "first_by_id seen (a # as) =
     (if ac_ID a \<in> set seen then first_by_id seen as else a # first_by_id (ac_ID a # seen) as)"

lemma dispatch_all_first:
  "dispatch_all en es u a d seen acts w = fold (dispatch en es u a d) (first_by_id seen acts) w"
  by (induction acts arbitrary: seen w) auto

lemma first_by_id_ids:
  "ac_ID ` set (first_by_id seen acts) = ac_ID ` set acts - set seen"
  "distinct (map ac_ID (first_by_id seen acts))"
  "set (first_by_id seen acts) \<subseteq> set acts"
proof (induction acts arbitrary: seen)
  case (Cons a acts)
  {
    case 1
    show ?case using Cons.IH(1) by auto
  next
    case 2
    have "ac_ID a \<notin> ac_ID ` set (first_by_id (ac_ID a # seen) acts)" using Cons.IH(1) by auto
    then show ?case using Cons.IH(2) by simp
  next
    case 3
    show ?case using Cons.IH(3) by auto
  }
qed simp_all

section \<open>The cursor\<close>

text \<open>The instant the activity log is asked from, given the last checked instant.\<close>

definition since_of :: "reconciler_config \<Rightarrow> time \<Rightarrow> time \<Rightarrow> time" where
  "since_of cfg now checked = max (checked - rc_overlap cfg) (now - rc_firstConnectLookback cfg)"

text \<open>What a drive's last checked instant is taken to be: stored, or synthesised when there is none.\<close>

definition last_checked :: "reconciler_config \<Rightarrow> string \<Rightarrow> string \<Rightarrow> DB \<Rightarrow> time \<Rightarrow> time" where
  "last_checked cfg u d db now =
     (case event_cursors_row (db_cursors db) (u, d) of
        None \<Rightarrow> now - rc_firstConnectLookback cfg
      | Some c \<Rightarrow> parse_or_zero (cr_last_checked c))"

definition debounced :: "reconciler_config \<Rightarrow> string \<Rightarrow> string \<Rightarrow> DB \<Rightarrow> time \<Rightarrow> bool" where
  "debounced cfg u d db now =
     (case event_cursors_row (db_cursors db) (u, d) of
        None \<Rightarrow> False
      | Some c \<Rightarrow> time_sub now (parse_or_zero (cr_last_checked c)) < rc_gracePeriod cfg)"

definition cursor_set :: "string \<Rightarrow> string \<Rightarrow> time \<Rightarrow> string \<Rightarrow> DB \<Rightarrow> DB" where
  "cursor_set u d t st db = db\<lparr>db_cursors := event_cursors_upsert
     \<lparr>cr_user_id = u, cr_drive_id = d, cr_last_checked = format_rfc3339 t, cr_last_status = st\<rparr> (db_cursors db)\<rparr>"

lemma UpsertEventCursor_set:
  "no_faults db \<Longrightarrow> snd (UpsertEventCursor \<lparr>ec_UserID = u, ec_DriveID = d, ec_LastChecked = t, ec_LastStatus = st\<rparr> db)
     = cursor_set u d t st db"
  by (simp add: UpsertEventCursor_def db_simps cursor_set_def cursor_row_of_def)

lemma event_cursors_row_ids:
  "event_cursors_row rows k = Some c \<Longrightarrow> (cr_user_id c, cr_drive_id c) = k"
  by (auto simp: event_cursors_row_def dest: sql_first_SomeD)

lemma reconcileDrive_eq:
  assumes "no_faults db" "pf_Now (en_platform en) w = (now, w0)"
  shows "reconcileDrive en cfg es u a d db w =
    (if debounced cfg u d db now then (db, w0)
     else case en_ListActivities en a d (since_of cfg now (last_checked cfg u d db now)) w0 of
        (Inl err, w1) \<Rightarrow> if pf_CtxDone (en_platform en) w1 then (db, w1)
          else (cursor_set u d (last_checked cfg u d db now) ''sse-only'' db, w1)
      | (Inr acts, w1) \<Rightarrow>
          (cursor_set u d now ''full'' db, fold (dispatch en es u a d) (first_by_id [] acts) w1))"
proof -
  have m: "(if before x y then y else x) = max x y" for x y :: time by (simp add: before_def max_def)
  show ?thesis
    using assms
    by (cases "event_cursors_row (db_cursors db) (u, d)")
      (simp_all add: reconcileDrive_def GetEventCursor_def db_simps m debounced_def last_checked_def
        since_of_def UpsertEventCursor_set dispatch_all_first Let_def split: sum.split prod.split)
qed

lemma cursor_set_row:
  "db_ok db \<Longrightarrow> event_cursors_row (db_cursors (cursor_set u d t st db)) =
     (event_cursors_row (db_cursors db))((u, d) \<mapsto>
        \<lparr>cr_user_id = u, cr_drive_id = d, cr_last_checked = format_rfc3339 t, cr_last_status = st\<rparr>)"
  by (simp add: cursor_set_def db_ok_def event_cursors.row_upsert)

lemma cursor_set_ok: "db_ok db \<Longrightarrow> db_ok (cursor_set u d t st db)"
  by (simp add: cursor_set_def db_ok_def event_cursors.keys_ok_upsert)

lemma cursor_set_reliability:
  assumes "db_ok db" "no_faults db"
  shows "fst (GetReliability u (cursor_set u d t ''sse-only'' db)) = Inr ''sse-only''"
proof -
  have "event_cursors_row (db_cursors (cursor_set u d t ''sse-only'' db)) (u, d) =
      Some \<lparr>cr_user_id = u, cr_drive_id = d, cr_last_checked = format_rfc3339 t, cr_last_status = ''sse-only''\<rparr>"
    using cursor_set_row [OF assms(1)] by simp
  then have "\<lparr>cr_user_id = u, cr_drive_id = d, cr_last_checked = format_rfc3339 t, cr_last_status = ''sse-only''\<rparr>
      \<in> set (db_cursors (cursor_set u d t ''sse-only'' db))"
    unfolding event_cursors_row_def by (blast dest: sql_first_SomeD)
  moreover have "no_faults (cursor_set u d t ''sse-only'' db)" using assms(2) by (simp add: cursor_set_def)
  ultimately show ?thesis
    by (simp add: GetReliability_def db_simps GetReliability_select) (metis cursor_row.select_convs(1,4))
qed

text \<open>
  C34. A failed pass loses nothing: when the activity log cannot be read and the context is not done,
  nothing is dispatched, the drive's last checked instant stays what it was, to the second, every
  other cursor is untouched, and the user's reliability is reported as "sse-only". When the context
  is done instead, the database is unchanged.
\<close>

theorem failed_pass_keeps_window:
  assumes "no_faults db" "db_ok db" "pf_Now (en_platform en) w = (now, w0)" "\<not> debounced cfg u d db now"
    "en_ListActivities en a d (since_of cfg now (last_checked cfg u d db now)) w0 = (Inl err, w1)"
    "rfc_range (last_checked cfg u d db now)" "reconcileDrive en cfg es u a d db w = (db', w')"
  shows "w' = w1
    \<and> (if pf_CtxDone (en_platform en) w1 then db' = db
       else last_checked cfg u d db' now' = whole_second (last_checked cfg u d db now)
         \<and> (\<forall>k. k = (u, d) \<or> event_cursors_row (db_cursors db') k = event_cursors_row (db_cursors db) k)
         \<and> fst (GetReliability u db') = Inr ''sse-only'')"
proof -
  let ?c = "last_checked cfg u d db now"
  have r: "reconcileDrive en cfg es u a d db w =
      (if pf_CtxDone (en_platform en) w1 then db else cursor_set u d ?c ''sse-only'' db, w1)"
    using reconcileDrive_eq [OF assms(1,3), of cfg es u a d] assms(4,5) by simp
  show ?thesis
  proof (cases "pf_CtxDone (en_platform en) w1")
    case True
    then show ?thesis using r assms(7) by simp
  next
    case False
    then have db': "db' = cursor_set u d ?c ''sse-only'' db" "w' = w1" using r assms(7) by simp_all
    have row: "event_cursors_row (db_cursors db') (u, d) = Some \<lparr>cr_user_id = u, cr_drive_id = d,
        cr_last_checked = format_rfc3339 ?c, cr_last_status = ''sse-only''\<rparr>"
      using db'(1) cursor_set_row [OF assms(2)] by simp
    have "last_checked cfg u d db' now' = whole_second ?c"
      unfolding last_checked_def [of cfg u d db'] row using assms(6) by simp
    then show ?thesis
      using False db' cursor_set_row [OF assms(2)] cursor_set_reliability [OF assms(2,1)] by simp
  qed
qed

text \<open>
  C5. No gap between passes: a pass at \<open>now\<close> that reads the log dispatches every activity it got,
  once per id, starting at most the lookback before now. A later pass at \<open>later\<close> that is not
  debounced asks from an instant not after \<open>now\<close>, unless more than the lookback lies between
  the two; so every instant after the first pass's start falls into the second one's window.
\<close>

theorem passes_leave_no_gap:
  assumes "no_faults db" "db_ok db" "pf_Now (en_platform en) w = (now, w0)" "\<not> debounced cfg u d db now"
    "en_ListActivities en a d (since_of cfg now (last_checked cfg u d db now)) w0 = (Inr acts, w1)"
    "rfc_range now" "0 \<le> rc_overlap cfg" "reconcileDrive en cfg es u a d db w = (db', w')"
  shows "w' = fold (dispatch en es u a d) (first_by_id [] acts) w1
    \<and> distinct (map ac_ID (first_by_id [] acts)) \<and> ac_ID ` set (first_by_id [] acts) = ac_ID ` set acts
    \<and> now - rc_firstConnectLookback cfg \<le> since_of cfg now (last_checked cfg u d db now)
    \<and> since_of cfg later (last_checked cfg u d db' later) \<le> max now (later - rc_firstConnectLookback cfg)"
proof -
  have r: "db' = cursor_set u d now ''full'' db" "w' = fold (dispatch en es u a d) (first_by_id [] acts) w1"
    using reconcileDrive_eq [OF assms(1,3), of cfg es u a d] assms(4,5,8) by simp_all
  have "last_checked cfg u d db' later = whole_second now"
    using assms(6) by (simp add: r last_checked_def cursor_set_row [OF assms(2)])
  then have "since_of cfg later (last_checked cfg u d db' later) \<le> max now (later - rc_firstConnectLookback cfg)"
    using whole_second_bounds(1) [of now] assms(7) by (auto simp: since_of_def)
  then show ?thesis using r by (simp add: since_of_def first_by_id_ids)
qed

section \<open>The rate of passes\<close>

text \<open>The instants at which passes of \<open>u\<close> are accepted, for a sequence of requests.\<close>

fun accepted :: "'w platform \<Rightarrow> reconciler_config \<Rightarrow> string \<Rightarrow> string list \<Rightarrow> (string \<Rightarrow> time option) \<Rightarrow> 'w
    \<Rightarrow> time list" where
  "accepted P cfg u [] lps w = []"
| "accepted P cfg u (v # vs) lps w =
     (case shouldStartPass P cfg v lps w of (go, lps1, w1) \<Rightarrow>
        (if go \<and> v = u then [fst (pf_Now P w)] else []) @ accepted P cfg u vs lps1 w1)"

lemma accepted_gap:
  "successively (\<lambda>x y. rc_gracePeriod cfg \<le> time_sub y x)
     ((case lps u of None \<Rightarrow> [] | Some t \<Rightarrow> [t]) @ accepted P cfg u vs lps w)"
proof (induction vs arbitrary: lps w)
  case Nil
  then show ?case by (simp split: option.split)
next
  case (Cons v vs)
  obtain now w1 where n: "pf_Now P w = (now, w1)" by fastforce
  show ?case
  proof (cases "v = u")
    case True
    have upd: "(lps(u \<mapsto> now)) u = Some now" by simp
    show ?thesis
      using Cons.IH [of "lps(u \<mapsto> now)" w1, unfolded upd] Cons.IH [of lps w1] True
      by (cases "lps u") (simp_all add: shouldStartPass_def n del: fun_upd_apply)
  next
    case False
    then have upd: "(lps(v \<mapsto> now)) u = lps u" by simp
    show ?thesis
      using Cons.IH [of "lps(v \<mapsto> now)" w1, unfolded upd] Cons.IH [of lps w1] False
      by (cases "lps v") (simp_all add: shouldStartPass_def n del: fun_upd_apply)
  qed
qed

text \<open>
  Passes are rate limited per user: whatever the requests of other users in between, two
  consecutive accepted passes of one user start at least the grace period apart.
\<close>

lemma passes_rate_limited:
  "successively (\<lambda>x y. rc_gracePeriod cfg \<le> time_sub y x) (accepted P cfg u requests (\<lambda>_. None) w)"
  using accepted_gap [of cfg "\<lambda>_. None" u P requests w] by simp

section \<open>A concrete pass\<close>

definition demo_config :: reconciler_config where
  "demo_config = \<lparr>rc_gracePeriod = 5 * second, rc_overlap = 2 * second,
     rc_firstConnectLookback = 5 * minute, rc_maxConcurrent = 5\<rparr>"

lemma demo_now_facts:
  "rfc_range (demo_now * second)" "rfc_range (demo_now * second - 5 * minute)"
  "pf_Now (en_platform demo_engine) demo_now = (demo_now * second, demo_now + 1)"
  "event_cursors_row (db_cursors demo_db) k = None"
  by (simp_all add: rfc_range_def demo_engine_def demo_platform_def demo_db_def event_cursors_row_def)

lemma demo_not_debounced: "\<not> debounced cfg u d demo_db now"
  "last_checked cfg u d demo_db now = now - rc_firstConnectLookback cfg"
  by (simp_all add: debounced_def last_checked_def demo_now_facts)

theorem passes_leave_no_gap_witness:
  "snd (reconcileDrive demo_engine demo_config [] ''u1'' ''Basic x'' ''d1'' demo_db demo_now) =
     fold (dispatch demo_engine [] ''u1'' ''Basic x'' ''d1'') [demo_activity ''a1''] (demo_now + 1)
   \<and> since_of demo_config (demo_now * second + minute)
       (last_checked demo_config ''u1'' ''d1'' (fst (reconcileDrive demo_engine demo_config [] ''u1'' ''Basic x'' ''d1'' demo_db demo_now))
          (demo_now * second + minute)) \<le> demo_now * second"
proof -
  have l: "en_ListActivities demo_engine ''Basic x'' ''d1'' t w = (Inr [demo_activity ''a1'', demo_activity ''a1''], w)" for t w
    by (simp add: demo_engine_def)
  have o: "0 \<le> rc_overlap demo_config" "rc_firstConnectLookback demo_config = 5 * minute"
    by (simp_all add: demo_config_def)
  have f: "first_by_id [] [demo_activity ''a1'', demo_activity ''a1''] = [demo_activity ''a1'']"
    by (simp add: demo_activity_def)
  show ?thesis
    using passes_leave_no_gap [OF demo_db_ok(2,1) demo_now_facts(3) demo_not_debounced(1) l demo_now_facts(1) o(1)
        surjective_pairing, of "[]" "''u1''" "demo_now * second + minute"] f o(2)
    by simp
qed

definition demo_degraded :: "int engine" where
  "demo_degraded = demo_engine\<lparr>en_ListActivities := (\<lambda>a d t w. (Inl (Msg ''503''), w))\<rparr>"

theorem failed_pass_keeps_window_witness:
  "fst (GetReliability ''u1'' (fst (reconcileDrive demo_degraded demo_config [] ''u1'' ''Basic x'' ''d1'' demo_db demo_now)))
     = Inr ''sse-only''
   \<and> last_checked demo_config ''u1'' ''d1'' (fst (reconcileDrive demo_degraded demo_config [] ''u1'' ''Basic x'' ''d1'' demo_db demo_now)) 0
     = demo_now * second - 5 * minute"
proof -
  have l: "en_ListActivities demo_degraded ''Basic x'' ''d1'' t w = (Inl (Msg ''503''), w)" for t w
    by (simp add: demo_degraded_def)
  have n: "pf_Now (en_platform demo_degraded) demo_now = (demo_now * second, demo_now + 1)"
    "\<not> pf_CtxDone (en_platform demo_degraded) (demo_now + 1)"
    by (simp_all add: demo_degraded_def demo_engine_def demo_platform_def)
  have c: "last_checked demo_config ''u1'' ''d1'' demo_db (demo_now * second) = demo_now * second - 5 * minute"
    by (simp add: demo_not_debounced demo_config_def)
  have r: "rfc_range (last_checked demo_config ''u1'' ''d1'' demo_db (demo_now * second))"
    unfolding c by (rule demo_now_facts(2))
  show ?thesis
    using failed_pass_keeps_window [OF demo_db_ok(2,1) n(1) demo_not_debounced(1) l r surjective_pairing, of "[]" 0] n(2)
    unfolding c by (simp add: whole_second_def)
qed

end
