(* ===== verification/PassSteps.thy ===== *)
theory PassSteps
  imports Reconciler
begin

text \<open>
  backend/pkg/reconcile, step by step: the points at which the goroutine of a catch-up pass waits for the
  semaphore, for the database or for oCIS, and what it does from each to the next. Other goroutines may
  change the database and the world between any two steps. Run without interruption, the steps are
  \<open>Reconcile\<close>; in any interleaving, they come to an end.
\<close>

section \<open>The points of a pass\<close>

text \<open>What \<^verbatim>\<open>reconcileDrive\<close> keeps in local variables, with the drives that come after.\<close>

record drive_job =
  dj_entries :: "TriggerIndexEntry list"
  dj_drives :: "string list"
  dj_drive :: string
  dj_now :: time

text \<open>
  \<open>Asking\<close> and \<open>Degrading\<close> hold the cursor's last checked instant, \<open>Handling\<close> the ids seen and the
  activities left, \<open>Matching\<close> moreover the trigger entries left for the activity at hand, its trigger type
  and its path.
\<close>

datatype point =
    Waiting
  | Listing
  | Scoping "TriggerIndexEntry list"
  | Visiting "TriggerIndexEntry list" "string list"
  | Asking drive_job time
  | Degrading drive_job time
  | Handling drive_job "string list" "Activity list"
  | Matching drive_job "string list" "Activity list" "TriggerIndexEntry list" string string
  | Finished

definition runnable :: "point \<Rightarrow> bool" where
  "runnable p = (p \<noteq> Waiting \<and> p \<noteq> Finished)"

abbreviation next_drive :: "drive_job \<Rightarrow> point" where
  "next_drive j \<equiv> Visiting (dj_entries j) (dj_drives j)"

text \<open>A pass: the goroutine of one \<^verbatim>\<open>Reconcile\<close> call, with the context of the consumer that started it.\<close>

record pass =
  ps_ctx :: nat
  ps_user :: string
  ps_auth :: string
  ps_point :: point

text \<open>The passes that hold a slot of the semaphore: those that are past the wait.\<close>

definition holding :: "pass list \<Rightarrow> pass list" where
  "holding ps = filter (\<lambda>p. ps_point p \<noteq> Waiting) ps"

definition slot_free :: "reconciler_config \<Rightarrow> pass list \<Rightarrow> bool" where
  "slot_free cfg ps = (length (holding ps) < rc_maxConcurrent cfg)"

section \<open>The steps\<close>

text \<open>The beginning of \<^verbatim>\<open>reconcileDrive\<close>: the clock, the cursor, the debounce.\<close>

definition visit_drive :: "'w engine \<Rightarrow> reconciler_config \<Rightarrow> string \<Rightarrow> TriggerIndexEntry list \<Rightarrow> string list
    \<Rightarrow> string \<Rightarrow> DB \<Rightarrow> 'w \<Rightarrow> point \<times> DB \<times> 'w" where
  "visit_drive en cfg userID entries rest driveID db w =
     (case pf_Now (en_platform en) w of (now, w0) \<Rightarrow>
        (let job = \<lparr>dj_entries = entries, dj_drives = rest, dj_drive = driveID, dj_now = now\<rparr> in
         case GetEventCursor userID driveID db of
           (Inl err, db1) \<Rightarrow>
             (if \<not> errors_is err DbNotFound then (Visiting entries rest, db1, w0)
              else (Asking job (now - rc_firstConnectLookback cfg), db1, w0))
         | (Inr cursor, db1) \<Rightarrow>
             (if time_sub now (ec_LastChecked cursor) < rc_gracePeriod cfg then (Visiting entries rest, db1, w0)
              else (Asking job (ec_LastChecked cursor), db1, w0))))"

text \<open>The query of the activity log.\<close>

definition ask_activities :: "'w engine \<Rightarrow> reconciler_config \<Rightarrow> string \<Rightarrow> drive_job \<Rightarrow> time \<Rightarrow> DB \<Rightarrow> 'w
    \<Rightarrow> point \<times> DB \<times> 'w" where
  "ask_activities en cfg authHeader j checked db w =
     (let since0 = checked - rc_overlap cfg; floor = dj_now j - rc_firstConnectLookback cfg;
          since = (if before since0 floor then floor else since0)
      in case en_ListActivities en authHeader (dj_drive j) since w of
           (Inl err, w1) \<Rightarrow> if pf_CtxDone (en_platform en) w1 then (next_drive j, db, w1) else (Degrading j checked, db, w1)
         | (Inr activities, w1) \<Rightarrow> (Handling j [] activities, db, w1))"

text \<open>The beginning of \<^verbatim>\<open>dispatch\<close>: the trigger type and the path of one activity.\<close>

definition resolve_activity :: "'w engine \<Rightarrow> string \<Rightarrow> drive_job \<Rightarrow> string list \<Rightarrow> Activity list \<Rightarrow> Activity \<Rightarrow> 'w
    \<Rightarrow> point \<times> 'w" where
  "resolve_activity en authHeader j seen rest a w =
     (case TriggerType (ac_Message a) of
        None \<Rightarrow> (Handling j seen rest, w)
      | Some triggerType \<Rightarrow>
          if ac_ResourceID a = [] then (Handling j seen rest, w)
          else (case splitResourceID (ac_ResourceID a) of
                  None \<Rightarrow> (Handling j seen rest, w)
                | Some (spaceID, itemID) \<Rightarrow>
                    (case en_ItemPath en authHeader (dj_drive j) itemID w of
                       (Inl err, w1) \<Rightarrow> (Handling j seen rest, w1)
                     | (Inr path, w1) \<Rightarrow>
                         if IsInternalPath path then (Handling j seen rest, w1)
                         else (Matching j seen rest (dj_entries j) triggerType path, w1))))"

definition match_entry :: "'w engine \<Rightarrow> string \<Rightarrow> string \<Rightarrow> string \<Rightarrow> TriggerIndexEntry \<Rightarrow> string \<Rightarrow> string \<Rightarrow> 'w \<Rightarrow> 'w" where
  "match_entry en userID authHeader driveID e triggerType path w =
     (if ti_UserID e \<noteq> userID \<or> ti_EventType e \<noteq> triggerType then w
      else if \<not> MatchesFilters e path driveID then w
      else runWorkflow en authHeader (ti_WorkflowID e) path w)"

fun pass_step :: "'w engine \<Rightarrow> reconciler_config \<Rightarrow> string \<Rightarrow> string \<Rightarrow> point \<Rightarrow> DB \<Rightarrow> 'w \<Rightarrow> point \<times> DB \<times> 'w" where
  "pass_step en cfg u auth Waiting db w = (Waiting, db, w)"
| "pass_step en cfg u auth Listing db w =
     (case ListEventTriggers db of
        (Inl err, db1) \<Rightarrow> (Finished, db1, w)
      | (Inr entries, db1) \<Rightarrow> (Scoping entries, db1, w))"
| "pass_step en cfg u auth (Scoping entries) db w =
     (case drivesForUser en entries auth u w of
        (Inl err, w1) \<Rightarrow> (Finished, db, w1)
      | (Inr drives, w1) \<Rightarrow> (Visiting entries drives, db, w1))"
| "pass_step en cfg u auth (Visiting entries []) db w = (Finished, db, w)"
| "pass_step en cfg u auth (Visiting entries (d # ds)) db w = visit_drive en cfg u entries ds d db w"
| "pass_step en cfg u auth (Asking j checked) db w = ask_activities en cfg auth j checked db w"
| "pass_step en cfg u auth (Degrading j checked) db w =
     (next_drive j, snd (UpsertEventCursor \<lparr>ec_UserID = u, ec_DriveID = dj_drive j,
        ec_LastChecked = checked, ec_LastStatus = ''sse-only''\<rparr> db), w)"
| "pass_step en cfg u auth (Handling j seen []) db w =
     (next_drive j, snd (UpsertEventCursor \<lparr>ec_UserID = u, ec_DriveID = dj_drive j,
        ec_LastChecked = dj_now j, ec_LastStatus = ''full''\<rparr> db), w)"
| "pass_step en cfg u auth (Handling j seen (a # as)) db w =
     (if ac_ID a \<in> set seen then (Handling j seen as, db, w)
      else case resolve_activity en auth j (ac_ID a # seen) as a w of (p, w1) \<Rightarrow> (p, db, w1))"
| "pass_step en cfg u auth (Matching j seen as [] t path) db w = (Handling j seen as, db, w)"
| "pass_step en cfg u auth (Matching j seen as (e # es) t path) db w =
     (Matching j seen as es t path, db, match_entry en u auth (dj_drive j) e t path w)"
| "pass_step en cfg u auth Finished db w = (Finished, db, w)"

section \<open>A pass ends\<close>

fun point_rank :: "point \<Rightarrow> nat \<times> nat \<times> nat \<times> nat \<times> nat" where
  "point_rank Waiting = (4, 0, 0, 0, 0)"
| "point_rank Listing = (3, 0, 0, 0, 0)"
| "point_rank (Scoping es) = (2, 0, 0, 0, 0)"
| "point_rank (Visiting es ds) = (1, length ds, 0, 0, 0)"
| "point_rank (Asking j t) = (1, length (dj_drives j), 2, 0, 0)"
| "point_rank (Degrading j t) = (1, length (dj_drives j), 1, 0, 0)"
| "point_rank (Handling j seen as) = (1, length (dj_drives j), 1, length as, 0)"
| "point_rank (Matching j seen as es t p) = (1, length (dj_drives j), 1, length as, Suc (length es))"
| "point_rank Finished = (0, 0, 0, 0, 0)"

definition rank_less :: "(point \<times> point) set" where
  "rank_less = inv_image (less_than <*lex*> less_than <*lex*> less_than <*lex*> less_than <*lex*> less_than) point_rank"

lemma wf_rank_less [simp, intro]: "wf rank_less"
  unfolding rank_less_def by (intro wf_inv_image wf_lex_prod wf_less_than)

lemma pass_step_rank:
  assumes "runnable p"
  shows "(fst (pass_step en cfg u auth p db w), p) \<in> rank_less"
  using assms
  by (cases "(en, cfg, u, auth, p, db, w)" rule: pass_step.cases)
    (auto simp: runnable_def rank_less_def visit_drive_def ask_activities_def resolve_activity_def Let_def
      split: sum.splits prod.splits option.splits if_splits)

lemma pass_step_rankI: "runnable p \<Longrightarrow> (p1, y) = pass_step en cfg u auth p db w \<Longrightarrow> (p1, p) \<in> rank_less"
  by (metis pass_step_rank fst_conv)

text \<open>
  C36. A catch-up pass ends in every interleaving: whatever other goroutines do to the database and to the
  world between its steps, a pass that has its slot takes only finitely many of them.
\<close>

theorem pass_terminates:
  "wf {(p', p). runnable p \<and> (\<exists>db w. fst (pass_step en cfg u auth p db w) = p')}"
proof (rule wf_subset [OF wf_rank_less], rule subsetI)
  fix x assume "x \<in> {(p', p). runnable p \<and> (\<exists>db w. fst (pass_step en cfg u auth p db w) = p')}"
  then obtain p db w where "x = (fst (pass_step en cfg u auth p db w), p)" "runnable p" by (auto simp: prod_eq_iff)
  then show "x \<in> rank_less" using pass_step_rank by metis
qed

section \<open>Without interruption\<close>

function pass_run :: "'w engine \<Rightarrow> reconciler_config \<Rightarrow> string \<Rightarrow> string \<Rightarrow> point \<Rightarrow> DB \<Rightarrow> 'w \<Rightarrow> point \<times> DB \<times> 'w" where
  "pass_run en cfg u auth p db w =
     (if \<not> runnable p then (p, db, w)
      else case pass_step en cfg u auth p db w of (p1, db1, w1) \<Rightarrow> pass_run en cfg u auth p1 db1 w1)"
  by pat_completeness auto

termination
  by (relation "inv_image rank_less (\<lambda>(en, cfg, u, auth, p, db, w). p)")
    (auto simp: wf_inv_image in_inv_image split: prod.splits intro: pass_step_rankI [OF _ sym])

declare pass_run.simps [simp del]

lemma pass_run_step: "runnable p \<Longrightarrow> pass_run en cfg u auth p db w =
    (case pass_step en cfg u auth p db w of (p1, db1, w1) \<Rightarrow> pass_run en cfg u auth p1 db1 w1)"
  by (subst pass_run.simps) simp

lemma pass_run_Finished [simp]: "pass_run en cfg u auth Finished db w = (Finished, db, w)"
  by (subst pass_run.simps) (simp add: runnable_def)

lemma run_Matching:
  "pass_run en cfg u auth (Matching j seen as es t path) db w =
     pass_run en cfg u auth (Handling j seen as) db (run_matching en u auth t path (dj_drive j) es w)"
  by (induction es arbitrary: w) (simp_all add: pass_run_step runnable_def match_entry_def)

lemma run_resolved:
  "(case resolve_activity en auth j seen as a w of (p, w1) \<Rightarrow> pass_run en cfg u auth p db w1) =
     pass_run en cfg u auth (Handling j seen as) db (dispatch en (dj_entries j) u auth (dj_drive j) a w)"
  by (auto simp: resolve_activity_def dispatch_def run_Matching split: option.split sum.split prod.split)

lemma run_Handling:
  "pass_run en cfg u auth (Handling j seen as) db w =
     pass_run en cfg u auth (next_drive j) (snd (UpsertEventCursor \<lparr>ec_UserID = u, ec_DriveID = dj_drive j,
        ec_LastChecked = dj_now j, ec_LastStatus = ''full''\<rparr> db))
      (dispatch_all en (dj_entries j) u auth (dj_drive j) seen as w)"
proof (induction as arbitrary: seen w)
  case Nil
  show ?case by (simp add: pass_run_step [of "Handling j seen []"] runnable_def)
next
  case (Cons a as)
  show ?case
  proof (cases "ac_ID a \<in> set seen")
    case True
    then show ?thesis using Cons.IH by (simp add: pass_run_step [of "Handling j seen (a # as)"] runnable_def)
  next
    case False
    have "pass_run en cfg u auth (Handling j seen (a # as)) db w =
        (case resolve_activity en auth j (ac_ID a # seen) as a w of (p, w1) \<Rightarrow> pass_run en cfg u auth p db w1)"
      using False by (simp add: pass_run_step [of "Handling j seen (a # as)"] runnable_def split: prod.split)
    then show ?thesis using False Cons.IH by (simp add: run_resolved)
  qed
qed

lemma run_drive:
  "pass_run en cfg u auth (Visiting es (d # ds)) db w =
     (case reconcileDrive en cfg es u auth d db w of (db1, w1) \<Rightarrow> pass_run en cfg u auth (Visiting es ds) db1 w1)"
  by (auto simp: pass_run_step [of "Visiting es (d # ds)"] pass_run_step [of "Asking _ _"] pass_run_step [of "Degrading _ _"]
      runnable_def visit_drive_def ask_activities_def reconcileDrive_def run_Handling Let_def split: sum.split prod.split)

lemma run_Visiting:
  "pass_run en cfg u auth (Visiting es ds) db w =
     (case reconcile_drives en cfg es u auth ds db w of (db1, w1) \<Rightarrow> (Finished, db1, w1))"
proof (induction ds arbitrary: db w)
  case Nil
  show ?case by (simp add: pass_run_step [of "Visiting es []"] runnable_def)
next
  case (Cons d ds)
  show ?case by (simp add: run_drive Cons.IH split: prod.split)
qed

text \<open>
  The two models of a pass agree: a pass that is admitted, gets its slot and then runs its steps without
  interruption changes the database and the world exactly as \<open>Reconcile\<close> does, and ends.
\<close>

lemma pass_steps_refine:
  "Reconcile en cfg acquire u auth lps db w =
     (case shouldStartPass (en_platform en) cfg u lps w of (go, lps1, w1) \<Rightarrow>
        if \<not> go then (lps1, db, w1)
        else case acquire w1 of (slot, w2) \<Rightarrow>
          if \<not> slot then (lps1, db, w2)
          else case pass_run en cfg u auth Listing db w2 of (p, db1, w3) \<Rightarrow> (lps1, db1, w3))
   \<and> fst (pass_run en cfg u auth Listing db w) = Finished"
  by (auto simp: Reconcile_def pass_run_step [of Listing] pass_run_step [of "Scoping _"] runnable_def run_Visiting
      split: prod.split sum.split bool.split)

section \<open>Two passes at once\<close>

text \<open>
  While a pass handles the activities it was given, it leaves the database alone: the cursor advances only
  after the last of them. So a second pass of the same user, admitted as soon as the grace period is over,
  asks from the old cursor and dispatches the same activities again, although the cursor is said to
  prevent exactly that. Here the first pass is about to run a workflow for an activity, a minute goes by, and
  the second pass comes to run the same workflow for the same activity.
\<close>

lemma handling_keeps_cursor:
  "fst (snd (pass_step en cfg u auth (Handling j seen (a # as)) db w)) = db"
  "fst (snd (pass_step en cfg u auth (Matching j seen as es t path) db w)) = db"
  by (simp_all add: case_prod_beta) (cases es; simp)

definition demo_pass :: "DB \<Rightarrow> int \<Rightarrow> point \<times> DB \<times> int" where
  "demo_pass db w = ((\<lambda>(p, db, w). pass_step demo_engine demo_config ''u1'' ''Basic x'' p db w) ^^ 5) (Listing, db, w)"

fun about_to_run :: "point \<Rightarrow> (string \<times> string list \<times> string) option" where
  "about_to_run (Matching j (i # seen) as es t path) = Some (i, map ti_WorkflowID es, path)"
| "about_to_run _ = None"

definition demo_overlap :: "bool \<times> point \<times> point" where
  "demo_overlap =
     (case demo_pass (demo_db\<lparr>db_triggers := [demo_event_trigger ''w1'' ''u1'' []]\<rparr>) demo_now of (p1, db, w) \<Rightarrow>
        (fst (shouldStartPass demo_platform demo_config ''u1'' [''u1'' \<mapsto> demo_now * second] (w + 60)),
         p1, fst (demo_pass db (w + 60))))"

lemma overlapping_passes_dispatch_twice:
  "case demo_overlap of (admitted, p1, p2) \<Rightarrow>
     admitted \<and> about_to_run p1 = Some (''a1'', [''w1''], ''/in/st$sp!op'') \<and> about_to_run p2 = about_to_run p1"
  by code_simp

end
