(* ===== verification/RenewSteps.thy ===== *)
theory RenewSteps
  imports ServiceHandlers
begin

text \<open>
  backend/pkg/automation/renew.go, step by step. A sweep waits for the list of credentials, and for each one that is
  due for the mint, for the statement that stores the new one and for the revocation; everything else of the
  backend may go on in between. The definitions are the points a sweep can be at and the step from each to the
  next. Run without interruption the steps are \<open>renewDue\<close>; with a Disconnect in between they are not harmless.
\<close>

section \<open>The steps\<close>

datatype renewal =
    Sleeping
  | Renewing time "Automation list"
  | Storing time Automation string time "Automation list"
  | Revoking time Automation "Automation list"

fun renew_step :: "'w Service \<Rightarrow> renewal \<Rightarrow> DB \<Rightarrow> 'w \<Rightarrow> renewal \<times> DB \<times> 'w" where
  "renew_step s Sleeping db w =
     (case ListAutomations (sv_gcm s) db of
        (Inl err, db1) \<Rightarrow> (Sleeping, db1, w)
      | (Inr automations, db1) \<Rightarrow>
          (case pf_Now (sv_platform s) w of (now, w1) \<Rightarrow> (Renewing now automations, db1, w1)))"
| "renew_step s (Renewing now []) db w = (Sleeping, db, w)"
| "renew_step s (Renewing now (a # as)) db w =
     (if time_sub (am_ExpiresAt a) now > renewalWindow then (Renewing now as, db, w)
      else (case gr_MintAppPassword (sv_graph s) (BasicAuth a) defaultExpiry tokenLabel w of
              (Inl err, w1) \<Rightarrow> (Renewing now as, db, w1)
            | (Inr (token, expiresAt), w1) \<Rightarrow> (Storing now a token expiresAt as, db, w1)))"
| "renew_step s (Storing now a token expiresAt as) db w =
     (case pf_Nonce (sv_platform s) w of (nonce, w1) \<Rightarrow>
        (case UpsertAutomation (sv_gcm s) nonce
                \<lparr>am_UserID = am_UserID a, am_Username = am_Username a, am_AppPassword = token,
                 am_ExpiresAt = expiresAt, am_ConnectedAt = am_ConnectedAt a\<rparr> db of
           (Inl err, db1) \<Rightarrow> (Renewing now as, db1, w1)
         | (Inr _, db1) \<Rightarrow> (Revoking now a as, db1, w1)))"
| "renew_step s (Revoking now a as) db w =
     (case gr_RevokeAppPassword (sv_graph s) (BasicAuth a) (am_AppPassword a) w of
        (revoked, w1) \<Rightarrow> (Renewing now as, db, w1))"

text \<open>A sweep ends, whatever happens between its steps.\<close>

fun renewal_rank :: "renewal \<Rightarrow> nat" where
  "renewal_rank Sleeping = 0"
| "renewal_rank (Renewing now as) = 3 * length as + 1"
| "renewal_rank (Storing now a t e as) = 3 * length as + 3"
| "renewal_rank (Revoking now a as) = 3 * length as + 2"

lemma renew_step_rank: "p \<noteq> Sleeping \<Longrightarrow> renewal_rank (fst (renew_step s p db w)) < renewal_rank p"
  by (cases "(s, p, db, w)" rule: renew_step.cases) (auto split: prod.split sum.split)

lemma renew_step_rankI: "p \<noteq> Sleeping \<Longrightarrow> (p1, y) = renew_step s p db w \<Longrightarrow> renewal_rank p1 < renewal_rank p"
  by (metis renew_step_rank fst_conv)

section \<open>Without interruption\<close>

function renew_run :: "'w Service \<Rightarrow> renewal \<Rightarrow> DB \<Rightarrow> 'w \<Rightarrow> DB \<times> 'w" where
  "renew_run s p db w =
     (if p = Sleeping then (db, w)
      else case renew_step s p db w of (p1, db1, w1) \<Rightarrow> renew_run s p1 db1 w1)"
  by pat_completeness auto

termination
  by (relation "measure (\<lambda>(s, p, db, w). renewal_rank p)") (auto split: prod.splits intro: renew_step_rankI [OF _ sym])

declare renew_run.simps [simp del]

lemma renew_run_Sleeping [simp]: "renew_run s Sleeping db w = (db, w)"
  by (simp add: renew_run.simps [of s Sleeping])

lemma renew_run_step:
  "p \<noteq> Sleeping \<Longrightarrow> renew_run s p db w = (case renew_step s p db w of (p1, db1, w1) \<Rightarrow> renew_run s p1 db1 w1)"
  by (simp add: renew_run.simps [of s p])

lemma run_renewOne:
  "\<not> time_sub (am_ExpiresAt a) now > renewalWindow \<Longrightarrow> renew_run s (Renewing now (a # as)) db w =
     (case renewOne s a db w of (db1, w1) \<Rightarrow> renew_run s (Renewing now as) db1 w1)"
  by (simp add: renew_run_step [of "Renewing now (a # as)"] renew_run_step [of "Storing _ _ _ _ _"] renew_run_step [of "Revoking _ _ _"]
      renewOne_def Let_def split: prod.split sum.split)

lemma run_Renewing: "renew_run s (Renewing now as) db w = renew_loop s now as db w"
proof (induction as arbitrary: db w)
  case Nil
  show ?case by (simp add: renew_run_step [of "Renewing now []"])
next
  case (Cons a as)
  show ?case
  proof (cases "time_sub (am_ExpiresAt a) now > renewalWindow")
    case True
    then show ?thesis using Cons.IH by (simp add: renew_run_step [of "Renewing now (a # as)"])
  next
    case False
    obtain db1 w1 where r: "renewOne s a db w = (db1, w1)" by fastforce
    show ?thesis unfolding run_renewOne [OF False] r using False r Cons.IH by simp
  qed
qed

lemma renewal_steps_refine:
  "renewDue s db w = (case renew_step s Sleeping db w of (p, db1, w1) \<Rightarrow> renew_run s p db1 w1)"
  by (simp add: renewDue_def run_Renewing split: prod.split sum.split)

section \<open>In between\<close>

text \<open>What a sweep holds: credentials of their owners, and a password minted for its owner.\<close>

abbreviation owned :: "'w Service \<Rightarrow> Automation \<Rightarrow> bool" where
  "owned s a \<equiv> own_credential s (am_UserID a) (am_Username a) (am_AppPassword a)"

fun renewal_own :: "'w Service \<Rightarrow> renewal \<Rightarrow> bool" where
  "renewal_own s Sleeping = True"
| "renewal_own s (Renewing now as) = (\<forall>a \<in> set as. owned s a)"
| "renewal_own s (Storing now a t e as) = (own_credential s (am_UserID a) (am_Username a) t \<and> (\<forall>a \<in> set as. owned s a))"
| "renewal_own s (Revoking now a as) = (\<forall>a \<in> set as. owned s a)"

lemma renew_step_evolves:
  assumes "renewal_own s p" "creds_all (sv_gcm s) (own_credential s) db" "renew_step s p db w = (p', db', w')"
  shows "service_evolves s UNIV db db' \<and> renewal_own s p'"
proof (cases "(s, p, db, w)" rule: renew_step.cases)
  case (1 s db w)
  then show ?thesis using assms creds_all_list [OF assms(2)]
    by (auto split: prod.splits sum.splits dest: evolves_queries(2))
next
  case (3 s now a as db w)
  have own: "owned s a" "\<forall>a \<in> set as. owned s a" using 3 assms(1) by simp_all
  have minted: "own_credential s (am_UserID a) (am_Username a) t" if "gr_MintAppPassword (sv_graph s) (BasicAuth a) defaultExpiry tokenLabel w = (Inr (t, e), w1)" for t e w1
    by (rule own_credential.renewed [OF own(1)]) (use that in \<open>auto simp: mints_def BasicAuth_def\<close>)
  obtain r w1 where m: "gr_MintAppPassword (sv_graph s) (BasicAuth a) defaultExpiry tokenLabel w = (r, w1)" by fastforce
  show ?thesis using assms(3) 3 m own minted
    by (cases "time_sub (am_ExpiresAt a) now > renewalWindow"; cases r) auto
next
  case (4 s now a t e as db w)
  obtain n w1 where n: "pf_Nonce (sv_platform s) w = (n, w1)" by fastforce
  let ?a = "\<lparr>am_UserID = am_UserID a, am_Username = am_Username a, am_AppPassword = t, am_ExpiresAt = e, am_ConnectedAt = am_ConnectedAt a\<rparr>"
  have "stored_by s n ?a" using 4 assms(1) n by (auto simp: stored_by_def)
  then have "service_evolves s UNIV db (snd (UpsertAutomation (sv_gcm s) n ?a db))" by (intro evolves_writes(5)) auto
  then show ?thesis using 4 assms(1,3) n by (auto split: prod.splits sum.splits)
qed (use assms in \<open>auto split: prod.splits\<close>)

text \<open>
  A sweep that has minted a new app-password stores it, whatever the user did since. A user who disconnects in
  that moment is told that the credential is forgotten, and finds automation connected again, with a password that
  Disconnect could not revoke.
\<close>

lemma disconnected_during_renewal:
  assumes "cred_ok (sv_gcm s) db" "gr_Me (sv_graph s) auth w = (Inr (am_UserID a), w1)" "Disconnect s auth db w = (Inr r, db1, w2)"
    "pf_Nonce (sv_platform s) w2 = (Inr n, w3)" "cred_fits n (a\<lparr>am_AppPassword := token, am_ExpiresAt := e\<rparr>)"
  shows "cred_get (sv_gcm s) db1 (am_UserID a) = None
    \<and> (\<exists>db2. renew_step s (Storing now a token e as) db1 w2 = (Revoking now a as, db2, w3)
         \<and> cred_get (sv_gcm s) db2 (am_UserID a) = Some (cred_norm (a\<lparr>am_AppPassword := token, am_ExpiresAt := e\<rparr>)))"
proof -
  let ?a = "a\<lparr>am_AppPassword := token, am_ExpiresAt := e\<rparr>"
  note d = disconnect_credential [OF assms(1-3), THEN conjunct1] disconnect_credential [OF assms(1-3), THEN conjunct2]
  have a: "\<lparr>am_UserID = am_UserID a, am_Username = am_Username a, am_AppPassword = token,
        am_ExpiresAt = e, am_ConnectedAt = am_ConnectedAt a\<rparr> = ?a" by simp
  have nf: "no_faults db1" using d(1) by (simp add: cred_ok_def)
  have "UpsertAutomation (sv_gcm s) (Inr n) ?a db1 = (Inr (), cred_put (sv_gcm s) n ?a db1)"
    using UpsertAutomation_no_faults [OF nf, of "sv_gcm s" n ?a] by (metis cred_put_def snd_conv)
  then have "renew_step s (Storing now a token e as) db1 w2 = (Revoking now a as, cred_put (sv_gcm s) n ?a db1, w3)"
    using assms(4) by (simp add: a)
  moreover have "cred_get (sv_gcm s) (cred_put (sv_gcm s) n ?a db1) (am_UserID a) = Some (cred_norm ?a)"
    using creds.get_put [OF d(1) assms(5)] by simp
  ultimately show ?thesis using d(2) by blast
qed

end
