(* ===== verification/System.thy ===== *)
theory System
  imports HttpServer WebdavFile Llm Notify Config Scheduler PassSteps RenewSteps
begin

text \<open>
  backend/pkg/command/server.go: the whole backend. \<open>RunServer\<close> builds every component from the
  configuration and the libraries (record \<open>outside\<close>) and runs the HTTP server, the debug server, the
  scheduler, the SSE manager and the renewal loop concurrently, until a signal comes or a server fails. The
  step relation \<open>sys_step\<close> interleaves their operations in any order over one state: the database, the
  manager, the tables of the scheduler and the reconciler, the loops that run, the goroutines started and
  not yet finished, and the world. A request, a tick, a workflow run and one connection of a stream are one
  step each; a catch-up pass takes the steps of \<open>pass_step\<close>, a renewal sweep those of \<open>renew_step\<close>.
\<close>

section \<open>Wiring\<close>

record 'w outside =
  ou_http :: "'w http"
  ou_llm :: "'w http"
  ou_codec :: codec
  ou_xml :: "string \<Rightarrow> xml result"
  ou_Parse :: "string \<Rightarrow> (string \<times> string) result"
  ou_sort :: "ExecutionRecord list \<Rightarrow> ExecutionRecord list"
  ou_docs :: doc_libs
  ou_notifier :: "'w notifier"
  ou_platform :: "'w platform"
  ou_gcm :: gcm
  ou_cron :: cron
  ou_mux :: mux

definition reconcileGracePeriod :: duration where "reconcileGracePeriod = 5 * second"
definition reconcileOverlapWindow :: duration where "reconcileOverlapWindow = 5 * second"
definition reconcileFirstConnectLookback :: duration where "reconcileFirstConnectLookback = 5 * 60 * second"
definition reconcileMaxConcurrent :: nat where "reconcileMaxConcurrent = 10"

definition ocis_net :: "'w outside \<Rightarrow> 'w net" where
  "ocis_net out = \<lparr>nt_http = ou_http out, nt_codec = ou_codec out, nt_xml = ou_xml out\<rparr>"

definition ocis_URL :: "Config \<Rightarrow> string" where
  "ocis_URL cfg = Client_New (cf_OCISURL cfg)"

definition the_store :: "Config \<Rightarrow> 'w outside \<Rightarrow> 'w Store" where
  "the_store cfg out = Store_New (cf_OCISURL cfg) (ocis_net out) (ocis_URL cfg) (ocis_net out) (ou_sort out)"

definition the_executor :: "Config \<Rightarrow> 'w outside \<Rightarrow> 'w Executor" where
  "the_executor cfg out =
     \<lparr>ex_llm = llm_client (Some (LlmClient_New (cf_LLMEndpoint cfg) (cf_LLMAPIKey cfg) (cf_LLMModel cfg)
        (cf_LLMMaxTokens cfg) (ou_llm out) (ou_codec out))),
      ex_files = file_client (FilesClient_New (cf_OCISURL cfg) (ocis_net out) (ocis_URL cfg) (ocis_net out)),
      ex_graph = \<lparr>gc_ResolveItemID = ResolveItemID (ocis_net out) (ocis_URL cfg),
        gc_AssignTag = AssignTag (ocis_net out) (ocis_URL cfg)\<rparr>,
      ex_notify = Notify_Send (ou_notifier out), ex_docs = ou_docs out, ex_platform = ou_platform out\<rparr>"

text \<open>What the scheduler, the SSE manager and the reconciler are given.\<close>

definition the_engine :: "Config \<Rightarrow> 'w outside \<Rightarrow> 'w engine" where
  "the_engine cfg out =
     \<lparr>en_platform = ou_platform out, en_gcm = ou_gcm out,
      en_store = \<lparr>ws_Get = Store_Get (the_store cfg out), ws_PutExecution = PutExecution (the_store cfg out)\<rparr>,
      en_Run = Run (the_executor cfg out),
      en_ItemPath = ItemPath (ocis_net out) (ocis_URL cfg), en_ListDrives = ListDrives (ocis_net out) (ocis_URL cfg),
      en_ListActivities = ListActivities (ocis_net out) (ocis_URL cfg)\<rparr>"

definition the_reconciler :: reconciler_config where
  "the_reconciler = \<lparr>rc_gracePeriod = reconcileGracePeriod, rc_overlap = reconcileOverlapWindow,
     rc_firstConnectLookback = reconcileFirstConnectLookback, rc_maxConcurrent = reconcileMaxConcurrent\<rparr>"

text \<open>The request of \<^verbatim>\<open>streamOnce\<close>; the body of the response is what arrives until the connection ends.\<close>

definition sse_endpoint :: "Config \<Rightarrow> 'w outside \<Rightarrow> 'w sse_endpoint" where
  "sse_endpoint cfg out authHeader w =
     (case send (ou_http out) ''GET''
         (TrimRight (CHR ''/'') (cf_OCISURL cfg) @ ''/ocs/v2.php/apps/notifications/api/v1/notifications/sse'')
         [(''Authorization'', authHeader), (''Accept'', ''text/event-stream'')] [] w of
        (Inl err, w1) \<Rightarrow> (Inl err, w1)
      | (Inr res, w1) \<Rightarrow> (Inr (rs_Status res, rs_Body res), w1))"

definition the_service :: "Config \<Rightarrow> 'w outside \<Rightarrow> 'w Service" where
  "the_service cfg out =
     \<lparr>sv_graph = \<lparr>gr_Me = Me (ocis_net out) (ocis_URL cfg), gr_Username = Username (ocis_net out) (ocis_URL cfg),
        gr_MintAppPassword = MintAppPassword (ocis_net out) (ocis_URL cfg),
        gr_RevokeAppPassword = RevokeAppPassword (ocis_net out) (ocis_URL cfg)\<rparr>,
      sv_kick = True, sv_platform = ou_platform out, sv_gcm = ou_gcm out\<rparr>"

definition the_options :: "Config \<Rightarrow> 'w outside \<Rightarrow> 'w Options" where
  "the_options cfg out =
     \<lparr>op_AllowedOrigin = cf_AllowedOrigin cfg,
      op_Validator = NewValidator (cf_OCISURL cfg) (cf_AllowedOrigin cfg) (ou_http out) (ou_codec out) (ou_Parse out),
      op_Workflows = \<lparr>wh_store = the_store cfg out, wh_Run = Run (the_executor cfg out),
        wh_Me = Me (ocis_net out) (ocis_URL cfg), wh_kick = True, wh_platform = ou_platform out, wh_codec = ou_codec out\<rparr>,
      op_Automation = NewAutomationHandler (the_service cfg out) (Me (ocis_net out) (ocis_URL cfg)) (ou_codec out),
      op_Spaces = NewSpacesHandler (ListDrives (ocis_net out) (ocis_URL cfg)) (ou_codec out)\<rparr>"

section \<open>The loops\<close>

text \<open>
  The three background loops wait in a \<^verbatim>\<open>select\<close>, which takes one of the cases that are ready, in no
  particular order. Each definition is one turn of its loop for the case taken; the ticker is always ready. The
  renewal loop begins its sweep, which then takes its steps.
\<close>

datatype select_case = CtxDone | TickerC | KickC

definition ready :: "Manager \<Rightarrow> select_case \<Rightarrow> bool" where
  "ready m c = (case c of CtxDone \<Rightarrow> mg_root m | TickerC \<Rightarrow> True | KickC \<Rightarrow> mg_kick m)"

definition scheduler_Start :: "'w engine \<Rightarrow> cron \<Rightarrow> select_case \<Rightarrow> DB \<Rightarrow> last_run \<Rightarrow> 'w
    \<Rightarrow> (DB \<times> last_run \<times> TriggerIndexEntry list \<times> 'w) option" where
  "scheduler_Start en parse c db lr w = (if c = CtxDone then None else Some (tick en parse db lr w))"

definition manager_Start :: "'w platform \<Rightarrow> select_case \<Rightarrow> DB \<Rightarrow> Manager \<Rightarrow> 'w \<Rightarrow> bool \<times> DB \<times> Manager \<times> 'w" where
  "manager_Start P c db m w =
     (case c of
        CtxDone \<Rightarrow> (False, db, stopAll m, w)
      | TickerC \<Rightarrow> (True, manager_reconcile P db m w)
      | KickC \<Rightarrow> (True, manager_reconcile P db (m\<lparr>mg_kick := False\<rparr>) w))"

definition StartRenewalLoop :: "'w Service \<Rightarrow> select_case \<Rightarrow> DB \<Rightarrow> 'w \<Rightarrow> (renewal \<times> DB \<times> 'w) option" where
  "StartRenewalLoop sv c db w = (if c = CtxDone then None else Some (renew_step sv Sleeping db w))"

lemma loop_turns [simp]:
  "scheduler_Start en parse TickerC db lr w = Some (tick en parse db lr w)"
  "manager_Start P TickerC db m w = (True, manager_reconcile P db m w)"
  "manager_Start P KickC db m w = (True, manager_reconcile P db (m\<lparr>mg_kick := False\<rparr>) w)"
  "manager_Start P CtxDone db m w = (False, db, stopAll m, w)"
  "StartRenewalLoop sv TickerC db w = Some (renew_step sv Sleeping db w)"
  "ready m CtxDone = mg_root m" "ready m TickerC" "ready m KickC = mg_kick m"
  by (simp_all add: scheduler_Start_def manager_Start_def StartRenewalLoop_def ready_def)

section \<open>The running backend\<close>

text \<open>The functions \<^verbatim>\<open>RunServer\<close> gives to its errgroup; each runs until it returns.\<close>

datatype server_loop = ApiServer | DebugServer | ScheduleLoop | ManagerLoop | RenewalLoop | ShutdownWait

definition all_loops :: "server_loop list" where
  "all_loops = [ApiServer, DebugServer, ScheduleLoop, ManagerLoop, RenewalLoop, ShutdownWait]"

text \<open>
  \<open>sy_loops\<close> are the functions that have not returned, \<open>sy_scheduled\<close> the runs the scheduler started,
  \<open>sy_streams\<close> the consumers that have read their credential, with the header they send, \<open>sy_spawned\<close> the
  goroutines that consumers started, with the context they were given, \<open>sy_passes\<close> the catch-up passes
  that were admitted, and \<open>sy_renewal\<close> the point of the renewal loop. The context of the group is the manager's root context: it is done once \<open>mg_root\<close> holds.
\<close>

record 'w System =
  sy_loops :: "server_loop list"
  sy_db :: DB
  sy_mgr :: Manager
  sy_endpoint :: string
  sy_lastRun :: last_run
  sy_lastPass :: "string \<Rightarrow> time option"
  sy_scheduled :: "TriggerIndexEntry list"
  sy_streams :: "(goroutine \<times> string) list"
  sy_spawned :: "(nat \<times> spawned) list"
  sy_passes :: "pass list"
  sy_renewal :: renewal
  sy_world :: 'w

definition sys_start :: "DB \<Rightarrow> 'w \<Rightarrow> 'w System" where
  "sys_start db w = \<lparr>sy_loops = all_loops, sy_db = db, sy_mgr = manager_New, sy_endpoint = [], sy_lastRun = Map.empty, sy_lastPass = Map.empty,
     sy_scheduled = [], sy_streams = [], sy_spawned = [], sy_passes = [],
     sy_renewal = Sleeping, sy_world = w\<rparr>"

text \<open>
  A stream is there in two grains. In \<open>consumer_stream\<close> it connects, delivers all its bytes and ends, in one step. In
  \<open>consumer_connected\<close> and \<open>consumer_event\<close> it connects, and then delivers its events one by one, with any other
  steps between them: what oCIS sends is not known, so any event may come. With its context done a consumer handles no event: the
  first thing \<^verbatim>\<open>handleEvent\<close> does for an event it knows is a query with that context, which then fails.
\<close>

inductive sys_step :: "Config \<Rightarrow> 'w outside \<Rightarrow> 'w System \<Rightarrow> 'w System \<Rightarrow> bool" for cfg out where
  request: "ApiServer \<in> set (sy_loops s) \<Longrightarrow>
    serve (ou_mux out) (the_options cfg out) method path r (sy_endpoint s) (sy_db s, sy_mgr s) (sy_world s) =
      (res, ep, (db, m), w) \<Longrightarrow>
    sys_step cfg out s (s\<lparr>sy_endpoint := ep, sy_db := db, sy_mgr := m, sy_world := w\<rparr>)"
| scheduler_tick: "ScheduleLoop \<in> set (sy_loops s) \<Longrightarrow>
    scheduler_Start (the_engine cfg out) (ou_cron out) TickerC (sy_db s) (sy_lastRun s) (sy_world s) =
      Some (db, lr, started, w) \<Longrightarrow>
    sys_step cfg out s (s\<lparr>sy_db := db, sy_lastRun := lr, sy_scheduled := started @ sy_scheduled s, sy_world := w\<rparr>)"
| scheduled_run: "e \<in> set (sy_scheduled s) \<Longrightarrow> runOne (the_engine cfg out) e (sy_db s) (sy_world s) = (db, w) \<Longrightarrow>
    sys_step cfg out s (s\<lparr>sy_db := db, sy_scheduled := remove1 e (sy_scheduled s), sy_world := w\<rparr>)"
| manager_selects: "ManagerLoop \<in> set (sy_loops s) \<Longrightarrow> ready (sy_mgr s) c \<Longrightarrow>
    manager_Start (ou_platform out) c (sy_db s) (sy_mgr s) (sy_world s) = (True, db, m, w) \<Longrightarrow>
    sys_step cfg out s (s\<lparr>sy_db := db, sy_mgr := m, sy_world := w\<rparr>)"
| consumer_refused: "g \<in> set (mg_running (sy_mgr s)) \<Longrightarrow> g \<notin> fst ` set (sy_streams s) \<Longrightarrow>
    GetAutomation (ou_gcm out) (go_user g) (sy_db s) = (Inl err, db) \<Longrightarrow>
    sys_step cfg out s (s\<lparr>sy_db := db, sy_mgr := returned g (deactivate (go_user g) (go_id g) (sy_mgr s))\<rparr>)"
| consumer_started: "g \<in> set (mg_running (sy_mgr s)) \<Longrightarrow> g \<notin> fst ` set (sy_streams s) \<Longrightarrow>
    GetAutomation (ou_gcm out) (go_user g) (sy_db s) = (Inr a, db) \<Longrightarrow>
    sys_step cfg out s (s\<lparr>sy_db := db, sy_streams := (g, BasicAuth a) # sy_streams s\<rparr>)"
| consumer_stream: "(g, auth) \<in> set (sy_streams s) \<Longrightarrow> g \<in> set (mg_running (sy_mgr s)) \<Longrightarrow>
    \<not> ctx_done (sy_mgr s) (go_ctx g) \<Longrightarrow>
    streamOnce (the_engine cfg out) (ou_codec out) (sse_endpoint cfg out) (go_user g) auth (sy_db s) (sy_world s) =
      (err, connected, runs, db, w) \<Longrightarrow>
    sys_step cfg out s (s\<lparr>sy_db := db, sy_world := w, sy_spawned := map (Pair (go_ctx g))
      ((if connected then [SpawnReconcile (go_user g) auth] else []) @ spawn_runs auth runs) @ sy_spawned s\<rparr>)"
| consumer_connected: "(g, auth) \<in> set (sy_streams s) \<Longrightarrow> g \<in> set (mg_running (sy_mgr s)) \<Longrightarrow>
    \<not> ctx_done (sy_mgr s) (go_ctx g) \<Longrightarrow> sse_endpoint cfg out auth (sy_world s) = (Inr (200, body, ended), w) \<Longrightarrow>
    sys_step cfg out s (s\<lparr>sy_world := w, sy_spawned := (go_ctx g, SpawnReconcile (go_user g) auth) # sy_spawned s\<rparr>)"
| consumer_event: "(g, auth) \<in> set (sy_streams s) \<Longrightarrow> g \<in> set (mg_running (sy_mgr s)) \<Longrightarrow>
    \<not> ctx_done (sy_mgr s) (go_ctx g) \<Longrightarrow>
    handleEvent (the_engine cfg out) (ou_codec out) (go_user g) auth evt data (sy_db s) (sy_world s) = (runs, db, w) \<Longrightarrow>
    sys_step cfg out s (s\<lparr>sy_db := db, sy_world := w, sy_spawned := map (Pair (go_ctx g)) (spawn_runs auth runs) @ sy_spawned s\<rparr>)"
| consumer_cancelled: "g \<in> set (mg_running (sy_mgr s)) \<Longrightarrow> ctx_done (sy_mgr s) (go_ctx g) \<Longrightarrow>
    sys_step cfg out s (s\<lparr>sy_mgr := returned g (sy_mgr s)\<rparr>)"
| event_run: "(c, SpawnRun auth i p) \<in> set (sy_spawned s) \<Longrightarrow>
    SSEStream.runWorkflow (the_engine cfg out) auth i p (sy_world s) = w \<Longrightarrow>
    sys_step cfg out s (s\<lparr>sy_spawned := remove1 (c, SpawnRun auth i p) (sy_spawned s), sy_world := w\<rparr>)"
| pass_requested: "(c, SpawnReconcile u auth) \<in> set (sy_spawned s) \<Longrightarrow>
    shouldStartPass (ou_platform out) the_reconciler u (sy_lastPass s) (sy_world s) = (go, lp, w) \<Longrightarrow>
    sys_step cfg out s (s\<lparr>sy_spawned := remove1 (c, SpawnReconcile u auth) (sy_spawned s), sy_lastPass := lp, sy_world := w,
      sy_passes := (if go then [\<lparr>ps_ctx = c, ps_user = u, ps_auth = auth, ps_point = Waiting\<rparr>] else []) @ sy_passes s\<rparr>)"
| pass_acquired: "sy_passes s = ps @ p # qs \<Longrightarrow> ps_point p = Waiting \<Longrightarrow> slot_free the_reconciler (sy_passes s) \<Longrightarrow>
    sys_step cfg out s (s\<lparr>sy_passes := ps @ p\<lparr>ps_point := Listing\<rparr> # qs\<rparr>)"
| pass_given_up: "sy_passes s = ps @ p # qs \<Longrightarrow> ps_point p = Waiting \<Longrightarrow> ctx_done (sy_mgr s) (ps_ctx p) \<Longrightarrow>
    sys_step cfg out s (s\<lparr>sy_passes := ps @ qs\<rparr>)"
| pass_moves: "sy_passes s = ps @ p # qs \<Longrightarrow> runnable (ps_point p) \<Longrightarrow>
    pass_step (the_engine cfg out) the_reconciler (ps_user p) (ps_auth p) (ps_point p) (sy_db s) (sy_world s) = (q, db, w) \<Longrightarrow>
    sys_step cfg out s (s\<lparr>sy_passes := ps @ p\<lparr>ps_point := q\<rparr> # qs, sy_db := db, sy_world := w\<rparr>)"
| pass_ends: "sy_passes s = ps @ p # qs \<Longrightarrow> ps_point p = Finished \<Longrightarrow>
    sys_step cfg out s (s\<lparr>sy_passes := ps @ qs\<rparr>)"
| renewal_tick: "RenewalLoop \<in> set (sy_loops s) \<Longrightarrow> sy_renewal s = Sleeping \<Longrightarrow>
    StartRenewalLoop (the_service cfg out) TickerC (sy_db s) (sy_world s) = Some (p, db, w) \<Longrightarrow>
    sys_step cfg out s (s\<lparr>sy_renewal := p, sy_db := db, sy_world := w\<rparr>)"
| renewal_moves: "sy_renewal s \<noteq> Sleeping \<Longrightarrow>
    renew_step (the_service cfg out) (sy_renewal s) (sy_db s) (sy_world s) = (p, db, w) \<Longrightarrow>
    sys_step cfg out s (s\<lparr>sy_renewal := p, sy_db := db, sy_world := w\<rparr>)"
| signalled: "sys_step cfg out s (s\<lparr>sy_mgr := (sy_mgr s)\<lparr>mg_root := True\<rparr>\<rparr>)"
| server_failed: "l \<in> set (sy_loops s) \<Longrightarrow> l = ApiServer \<or> l = DebugServer \<Longrightarrow>
    sys_step cfg out s (s\<lparr>sy_loops := remove1 l (sy_loops s), sy_mgr := (sy_mgr s)\<lparr>mg_root := True\<rparr>\<rparr>)"
| loop_returned: "l \<in> set (sy_loops s) \<Longrightarrow> ready (sy_mgr s) CtxDone \<Longrightarrow> l \<noteq> ManagerLoop \<Longrightarrow>
    l = RenewalLoop \<longrightarrow> sy_renewal s = Sleeping \<Longrightarrow>
    sys_step cfg out s (s\<lparr>sy_loops := remove1 l (sy_loops s)\<rparr>)"
| manager_returned: "ManagerLoop \<in> set (sy_loops s) \<Longrightarrow> ready (sy_mgr s) CtxDone \<Longrightarrow>
    manager_Start (ou_platform out) CtxDone (sy_db s) (sy_mgr s) (sy_world s) = (False, db, m, w) \<Longrightarrow>
    sys_step cfg out s (s\<lparr>sy_loops := remove1 ManagerLoop (sy_loops s), sy_db := db, sy_mgr := m, sy_world := w\<rparr>)"
| outside: "sys_step cfg out s (s\<lparr>sy_world := w\<rparr>)"

text \<open>
  The states the backend can get to from a database that opened, whatever its schema was and whichever of its later
  statements fail. In any of them the process may end, by its own or by a crash, and another one may start on the
  rows it leaves; everything else is lost. A start whose migration fails leaves the rows for the next.
\<close>

inductive sys_reach :: "Config \<Rightarrow> 'w outside \<Rightarrow> 'w System \<Rightarrow> bool" for cfg out where
  start: "db_Open (cf_EncryptionKey cfg) opened sch faults = Inr db \<Longrightarrow> sys_reach cfg out (sys_start db w)"
| step: "sys_reach cfg out s \<Longrightarrow> sys_step cfg out s s' \<Longrightarrow> sys_reach cfg out s'"
| restart: "sys_reach cfg out s \<Longrightarrow> fst (db_Open_file (cf_EncryptionKey cfg) opened sch faults (sy_db s)) = Inr db \<Longrightarrow>
    sys_reach cfg out (sys_start db w)"

end
