(* ===== verification/SystemInvariants.thy ===== *)
theory SystemInvariants
  imports System
begin

text \<open>
  Invariants of the running backend. Every step changes the database by a sequence of statements
  (\<open>db_evolves\<close>) and the SSE manager by its own steps (\<open>mgr_step\<close>); \<open>sys_ok\<close> collects what holds in every
  reachable state of keys and rows of the tables and of the owners of credentials, streams and passes. Apart from
  it stand the slots of the semaphore, the progress of waiting passes, and what happens after the end of the loops.
\<close>

section \<open>The background operations as database changes\<close>

lemma tick_evolves: "tick en parse db lr w = (db', lr', started, w') \<Longrightarrow> db_evolves g U A db db'"
  by (auto simp: tick_def Let_def split: sum.splits prod.splits dest: evolves_queries(4))

lemma runOne_evolves: "runOne en e db w = (db', w') \<Longrightarrow> db_evolves g U A db db'"
  by (auto simp: runOne_def split: sum.splits prod.splits dest: evolves_queries(1))

lemma manager_reconcile_evolves: "manager_reconcile P db m w = (db', m', w') \<Longrightarrow> db_evolves g U A db db'"
  by (auto simp: manager_reconcile_def Let_def split: sum.splits prod.splits dest: evolves_queries(3))

lemma manager_Start_evolves: "manager_Start P c db m w = (go, db', m', w') \<Longrightarrow> db_evolves g U A db db'"
  by (cases c) (auto dest: manager_reconcile_evolves)

lemma handleEvent_evolves: "handleEvent en c u a t data db w = (runs, db', w') \<Longrightarrow> db_evolves g U A db db'"
  by (auto simp: handleEvent_def Let_def split: option.splits sum.splits prod.splits dest: evolves_queries(3))

lemma scan_loop_evolves: "scan_loop en c u a ls et data db w = (runs, db', w') \<Longrightarrow> db_evolves g U A db db'"
proof (induction ls arbitrary: et data db w runs db' w')
  case (Cons l ls)
  show ?case
  proof (cases "HasPrefix l ''event:'' \<or> HasPrefix l ''data:'' \<or> l \<noteq> []")
    case True
    then show ?thesis using Cons by (auto split: if_splits)
  next
    case False
    obtain r1 db1 w1 where h: "(if data \<noteq> [] then handleEvent en c u a et data db w else ([], db, w)) = (r1, db1, w1)"
      by (metis prod_cases3)
    obtain r2 db2 w2 where l: "scan_loop en c u a ls [] [] db1 w1 = (r2, db2, w2)" by (metis prod_cases3)
    have "db_evolves g U A db db1" using h by (auto dest: handleEvent_evolves split: if_splits)
    moreover have "db_evolves g U A db1 db2" by (rule Cons.IH [OF l])
    moreover have "db' = db2" using Cons.prems False h l by simp
    ultimately show ?thesis by (auto intro: evolves_trans)
  qed
qed simp

lemma streamOnce_evolves: "streamOnce en c ep u a db w = (err, con, runs, db', w') \<Longrightarrow> db_evolves g U A db db'"
  by (auto simp: streamOnce_def Let_def split: sum.splits prod.splits if_splits dest: scan_loop_evolves)

lemma pass_step_evolves:
  assumes "pass_step en cfg u auth p db w = (q, db', w')"
  shows "db_evolves g {u} A db db'"
proof (cases "(en, cfg, u, auth, p, db, w)" rule: pass_step.cases)
  case (2 en cfg u auth db w)
  then show ?thesis using assms by (auto split: sum.splits prod.splits dest: evolves_queries(3))
next
  case (5 en cfg u auth es d ds db w)
  then show ?thesis using assms
    by (auto simp: visit_drive_def Let_def split: sum.splits prod.splits if_splits dest: evolves_queries(5))
qed (use assms in \<open>auto simp: ask_activities_def status_typed_def Let_def evolves_writes(3)
  split: sum.splits prod.splits if_splits\<close>)

section \<open>Invariants\<close>

abbreviation sys_evolves :: "Config \<Rightarrow> 'w outside \<Rightarrow> DB \<Rightarrow> DB \<Rightarrow> bool" where
  "sys_evolves cfg out \<equiv> service_evolves (the_service cfg out) UNIV"

lemma automation_of_options [simp]: "ah_automation (op_Automation (the_options cfg out)) = the_service cfg out"
    "sv_gcm (the_service cfg out) = ou_gcm out" "sv_platform (the_service cfg out) = ou_platform out"
    "en_gcm (the_engine cfg out) = ou_gcm out" "en_platform (the_engine cfg out) = ou_platform out"
  by (simp_all add: the_options_def NewAutomationHandler_def the_service_def the_engine_def)

lemma request_evolves:
  assumes "serve mx (the_options cfg out) method path r cached (db, m) w = (res, ep, (db', m'), w')"
  shows "sys_evolves cfg out db db' \<and> (m' = m \<or> m' = Kick m)"
  using serve_evolves [OF assms] by (auto simp: shared_evolves_def intro: evolves_mono)

lemma sys_step_evolves:
  assumes "sys_step cfg out s s'" "creds_all (ou_gcm out) (own_credential (the_service cfg out)) (sy_db s)"
    "renewal_own (the_service cfg out) (sy_renewal s)"
  shows "sys_evolves cfg out (sy_db s) (sy_db s')"
  using assms(1)
proof (cases rule: sys_step.cases)
  case (renewal_tick p db w)
  then show ?thesis using renew_step_evolves [of "the_service cfg out" Sleeping "sy_db s" "sy_world s" p db w] assms(2) by simp
next
  case (renewal_moves p db w)
  then show ?thesis using renew_step_evolves [OF assms(3), of "sy_db s" "sy_world s" p db w] assms(2) by simp
next
  case (pass_moves ps p qs q db w)
  have "service_evolves (the_service cfg out) {ps_user p} (sy_db s) db" by (rule pass_step_evolves [OF pass_moves(4)])
  then have "sys_evolves cfg out (sy_db s) db" by (rule evolves_mono) simp_all
  then show ?thesis using pass_moves(1) by simp
qed (auto dest: request_evolves tick_evolves runOne_evolves manager_Start_evolves evolves_queries(1) streamOnce_evolves handleEvent_evolves)

section \<open>The manager's steps\<close>

lemma manager_reconcile_step:
  assumes "range_ok P" "manager_reconcile P db m w = (db', m', w')" "mgr_reach m"
  shows "mgr_reach m'"
proof (cases "ListEventTriggers db")
  case (Pair q db1)
  show ?thesis
  proof (cases q)
    case (Inl err)
    then show ?thesis using assms Pair by (simp add: manager_reconcile_def)
  next
    case (Inr entries)
    obtain order w1 where o: "pf_RangeKeys P (remdups (map ti_UserID entries)) w = (order, w1)" by fastforce
    then have "set order = set (remdups (map ti_UserID entries))"
      using range_ok_keys [OF assms(1)] by (metis set_mset_mset)
    then have "mgr_step m (reconcile_wanted (remdups (map ti_UserID entries)) order m)"
      by (intro mgr_step.reconciled) simp_all
    then show ?thesis using assms(2) Pair Inr o mgr_reach.step [OF assms(3)] by (simp add: manager_reconcile_def)
  qed
qed

lemma sys_step_manager:
  assumes "sys_step cfg out s s'" "range_ok (ou_platform out)" "mgr_reach (sy_mgr s)"
  shows "mgr_reach (sy_mgr s')"
  using assms(1)
proof (cases rule: sys_step.cases)
  case (request meth p r res ep db m w)
  then show ?thesis using request_evolves [OF request(3)] assms(3) by (auto intro: mgr_reach.step mgr_step.kicked)
next
  case (manager_selects c db m w)
  have "mgr_reach ((sy_mgr s)\<lparr>mg_kick := False\<rparr>)" if "c = KickC"
    using mgr_reach.step [OF assms(3) mgr_step.kick_taken] manager_selects(3) that by simp
  then show ?thesis using manager_reconcile_step [OF assms(2)] manager_selects assms(3) by (cases c) auto
qed (use assms(3) in \<open>auto intro: mgr_reach.step mgr_step.intros\<close>)

lemma sys_reach_manager: "sys_reach cfg out s \<Longrightarrow> range_ok (ou_platform out) \<Longrightarrow> mgr_reach (sy_mgr s)"
proof (induction rule: sys_reach.induct)
  case (step s s')
  show ?case by (rule sys_step_manager [OF step(2,4) step(3) [OF step(4)]])
qed (simp_all add: sys_start_def mgr_reach.init)

text \<open>Without the manager's loop, nothing becomes active and the root context stays done.\<close>

definition mgr_idle :: "Manager \<Rightarrow> bool" where
  "mgr_idle m = (mg_root m \<and> mg_active m = [])"

lemma mgr_idle_intros [intro]:
  "mgr_idle m \<Longrightarrow> mgr_idle (Kick m)"
  "mgr_idle m \<Longrightarrow> mgr_idle (returned g m)"
  "mgr_idle m \<Longrightarrow> mgr_idle (deactivate u i m)"
  "mgr_idle m \<Longrightarrow> mgr_idle (m\<lparr>mg_root := True\<rparr>)"
  "mg_root m \<Longrightarrow> mgr_idle (stopAll m)"
  by (simp_all add: mgr_idle_def Kick_def returned_def deactivate_def stopAll_def)

lemma sys_step_idle:
  assumes "sys_step cfg out s s'" "ManagerLoop \<notin> set (sy_loops s) \<longrightarrow> mgr_idle (sy_mgr s)"
  shows "ManagerLoop \<notin> set (sy_loops s') \<longrightarrow> mgr_idle (sy_mgr s')"
  using assms(1)
proof (cases rule: sys_step.cases)
  case (request meth p r res ep db m w)
  then show ?thesis using request_evolves [OF request(3)] assms(2) by auto
next
  case (loop_returned l)
  then have "ManagerLoop \<in> set (remove1 l (sy_loops s)) \<longleftrightarrow> ManagerLoop \<in> set (sy_loops s)"
    by (auto dest: in_set_remove1 notin_set_remove1 [rotated])
  then show ?thesis using loop_returned assms(2) by simp
qed (use assms(2) in \<open>auto dest: notin_set_remove1\<close>)

text \<open>Without the renewal loop, no sweep is under way.\<close>

lemma sys_step_asleep:
  assumes "sys_step cfg out s s'" "RenewalLoop \<notin> set (sy_loops s) \<longrightarrow> sy_renewal s = Sleeping"
  shows "RenewalLoop \<notin> set (sy_loops s') \<longrightarrow> sy_renewal s' = Sleeping"
  using assms(1)
proof (cases rule: sys_step.cases)
  case (loop_returned l)
  then show ?thesis using assms(2) by (cases "l = RenewalLoop") auto
qed (use assms(2) in \<open>auto dest: notin_set_remove1\<close>)

section \<open>Slots\<close>

lemma holding_simps [simp]:
  "holding (ps @ qs) = holding ps @ holding qs"
  "holding (p # qs) = (if ps_point p = Waiting then holding qs else p # holding qs)"
  "holding [] = []"
  by (simp_all add: holding_def)

lemma sys_step_slots:
  assumes "sys_step cfg out s s'" "length (holding (sy_passes s)) \<le> rc_maxConcurrent the_reconciler"
  shows "length (holding (sy_passes s')) \<le> rc_maxConcurrent the_reconciler"
  using assms by (cases rule: sys_step.cases) (auto simp: slot_free_def runnable_def)

text \<open>Both hold of every reachable state, whatever the platform does.\<close>

lemma sys_reach_steps: "(sys_step cfg out)\<^sup>*\<^sup>* s s' \<Longrightarrow> sys_reach cfg out s \<Longrightarrow> sys_reach cfg out s'"
  by (induction rule: rtranclp_induct) (auto intro: sys_reach.step)

lemma sys_reach_slots: "sys_reach cfg out s \<Longrightarrow> length (holding (sy_passes s)) \<le> rc_maxConcurrent the_reconciler"
  by (induction rule: sys_reach.induct) (auto simp: sys_start_def intro: sys_step_slots)

lemma sys_reach_asleep: "sys_reach cfg out s \<Longrightarrow> RenewalLoop \<notin> set (sy_loops s) \<longrightarrow> sy_renewal s = Sleeping"
proof (induction rule: sys_reach.induct)
  case (step s s')
  show ?case by (rule sys_step_asleep [OF step(2,3)])
qed (simp_all add: sys_start_def)

lemma sys_reach_idle: "sys_reach cfg out s \<Longrightarrow> ManagerLoop \<notin> set (sy_loops s) \<longrightarrow> mgr_idle (sy_mgr s)"
proof (induction rule: sys_reach.induct)
  case (step s s')
  show ?case by (rule sys_step_idle [OF step(2,3)])
qed (simp_all add: sys_start_def all_loops_def)

section \<open>Owners\<close>

text \<open>
  The header of an authorized background operation: it is made of a credential that is the user's own.
\<close>

definition own_header :: "'w Service \<Rightarrow> string \<Rightarrow> string \<Rightarrow> bool" where
  "own_header sv u auth = (\<exists>a. am_UserID a = u \<and> own_credential sv u (am_Username a) (am_AppPassword a) \<and> auth = BasicAuth a)"

fun spawned_own :: "'w Service \<Rightarrow> spawned \<Rightarrow> bool" where
  "spawned_own sv (SpawnReconcile u auth) = own_header sv u auth"
| "spawned_own sv (SpawnRun auth i p) = (\<exists>u. own_header sv u auth)"

definition owners_ok :: "'w Service \<Rightarrow> 'w System \<Rightarrow> bool" where
  "owners_ok sv s = ((\<forall>(g, auth) \<in> set (sy_streams s). own_header sv (go_user g) auth)
     \<and> (\<forall>x \<in> snd ` set (sy_spawned s). spawned_own sv x)
     \<and> (\<forall>p \<in> set (sy_passes s). own_header sv (ps_user p) (ps_auth p)) \<and> renewal_own sv (sy_renewal s))"

definition sys_ok :: "Config \<Rightarrow> 'w outside \<Rightarrow> 'w System \<Rightarrow> bool" where
  "sys_ok cfg out s = (db_ok (sy_db s) \<and> rows_typed (sy_db s) \<and> mgr_reach (sy_mgr s)
     \<and> creds_all (ou_gcm out) (own_credential (the_service cfg out)) (sy_db s)
     \<and> secretbox_New (cf_EncryptionKey cfg) = Inr (db_box (sy_db s)) \<and> owners_ok (the_service cfg out) s)"

lemma set_spawn_runs: "x \<in> set (spawn_runs auth runs) \<Longrightarrow> \<exists>i p. x = SpawnRun auth i p"
  by (induction runs) auto

lemma sys_step_owners:
  assumes "sys_step cfg out s s'" "sys_ok cfg out s"
  shows "owners_ok (the_service cfg out) s'"
proof -
  let ?sv = "the_service cfg out"
  have own: "owners_ok ?sv s" and creds: "creds_all (ou_gcm out) (own_credential ?sv) (sy_db s)"
    using assms(2) by (simp_all add: sys_ok_def)
  show ?thesis
    using assms(1)
  proof (cases rule: sys_step.cases)
    case (consumer_started g a db)
    have "am_UserID a = go_user g \<and> own_credential ?sv (go_user g) (am_Username a) (am_AppPassword a)"
      using creds_all_get [of "ou_gcm out" "own_credential ?sv", OF _ consumer_started(4)] assms(2) by (simp add: sys_ok_def)
    then show ?thesis using own consumer_started(1) by (auto simp: owners_ok_def own_header_def)
  next
    case (consumer_stream g auth err connected runs db w)
    have "own_header ?sv (go_user g) auth" using own consumer_stream(2) by (auto simp: owners_ok_def)
    then have "\<forall>x \<in> set ((if connected then [SpawnReconcile (go_user g) auth] else []) @ spawn_runs auth runs). spawned_own ?sv x"
      by (auto dest!: set_spawn_runs)
    then show ?thesis using own consumer_stream(1) by (auto simp: owners_ok_def)
  next
    case (consumer_connected g auth body ended w)
    then show ?thesis using own by (auto simp: owners_ok_def)
  next
    case (consumer_event g auth evt data runs db w)
    have "own_header ?sv (go_user g) auth" using own consumer_event(2) by (auto simp: owners_ok_def)
    then have "\<forall>x \<in> set (spawn_runs auth runs). spawned_own ?sv x" by (auto dest!: set_spawn_runs)
    then show ?thesis using own consumer_event(1) by (auto simp: owners_ok_def)
  next
    case (event_run c auth i p w)
    then show ?thesis using own by (auto simp: owners_ok_def dest: notin_set_remove1 [rotated])
  next
    case (pass_requested c u auth go lp w)
    then have "own_header ?sv u auth" using own by (force simp: owners_ok_def)
    then show ?thesis using own pass_requested(1) by (auto simp: owners_ok_def dest: notin_set_remove1 [rotated])
  next
    case (renewal_tick p db w)
    then have "renewal_own ?sv p" using renew_step_evolves [of ?sv Sleeping "sy_db s" "sy_world s" p db w] creds by simp
    then show ?thesis using own renewal_tick(1) by (simp add: owners_ok_def)
  next
    case (renewal_moves p db w)
    then have "renewal_own ?sv p"
      using renew_step_evolves [of ?sv "sy_renewal s" "sy_db s" "sy_world s" p db w] creds own by (simp add: owners_ok_def)
    then show ?thesis using own renewal_moves(1) by (simp add: owners_ok_def)
  qed (use own in \<open>auto simp: owners_ok_def\<close>)
qed

lemma sys_step_ok:
  assumes "sys_step cfg out s s'" "range_ok (ou_platform out)" "gcm_ok (ou_gcm out)" "nonce_ok (ou_platform out)" "sys_ok cfg out s"
  shows "sys_ok cfg out s'"
proof -
  have c: "creds_all (ou_gcm out) (own_credential (the_service cfg out)) (sy_db s)" using assms(5) by (simp add: sys_ok_def)
  have e: "sys_evolves cfg out (sy_db s) (sy_db s')"
    by (rule sys_step_evolves [OF assms(1) c]) (use assms(5) in \<open>simp add: sys_ok_def owners_ok_def\<close>)
  have "creds_all (ou_gcm out) (own_credential (the_service cfg out)) (sy_db s')"
    by (rule evolves_creds [OF assms(3) _ _ e [unfolded automation_of_options] c])
      (use assms(4) in \<open>auto simp: stored_by_def nonce_ok_def\<close>)
  then show ?thesis
    using assms(5) evolves_ok [OF e] evolves_typed [OF e] evolves_box [OF e] sys_step_manager [OF assms(1,2)] sys_step_owners [OF assms(1,5)]
    by (simp add: sys_ok_def)
qed

lemma sys_reach_ok:
  assumes "range_ok (ou_platform out)" "gcm_ok (ou_gcm out)" "nonce_ok (ou_platform out)"
  shows "sys_reach cfg out s \<Longrightarrow> sys_ok cfg out s"
proof (induction rule: sys_reach.induct)
  case (start opened sch faults db w)
  then obtain b fs where "secretbox_New (cf_EncryptionKey cfg) = Inr b"
    "db = \<lparr>db_box = b, db_automations = [], db_triggers = [], db_cursors = [], db_faults = fs\<rparr>"
    by (rule db_Open_Inr)
  then show ?case
    by (simp add: sys_ok_def sys_start_def db_ok_def rows_typed_def creds_all_def owners_ok_def pk_ok_def mgr_reach.init)
next
  case (step s s')
  then show ?case using sys_step_ok assms by blast
next
  case (restart s opened sch faults db w)
  from restart(2) obtain b fs where b: "secretbox_New (cf_EncryptionKey cfg) = Inr b" "db = (sy_db s)\<lparr>db_box := b, db_faults := fs\<rparr>"
    by (rule db_Open_file_Inr)
  have ok: "sys_ok cfg out s" by (rule restart(3))
  then have db: "db = (sy_db s)\<lparr>db_box := db_box (sy_db s), db_faults := fs\<rparr>" using b by (auto simp: sys_ok_def)
  show ?case
    using ok by (simp add: sys_ok_def sys_start_def db db_ok_def rows_typed_def creds_all_def owners_ok_def mgr_reach.init)
qed

text \<open>
  A consumer never reads its credential again: whatever happens, the header it sends stays the one
  it started with, and reconciling leaves it alone as long as its user has an event trigger.
\<close>

lemma consumer_keeps_header:
  "sys_step cfg out s s' \<Longrightarrow> ga \<in> set (sy_streams s) \<Longrightarrow> ga \<in> set (sy_streams s')"
  by (induction rule: sys_step.cases) auto

lemma reconcile_keeps_consumer:
  assumes "u \<in> set wanted" "map_of (mg_active m) u = Some c"
  shows "map_of (mg_active (reconcile_wanted wanted order m)) u = Some c"
proof -
  have one: "map_of (mg_active (start_missing a m')) u = Some c" if "map_of (mg_active m') u = Some c" for a m'
    using that by (auto simp: start_missing_def Let_def)
  have keep: "map_of (mg_active (fold start_missing us m')) u = Some c" if "map_of (mg_active m') u = Some c" for us m'
    using that by (induction us arbitrary: m') (auto simp: one)
  have "map_of (filter (\<lambda>(u, c). u \<in> set wanted) xs) u = map_of xs u" for xs :: "(string \<times> activeConsumer) list"
    using assms(1) by (induction xs) auto
  then have "map_of (filter (\<lambda>(u, c). u \<in> set wanted) (mg_active m)) u = Some c" using assms(2) by simp
  then show ?thesis by (simp add: reconcile_wanted_def keep stop_unwanted_def)
qed

section \<open>Progress of the passes\<close>

text \<open>A pass that holds a slot can run to its end, whatever the others do.\<close>

lemma pass_finishes:
  "sy_passes s = ps @ q # qs \<Longrightarrow> ps_point q \<noteq> Waiting \<Longrightarrow>
   \<exists>s'. (sys_step cfg out)\<^sup>*\<^sup>* s s' \<and> sy_passes s' = ps @ qs"
proof (induction "ps_point q" arbitrary: q s rule: wf_induct_rule [OF wf_rank_less])
  case 1
  show ?case
  proof (cases "ps_point q = Finished")
    case True
    then have "sys_step cfg out s (s\<lparr>sy_passes := ps @ qs\<rparr>)" using pass_ends [of s ps q qs] 1(2) by blast
    then have "(sys_step cfg out)\<^sup>*\<^sup>* s (s\<lparr>sy_passes := ps @ qs\<rparr>)" by (rule r_into_rtranclp)
    then show ?thesis by (intro exI [of _ "s\<lparr>sy_passes := ps @ qs\<rparr>"]) simp
  next
    case False
    then have run: "runnable (ps_point q)" using 1(3) by (simp add: runnable_def)
    obtain pt db w where st: "pass_step (the_engine cfg out) the_reconciler (ps_user q) (ps_auth q) (ps_point q)
        (sy_db s) (sy_world s) = (pt, db, w)" by (metis prod_cases3)
    let ?q = "q\<lparr>ps_point := pt\<rparr>" and ?s = "s\<lparr>sy_passes := ps @ q\<lparr>ps_point := pt\<rparr> # qs, sy_db := db, sy_world := w\<rparr>"
    have step: "sys_step cfg out s ?s" by (rule pass_moves [OF 1(2) run st])
    have less: "(ps_point ?q, ps_point q) \<in> rank_less"
      using pass_step_rankI [OF run] st by (simp add: eq_commute)
    have "ps_point ?q \<noteq> Waiting" using less run by (cases "ps_point q") (auto simp: rank_less_def runnable_def)
    then obtain s' where "(sys_step cfg out)\<^sup>*\<^sup>* ?s s'" "sy_passes s' = ps @ qs"
      using 1(1) [OF less, of ?s] by auto
    then show ?thesis using converse_rtranclp_into_rtranclp [of "sys_step cfg out", OF step] by blast
  qed
qed

lemma slot_gets_free:
  assumes "sy_passes s = ps @ p # qs" "ps_point p = Waiting" "length (holding (sy_passes s)) \<le> rc_maxConcurrent the_reconciler"
  shows "\<exists>s' ps' qs'. (sys_step cfg out)\<^sup>*\<^sup>* s s' \<and> sy_passes s' = ps' @ p # qs' \<and> slot_free the_reconciler (sy_passes s')"
proof (cases "slot_free the_reconciler (sy_passes s)")
  case True
  then show ?thesis using assms(1) by blast
next
  case False
  then have "holding (ps @ qs) \<noteq> []"
    using assms(1,2) by (auto simp: slot_free_def the_reconciler_def reconcileMaxConcurrent_def)
  then obtain q where q: "q \<in> set (ps @ qs)" "ps_point q \<noteq> Waiting"
    by (auto simp: holding_def filter_empty_conv simp del: filter_append)
  consider (before) as bs where "ps = as @ q # bs" | (behind) as bs where "qs = as @ q # bs"
    using q(1) by (auto dest: split_list)
  then show ?thesis
  proof cases
    case before
    then obtain s' where s': "(sys_step cfg out)\<^sup>*\<^sup>* s s'" "sy_passes s' = (as @ bs) @ p # qs"
      using pass_finishes [of s as q "bs @ p # qs"] assms(1) q(2) by auto
    have "slot_free the_reconciler (sy_passes s')" using assms before q(2) s'(2) by (simp add: slot_free_def)
    then show ?thesis using s' by blast
  next
    case behind
    then obtain s' where s': "(sys_step cfg out)\<^sup>*\<^sup>* s s'" "sy_passes s' = ps @ p # (as @ bs)"
      using pass_finishes [of s "ps @ p # as" q bs] assms(1) q(2) by auto
    have "slot_free the_reconciler (sy_passes s')" using assms behind q(2) s'(2) by (simp add: slot_free_def)
    then show ?thesis using s' by blast
  qed
qed

lemma waiting_pass_starts:
  assumes "p \<in> set (sy_passes s)" "ps_point p = Waiting" "length (holding (sy_passes s)) \<le> rc_maxConcurrent the_reconciler"
  shows "\<exists>s'. (sys_step cfg out)\<^sup>*\<^sup>* s s' \<and> p\<lparr>ps_point := Listing\<rparr> \<in> set (sy_passes s')"
proof -
  obtain ps qs where p: "sy_passes s = ps @ p # qs" using assms(1) by (auto dest: split_list)
  obtain s' ps' qs' where s': "(sys_step cfg out)\<^sup>*\<^sup>* s s'" "sy_passes s' = ps' @ p # qs'" "slot_free the_reconciler (sy_passes s')"
    using slot_gets_free [OF p assms(2,3)] by blast
  from s'(1) pass_acquired [OF s'(2) assms(2) s'(3)]
  have "(sys_step cfg out)\<^sup>*\<^sup>* s (s'\<lparr>sy_passes := ps' @ p\<lparr>ps_point := Listing\<rparr> # qs'\<rparr>)" by (rule rtranclp.rtrancl_into_rtrancl)
  then show ?thesis by (intro exI [of _ "s'\<lparr>sy_passes := ps' @ p\<lparr>ps_point := Listing\<rparr> # qs'\<rparr>"]) simp
qed

section \<open>Progress of the streams\<close>

text \<open>One turn of the manager's loop gives every user with an event trigger a live consumer.\<close>

lemma manager_turn:
  assumes "sys_reach cfg out s" "range_ok (ou_platform out)" "ManagerLoop \<in> set (sy_loops s)" "\<not> mg_root (sy_mgr s)"
    "mg_contexts (sy_mgr s) < 2 ^ 64" "no_faults (sy_db s)" "e \<in> set (db_triggers (sy_db s))" "ti_TriggerType e = ''event''"
  obtains m w g where "sys_step cfg out s (s\<lparr>sy_mgr := m, sy_world := w\<rparr>)" "g \<in> set (mg_running m)"
    "\<not> ctx_done m (go_ctx g)" "go_user g = ti_UserID e"
proof -
  obtain db m w where r: "manager_reconcile (ou_platform out) (sy_db s) (sy_mgr s) (sy_world s) = (db, m, w)" by (metis prod_cases3)
  obtain es where l: "ListEventTriggers (sy_db s) = (Inr es, sy_db s)" "e \<in> set es"
    using assms(6-8) by (simp add: ListEventTriggers_def listTriggers_def db_simps sql_select_def)
  have live: "go_user ` {g \<in> set (mg_running m). go_ctx g \<notin> set (mg_cancelled m)} = ti_UserID ` set es"
    using reconcile_converges_live(1) [OF sys_reach_manager [OF assms(1,2)] assms(5,4) l(1) assms(2) r] .
  then have "ti_UserID e \<in> go_user ` {g \<in> set (mg_running m). go_ctx g \<notin> set (mg_cancelled m)}" using l(2) by blast
  then obtain g where g: "g \<in> set (mg_running m)" "go_ctx g \<notin> set (mg_cancelled m)" "go_user g = ti_UserID e" by auto
  have m: "db = sy_db s" "\<not> mg_root m"
    using r l(1) assms(4) by (auto simp: manager_reconcile_def reconcile_wanted_def fold_start_missing Let_def split: prod.splits)
  have step: "sys_step cfg out s (s\<lparr>sy_db := sy_db s, sy_mgr := m, sy_world := w\<rparr>)"
    by (rule manager_selects [of s TickerC]) (use assms(3) r m in simp_all)
  show ?thesis by (rule that [OF _ g(1) _ g(3)]) (use step g(2) m(2) in \<open>simp_all add: ctx_done_def\<close>)
qed

section \<open>After the end\<close>

text \<open>All functions of \<^verbatim>\<open>RunServer\<close> have returned.\<close>

definition stopped :: "'w System \<Rightarrow> bool" where
  "stopped s = (sy_loops s = [] \<and> mgr_idle (sy_mgr s) \<and> sy_renewal s = Sleeping)"

definition same_rows :: "DB \<Rightarrow> DB \<Rightarrow> bool" where
  "same_rows d d' = (db_automations d' = db_automations d \<and> db_triggers d' = db_triggers d)"

lemma same_rows_queries:
  "GetAutomation g u d = (r1, d') \<Longrightarrow> same_rows d d'"
  "ListEventTriggers d = (r2, d') \<Longrightarrow> same_rows d d'"
  "GetEventCursor u i d = (r3, d') \<Longrightarrow> same_rows d d'"
  by (simp_all add: same_rows_def GetAutomation_def ListEventTriggers_def listTriggers_def GetEventCursor_def db_query_frame)

lemma same_rows_cursor [simp]: "same_rows d (snd (UpsertEventCursor c d))"
  by (cases rule: db_stmt_cases [of d]) (simp_all add: same_rows_def UpsertEventCursor_def db_exec_def)

lemma same_rows_refl [simp]: "same_rows d d"
  by (simp add: same_rows_def)

lemma pass_step_rows:
  assumes "pass_step en cfg u auth p db w = (q, db', w')"
  shows "same_rows db db'"
proof (cases "(en, cfg, u, auth, p, db, w)" rule: pass_step.cases)
  case (2 en cfg u auth db w)
  then show ?thesis using assms by (auto split: sum.splits prod.splits dest: same_rows_queries)
next
  case (5 en cfg u auth es d ds db w)
  then show ?thesis using assms
    by (auto simp: visit_drive_def Let_def split: sum.splits prod.splits if_splits dest: same_rows_queries)
qed (use assms in \<open>auto simp: ask_activities_def Let_def split: sum.splits prod.splits if_splits\<close>)

text \<open>
  The catch-up work that is under way: the passes that consumers asked for and the admitted ones, each by its context, user and
  header. Admitting a request turns it into a pass or drops it; no step but a connected stream adds to it.
\<close>

definition requested :: "nat \<times> spawned \<Rightarrow> (nat \<times> string \<times> string) multiset" where
  "requested x = (case x of (c, SpawnReconcile u auth) \<Rightarrow> {#(c, u, auth)#} | (c, SpawnRun auth i p) \<Rightarrow> {#})"

definition catch_up :: "'w System \<Rightarrow> (nat \<times> string \<times> string) multiset" where
  "catch_up s = sum_list (List.map requested (sy_spawned s)) + mset (List.map (\<lambda>p. (ps_ctx p, ps_user p, ps_auth p)) (sy_passes s))"

lemma catch_up_spawned: "x \<in> set xs \<Longrightarrow> sum_list (List.map requested xs) = requested x + sum_list (List.map requested (remove1 x xs))"
  by (simp add: sum_list_map_remove1)

text \<open>\<open>no_more_work s s'\<close>: what is still to be run, spawned or caught up in \<open>s'\<close> was so in \<open>s\<close>, and as often.\<close>

definition no_more_work :: "'w System \<Rightarrow> 'w System \<Rightarrow> bool" where
  "no_more_work s s' = (mset (sy_scheduled s') \<subseteq># mset (sy_scheduled s) \<and> mset (sy_spawned s') \<subseteq># mset (sy_spawned s)
     \<and> catch_up s' \<subseteq># catch_up s)"

lemma no_more_work_refl [simp]: "no_more_work s s"
  by (simp add: no_more_work_def)

lemma no_more_work_trans: "no_more_work s s1 \<Longrightarrow> no_more_work s1 s2 \<Longrightarrow> no_more_work s s2"
  unfolding no_more_work_def by (meson subset_mset.order_trans)

lemma no_more_work_same:
  "sy_scheduled s' = sy_scheduled s \<Longrightarrow> sy_spawned s' = sy_spawned s \<Longrightarrow> sy_passes s' = sy_passes s \<Longrightarrow> no_more_work s s'"
  by (simp add: no_more_work_def catch_up_def)

lemma stopped_step:
  assumes "sys_step cfg out s s'" "stopped s"
  shows "stopped s' \<and> same_rows (sy_db s) (sy_db s') \<and> no_more_work s s'"
  using assms(1)
proof (cases rule: sys_step.cases)
  case (scheduled_run e db w)
  then have "same_rows (sy_db s) db"
    by (auto simp: runOne_def split: prod.splits sum.splits dest: same_rows_queries)
  then show ?thesis using scheduled_run(1) assms(2) by (simp add: stopped_def no_more_work_def catch_up_def)
next
  case (consumer_stream g auth err connected runs db w)
  then show ?thesis using assms(2) by (simp add: stopped_def mgr_idle_def ctx_done_def)
next
  case (consumer_connected g auth body ended w)
  then show ?thesis using assms(2) by (simp add: stopped_def mgr_idle_def ctx_done_def)
next
  case (consumer_event g auth evt data runs db w)
  then show ?thesis using assms(2) by (simp add: stopped_def mgr_idle_def ctx_done_def)
next
  case (event_run c auth i p w)
  then show ?thesis using assms(2) catch_up_spawned [OF event_run(2)]
    by (simp add: stopped_def no_more_work_def catch_up_def requested_def)
next
  case (pass_requested c u auth go lp w)
  then show ?thesis using assms(2) catch_up_spawned [OF pass_requested(2)]
    by (simp add: stopped_def no_more_work_def catch_up_def requested_def)
next
  case (pass_moves ps p qs q db w)
  then show ?thesis using assms(2) by (auto simp: stopped_def no_more_work_def catch_up_def dest: pass_step_rows)
qed (use assms(2) in \<open>auto simp: stopped_def no_more_work_def catch_up_def dest: same_rows_queries\<close>)

lemma stopped_steps:
  "(sys_step cfg out)\<^sup>*\<^sup>* s s' \<Longrightarrow> stopped s \<Longrightarrow> stopped s' \<and> same_rows (sy_db s) (sy_db s') \<and> no_more_work s s'"
proof (induction rule: rtranclp_induct)
  case (step s1 s2)
  then show ?case using stopped_step [OF step(2)] no_more_work_trans by (auto simp: same_rows_def)
qed simp

text \<open>Once the context of the group is done, every function can return.\<close>

lemma renewal_finishes:
  "\<exists>s'. (sys_step cfg out)\<^sup>*\<^sup>* s s' \<and> sy_renewal s' = Sleeping \<and> sy_loops s' = sy_loops s \<and> sy_mgr s' = sy_mgr s"
proof (induction "renewal_rank (sy_renewal s)" arbitrary: s rule: less_induct)
  case less
  show ?case
  proof (cases "sy_renewal s = Sleeping")
    case False
    obtain p db w where r: "renew_step (the_service cfg out) (sy_renewal s) (sy_db s) (sy_world s) = (p, db, w)"
      by (metis prod_cases3)
    let ?s1 = "s\<lparr>sy_renewal := p, sy_db := db, sy_world := w\<rparr>"
    have "renewal_rank p < renewal_rank (sy_renewal s)" by (rule renew_step_rankI [OF False r [symmetric]])
    then obtain s' where "(sys_step cfg out)\<^sup>*\<^sup>* ?s1 s'" "sy_renewal s' = Sleeping" "sy_loops s' = sy_loops s" "sy_mgr s' = sy_mgr s"
      using less [of ?s1] by auto
    moreover have "sys_step cfg out s ?s1" by (rule renewal_moves [OF False r])
    ultimately show ?thesis by (meson converse_rtranclp_into_rtranclp)
  qed auto
qed

lemma loops_return:
  "mg_root (sy_mgr s) \<Longrightarrow> sy_renewal s = Sleeping \<Longrightarrow>
   \<exists>s'. (sys_step cfg out)\<^sup>*\<^sup>* s s' \<and> sy_loops s' = [] \<and> mg_running (sy_mgr s') = mg_running (sy_mgr s)"
proof (induction "length (sy_loops s)" arbitrary: s)
  case 0
  then show ?case by auto
next
  case (Suc n)
  then obtain l ls where l: "sy_loops s = l # ls" by (cases "sy_loops s") auto
  define s1 where "s1 = (if l = ManagerLoop then s\<lparr>sy_loops := ls, sy_mgr := stopAll (sy_mgr s)\<rparr> else s\<lparr>sy_loops := ls\<rparr>)"
  have "sys_step cfg out s s1"
    using loop_returned [of l s cfg out] manager_returned [of s out "sy_db s" "stopAll (sy_mgr s)" "sy_world s" cfg] l Suc.prems
    by (cases "l = ManagerLoop") (auto simp: s1_def)
  moreover have s1: "mg_root (sy_mgr s1)" "sy_renewal s1 = Sleeping" "n = length (sy_loops s1)" "mg_running (sy_mgr s1) = mg_running (sy_mgr s)"
    using Suc.prems Suc.hyps(2) l by (simp_all add: s1_def stopAll_def)
  ultimately show ?case using Suc.hyps(1) [OF s1(3,1,2)] by (metis converse_rtranclp_into_rtranclp)
qed

lemma shutdown_completes:
  assumes "mg_root (sy_mgr s)"
  shows "\<exists>s'. (sys_step cfg out)\<^sup>*\<^sup>* s s' \<and> sy_loops s' = [] \<and> mg_running (sy_mgr s') = mg_running (sy_mgr s)"
proof -
  obtain s1 where s1: "(sys_step cfg out)\<^sup>*\<^sup>* s s1" "sy_renewal s1 = Sleeping" "sy_mgr s1 = sy_mgr s"
    using renewal_finishes by metis
  moreover obtain s2 where "(sys_step cfg out)\<^sup>*\<^sup>* s1 s2" "sy_loops s2 = []" "mg_running (sy_mgr s2) = mg_running (sy_mgr s1)"
    using loops_return [of s1 cfg out] assms s1 by auto
  ultimately show ?thesis by (metis rtranclp_trans)
qed

end
