(* ===== verification/WorkflowsApi.thy ===== *)
theory WorkflowsApi
  imports WorkflowsHandler WebdavExample
begin

text \<open>
  The workflow handlers on top of a WebDAV server that keeps to the protocol: what a client that
  creates, changes, deletes or runs a workflow sees in its next requests.
\<close>

section \<open>The surroundings of a handler\<close>

text \<open>
  Reading the clock, drawing a UUID and asking who the caller with header \<open>a\<close> is leave the stored files alone. Nothing is said
  of what they answer.
\<close>

definition quiet :: "'w WorkflowsHandler \<Rightarrow> string \<Rightarrow> ('w \<Rightarrow> dav_tree) \<Rightarrow> bool" where
  "quiet h a tree = ((\<forall>w. tree (snd (pf_Now (wh_platform h) w)) = tree w)
     \<and> (\<forall>w. tree (snd (pf_NewUUID (wh_platform h) w)) = tree w)
     \<and> (\<forall>w. tree (snd (wh_Me h a w)) = tree w))"

lemma sync_quiet:
  assumes "quiet h a tree"
  shows "tree (snd (syncTriggerIndex h a flow st w)) = tree w"
proof -
  have "tree (snd (wh_Me h a w)) = tree w" using assms unfolding quiet_def by blast
  then show ?thesis
    by (cases st) (auto simp: syncTriggerIndex_def split: prod.split sum.split)
qed

lemma token_context: "token \<noteq> [] \<Longrightarrow> with_token c f (Some token) r st w = f token r st w"
  by (simp add: with_token_def TokenFromContext_def)

text \<open>A workflow the store can keep: its id, its file, and JSON that reads back.\<close>

definition storable :: "'w Store \<Rightarrow> string \<Rightarrow> dav_tree \<Rightarrow> WorkflowDefinition \<Rightarrow> bool" where
  "storable s u t flow = (plain_id (wd_ID flow) \<and> t (definitionPath s u (wd_ID flow)) \<noteq> Some Collection
     \<and> reads_back s (enc_workflow flow) \<and> graph_simple (wd_Graph flow))"

lemma get_stored:
  assumes "dav_server (wh_store h) (Bearer token) u tree" "token \<noteq> []"
    "tree w (definitionPath (wh_store h) u (wd_ID flow)) = Some (File (flow_text (wh_store h) flow))"
    "plain_id (wd_ID flow)" "reads_back (wh_store h) (enc_workflow flow)" "graph_simple (wd_Graph flow)"
    "vget (rr_Params r) ''id'' = wd_ID flow"
  shows "\<exists>w1. Handler_Get h (Some token) r st w = (writeJSON (wh_codec h) 200 (enc_workflow flow), st, w1) \<and> tree w1 = tree w"
  by (rule Store_Get_tree [OF assms(1,4), of w])
    (use assms in \<open>auto simp: Handler_Get_def token_context decode_flow_text\<close>)

lemma get_missing:
  assumes "dav_server (wh_store h) (Bearer token) u tree" "token \<noteq> []" "plain_id (vget (rr_Params r) ''id'')"
    "tree w (definitionPath (wh_store h) u (vget (rr_Params r) ''id'')) = None"
  shows "\<exists>w1. Handler_Get h (Some token) r st w =
    (writeError (wh_codec h) 404 ''workflowNotFound'' ''the requested workflow was not found'', st, w1) \<and> tree w1 = tree w"
  by (rule Store_Get_tree [OF assms(1,3), of w])
    (use assms in \<open>auto simp: Handler_Get_def token_context store_error_def\<close>)

text \<open>Storing through a handler.\<close>

lemma put_and_sync:
  assumes "dav_server (wh_store h) (Bearer token) u tree" "quiet h (Bearer token) tree" "space_ok (wh_store h) u (tree w)"
    "storable (wh_store h) u (tree w) flow"
  obtains w1 st1 w2 where "Store_Put (wh_store h) (Bearer token) flow w = (Inr (), w1)"
    "syncTriggerIndex h (Bearer token) flow st w1 = (st1, w2)"
    "tree w2 = (with_folders (wh_store h) u (tree w))
       (definitionPath (wh_store h) u (wd_ID flow) \<mapsto> File (flow_text (wh_store h) flow))"
proof -
  obtain w1 where w1: "Store_Put (wh_store h) (Bearer token) flow w = (Inr (), w1)"
    "tree w1 = (with_folders (wh_store h) u (tree w))
       (definitionPath (wh_store h) u (wd_ID flow) \<mapsto> File (flow_text (wh_store h) flow))"
    by (rule Store_Put_tree [OF assms(1,3)]) (use assms(4) in \<open>auto simp: storable_def\<close>)
  obtain st1 w2 where s: "syncTriggerIndex h (Bearer token) flow st w1 = (st1, w2)" by fastforce
  have "tree w2 = tree w1" using sync_quiet [OF assms(2), of flow st w1] s by simp
  then show thesis using that w1 s by simp
qed

section \<open>Create, change, delete\<close>

text \<open>
  C17. A created workflow is there: a POST with a name, on a server that keeps to the protocol for the caller's header and
  from a space without the folders on, answers 201 with the new workflow (the fields of the request,
  disabled and manual unless the request says otherwise), and a GET of its id answers 200 with the
  same document.
\<close>

theorem create_then_get:
  assumes "dav_server (wh_store h) (Bearer token) u tree" "quiet h (Bearer token) tree" "token \<noteq> []"
    "check_err (DecodeRequest (wh_codec h) r) (dec_patch zero_patch) = Inr p" "wp_Name p = Some name" "name \<noteq> []"
    "pf_Now (wh_platform h) w = (now, w1)" "pf_NewUUID (wh_platform h) w1 = (i, w2)"
    "space_ok (wh_store h) u (tree w)"
    "storable (wh_store h) u (tree w) (new_workflow i name (format_rfc3339_nano now) p)"
    "vget (rr_Params r') ''id'' = i"
  shows "\<exists>st' w' w''. Handler_Create h (Some token) r st w =
      (writeJSON (wh_codec h) 201 (enc_workflow (new_workflow i name (format_rfc3339_nano now) p)), st', w')
    \<and> Handler_Get h (Some token) r' st' w' =
      (writeJSON (wh_codec h) 200 (enc_workflow (new_workflow i name (format_rfc3339_nano now) p)), st', w'')"
proof -
  let ?flow = "new_workflow i name (format_rfc3339_nano now) p"
  have t: "tree w2 = tree w" using assms(2,7,8) unfolding quiet_def by (metis snd_conv)
  have i: "wd_ID ?flow = i" by (simp add: new_workflow_def)
  obtain w3 st1 w4 where p: "Store_Put (wh_store h) (Bearer token) ?flow w2 = (Inr (), w3)"
    "syncTriggerIndex h (Bearer token) ?flow st w3 = (st1, w4)"
    "tree w4 = (with_folders (wh_store h) u (tree w2))
       (definitionPath (wh_store h) u i \<mapsto> File (flow_text (wh_store h) ?flow))"
    using put_and_sync [OF assms(1,2), of w2 ?flow st] assms(9,10) unfolding t i by metis
  have c: "Handler_Create h (Some token) r st w = (writeJSON (wh_codec h) 201 (enc_workflow ?flow), st1, w4)"
    using assms(3-8) p(1,2) by (simp add: Handler_Create_def token_context)
  obtain w5 where "Handler_Get h (Some token) r' st1 w4 = (writeJSON (wh_codec h) 200 (enc_workflow ?flow), st1, w5)"
    using get_stored [OF assms(1,3), of w4 ?flow r' st1] p(3) assms(10,11) i by (auto simp: storable_def)
  then show ?thesis using c by blast
qed

lemma patch_stores:
  assumes "dav_server (wh_store h) (Bearer token) u tree" "quiet h (Bearer token) tree" "token \<noteq> []"
    "check_err (DecodeRequest (wh_codec h) r) (dec_patch zero_patch) = Inr p" "vget (rr_Params r) ''id'' = wd_ID flow"
    "tree w (definitionPath (wh_store h) u (wd_ID flow)) = Some (File (flow_text (wh_store h) flow))"
    "space_ok (wh_store h) u (tree w)" "storable (wh_store h) u (tree w) flow"
    "fst (pf_Now (wh_platform h) (snd (Store_Get (wh_store h) (Bearer token) (wd_ID flow) w))) = now"
    "flow' = (apply_patch p flow)\<lparr>wd_LastModifiedDateTime := format_rfc3339_nano now\<rparr>"
    "storable (wh_store h) u (tree w) flow'"
  obtains st1 w4 where "Handler_Patch h (Some token) r st w = (writeJSON (wh_codec h) 200 (enc_workflow flow'), st1, w4)"
    "tree w4 = (with_folders (wh_store h) u (tree w))
       (definitionPath (wh_store h) u (wd_ID flow) \<mapsto> File (flow_text (wh_store h) flow'))"
proof -
  have i: "wd_ID flow' = wd_ID flow" by (simp add: assms(10) apply_patch_def Let_def split: option.split)
  obtain w1 where w1: "Store_Get (wh_store h) (Bearer token) (wd_ID flow) w = (Inr flow, w1)" "tree w1 = tree w"
    by (rule Store_Get_tree [OF assms(1), of "wd_ID flow" w])
      (use assms(6,8) in \<open>auto simp: storable_def decode_flow_text\<close>)
  obtain w2 where w2: "pf_Now (wh_platform h) w1 = (now, w2)" "tree w2 = tree w"
    using assms(2,9) w1 unfolding quiet_def by (metis prod.collapse snd_conv)
  obtain w3 st1 w4 where p: "Store_Put (wh_store h) (Bearer token) flow' w2 = (Inr (), w3)"
    "syncTriggerIndex h (Bearer token) flow' st w3 = (st1, w4)"
    "tree w4 = (with_folders (wh_store h) u (tree w2))
       (definitionPath (wh_store h) u (wd_ID flow) \<mapsto> File (flow_text (wh_store h) flow'))"
    using put_and_sync [OF assms(1,2), of w2 flow' st] assms(7,11) unfolding w2(2) i by metis
  have "Handler_Patch h (Some token) r st w = (writeJSON (wh_codec h) 200 (enc_workflow flow'), st1, w4)"
    using assms(3-5) w1(1) w2(1) p(1,2) by (simp add: Handler_Patch_def token_context assms(10))
  then show thesis using that p(3) w2(2) by simp
qed

text \<open>
  C18. A change changes what it says: on such a server a PATCH of a stored workflow answers 200 with
  the stored workflow in which exactly the given fields are replaced and the modification time is what the clock answers
  after the stored workflow was read, and a GET then answers with that document.
\<close>

theorem patch_then_get:
  assumes "dav_server (wh_store h) (Bearer token) u tree" "quiet h (Bearer token) tree" "token \<noteq> []"
    "check_err (DecodeRequest (wh_codec h) r) (dec_patch zero_patch) = Inr p" "vget (rr_Params r) ''id'' = wd_ID flow"
    "tree w (definitionPath (wh_store h) u (wd_ID flow)) = Some (File (flow_text (wh_store h) flow))"
    "space_ok (wh_store h) u (tree w)" "storable (wh_store h) u (tree w) flow"
    "fst (pf_Now (wh_platform h) (snd (Store_Get (wh_store h) (Bearer token) (wd_ID flow) w))) = now"
    "storable (wh_store h) u (tree w) ((apply_patch p flow)\<lparr>wd_LastModifiedDateTime := format_rfc3339_nano now\<rparr>)"
  shows "\<exists>flow' st' w' w''. flow' = \<lparr>wd_ID = wd_ID flow,
      wd_Name = (case wp_Name p of Some n \<Rightarrow> n | None \<Rightarrow> wd_Name flow),
      wd_Description = (case wp_Description p of Some d \<Rightarrow> d | None \<Rightarrow> wd_Description flow),
      wd_Enabled = (case wp_Enabled p of Some e \<Rightarrow> e | None \<Rightarrow> wd_Enabled flow),
      wd_Trigger = (case wp_Trigger p of Some t \<Rightarrow> t | None \<Rightarrow> wd_Trigger flow),
      wd_Graph = (case wp_Graph p of Some g \<Rightarrow> g | None \<Rightarrow> wd_Graph flow),
      wd_CreatedDateTime = wd_CreatedDateTime flow, wd_LastModifiedDateTime = format_rfc3339_nano now\<rparr>
    \<and> Handler_Patch h (Some token) r st w = (writeJSON (wh_codec h) 200 (enc_workflow flow'), st', w')
    \<and> Handler_Get h (Some token) r st' w' = (writeJSON (wh_codec h) 200 (enc_workflow flow'), st', w'')"
proof -
  let ?flow = "(apply_patch p flow)\<lparr>wd_LastModifiedDateTime := format_rfc3339_nano now\<rparr>"
  have e: "?flow = \<lparr>wd_ID = wd_ID flow,
      wd_Name = (case wp_Name p of Some n \<Rightarrow> n | None \<Rightarrow> wd_Name flow),
      wd_Description = (case wp_Description p of Some d \<Rightarrow> d | None \<Rightarrow> wd_Description flow),
      wd_Enabled = (case wp_Enabled p of Some e \<Rightarrow> e | None \<Rightarrow> wd_Enabled flow),
      wd_Trigger = (case wp_Trigger p of Some t \<Rightarrow> t | None \<Rightarrow> wd_Trigger flow),
      wd_Graph = (case wp_Graph p of Some g \<Rightarrow> g | None \<Rightarrow> wd_Graph flow),
      wd_CreatedDateTime = wd_CreatedDateTime flow, wd_LastModifiedDateTime = format_rfc3339_nano now\<rparr>"
    by (simp add: apply_patch_def Let_def split: option.split)
  then have i: "wd_ID ?flow = wd_ID flow" by simp
  obtain st1 w4 where c: "Handler_Patch h (Some token) r st w = (writeJSON (wh_codec h) 200 (enc_workflow ?flow), st1, w4)"
    "tree w4 = (with_folders (wh_store h) u (tree w))
       (definitionPath (wh_store h) u (wd_ID flow) \<mapsto> File (flow_text (wh_store h) ?flow))"
    by (rule patch_stores [OF assms(1-9) refl assms(10)])
  obtain w5 where "Handler_Get h (Some token) r st1 w4 = (writeJSON (wh_codec h) 200 (enc_workflow ?flow), st1, w5)"
    using get_stored [OF assms(1,3), of w4 ?flow r st1] c(2) assms(5,10) i by (auto simp: storable_def)
  then show ?thesis using c(1) e by metis
qed

lemma delete_stored:
  assumes "dav_server (wh_store h) (Bearer token) u tree" "token \<noteq> []" "plain_id (vget (rr_Params r) ''id'')"
    "tree w (definitionPath (wh_store h) u (vget (rr_Params r) ''id'')) = Some (File data)" "no_faults db"
  obtains w1 where "Handler_Delete h (Some token) r (db, m) w =
      (writeHeader 204 [], (db\<lparr>db_triggers := trigger_index_delete (vget (rr_Params r) ''id'') (db_triggers db)\<rparr>, m), w1)"
    "tree w1 = (tree w)(definitionPath (wh_store h) u (vget (rr_Params r) ''id'') := None)"
proof -
  let ?i = "vget (rr_Params r) ''id''" let ?url = "definitionPath (wh_store h) u ?i"
  obtain w1 where w1: "Store_Delete (wh_store h) (Bearer token) ?i w = (Inr (), w1)" "tree w1 = (tree w)(?url := None)"
    by (rule Store_Delete_tree [OF assms(1,3), of w]) (use assms(4) in auto)
  show ?thesis
    by (rule that) (use assms(2) w1 in \<open>simp_all add: Handler_Delete_def token_context DeleteTriggerIndexEntry_def no_faults_exec [OF assms(5)]\<close>)
qed

text \<open>
  C25. A deleted workflow is gone: a DELETE of a stored workflow answers 204 and removes its entry from
  the trigger index and no other, a GET then answers 404, and so does a second DELETE.
\<close>

theorem delete_then_gone:
  assumes "dav_server (wh_store h) (Bearer token) u tree" "token \<noteq> []" "plain_id (vget (rr_Params r) ''id'')"
    "tree w (definitionPath (wh_store h) u (vget (rr_Params r) ''id'')) = Some (File data)" "no_faults db" "db_ok db"
  shows "\<exists>db' w' w''. Handler_Delete h (Some token) r (db, m) w = (writeHeader 204 [], (db', m), w')
    \<and> trigger_index_row (db_triggers db') = (trigger_index_row (db_triggers db))(vget (rr_Params r) ''id'' := None)
    \<and> db' = db\<lparr>db_triggers := db_triggers db'\<rparr>
    \<and> rp_Status (fst (Handler_Get h (Some token) r (db', m) w')) = 404
    \<and> Handler_Delete h (Some token) r (db', m) w' =
        (writeError (wh_codec h) 404 ''workflowNotFound'' ''the requested workflow was not found'', (db', m), w'')"
proof -
  let ?i = "vget (rr_Params r) ''id''" let ?url = "definitionPath (wh_store h) u ?i"
  let ?db = "db\<lparr>db_triggers := trigger_index_delete ?i (db_triggers db)\<rparr>"
  obtain w1 where d: "Handler_Delete h (Some token) r (db, m) w = (writeHeader 204 [], (?db, m), w1)"
    and w1: "tree w1 = (tree w)(?url := None)" by (rule delete_stored [OF assms(1-5)])
  have row: "trigger_index_row (db_triggers ?db) = (trigger_index_row (db_triggers db))(?i := None)"
    using assms(6) by (simp add: db_ok_def trigger_index.row_remove)
  have none: "tree w1 ?url = None" by (simp add: w1)
  obtain w2 where "Store_Delete (wh_store h) (Bearer token) ?i w1 = (Inl StoreNotFound, w2)"
    by (rule Store_Delete_tree [OF assms(1,3), of w1]) (use none in auto)
  then have "Handler_Delete h (Some token) r (?db, m) w1 =
      (writeError (wh_codec h) 404 ''workflowNotFound'' ''the requested workflow was not found'', (?db, m), w2)"
    using assms(2) by (simp add: Handler_Delete_def token_context store_error_def)
  moreover have "rp_Status (fst (Handler_Get h (Some token) r (?db, m) w1)) = 404"
    using get_missing [OF assms(1-3) none, of "(?db, m)"] by auto
  ultimately show ?thesis using d row by (intro exI [of _ ?db] exI [of _ w1] exI [of _ w2]) simp
qed

text \<open>
  The handlers are not atomic towards each other: a PATCH stores the workflow and then updates the trigger
  index. When a DELETE of the same workflow comes in between, the workflow is gone but its entry is put back
  into the index, where the scheduler and the event paths find it from then on, and a second DELETE answers 404
  before it gets to the index.
\<close>

lemma deleted_between_put_and_sync:
  assumes "dav_server (wh_store h) (Bearer token) u tree" "quiet h (Bearer token) tree" "\<forall>w. fst (wh_Me h (Bearer token) w) = Inr u" "token \<noteq> []" "plain_id (wd_ID flow)"
    "vget (rr_Params r) ''id'' = wd_ID flow" "indexed flow"
    "tree w (definitionPath (wh_store h) u (wd_ID flow)) = Some (File data)" "no_faults db" "db_ok db"
  shows "\<exists>db1 w1 db2 m2 w2 w3. Handler_Delete h (Some token) r (db, m) w = (writeHeader 204 [], (db1, m), w1)
    \<and> syncTriggerIndex h (Bearer token) flow (db1, m) w1 = ((db2, m2), w2)
    \<and> trigger_index_row (db_triggers db2) (wd_ID flow) = Some (trigger_entry u flow)
    \<and> Handler_Delete h (Some token) r (db2, m2) w2 =
        (writeError (wh_codec h) 404 ''workflowNotFound'' ''the requested workflow was not found'', (db2, m2), w3)"
proof -
  let ?url = "definitionPath (wh_store h) u (wd_ID flow)"
  let ?db1 = "db\<lparr>db_triggers := trigger_index_delete (wd_ID flow) (db_triggers db)\<rparr>"
  obtain w1 where d: "Handler_Delete h (Some token) r (db, m) w = (writeHeader 204 [], (?db1, m), w1)" "tree w1 = (tree w)(?url := None)"
    by (rule delete_stored [of h token u tree r w data db m]) (use assms in auto)
  obtain w2 where me: "wh_Me h (Bearer token) w1 = (Inr u, w2)" "tree w2 = tree w1"
    using assms(2,3) unfolding quiet_def by (metis prod.collapse)
  let ?e = "trigger_entry u flow"
  let ?db2 = "?db1\<lparr>db_triggers := trigger_index_upsert ?e (db_triggers ?db1)\<rparr>"
  have nf: "no_faults ?db1" using assms(9) by simp
  have "UpsertTriggerIndexEntry ?e ?db1 = (Inr (), ?db2)"
    unfolding UpsertTriggerIndexEntry_def no_faults_exec [OF nf] ..
  then obtain m2 where sync: "syncTriggerIndex h (Bearer token) flow (?db1, m) w1 = ((?db2, m2), w2)"
    using assms(7) me(1) by (auto simp: syncTriggerIndex_def)
  have "pk_ok ti_WorkflowID (db_triggers ?db1)" using assms(10) by (simp add: db_ok_def trigger_index.keys_ok_remove)
  moreover have "ti_WorkflowID ?e = wd_ID flow" by (simp add: trigger_entry_def Let_def split: option.split)
  ultimately have row: "trigger_index_row (db_triggers ?db2) (wd_ID flow) = Some ?e" by (simp add: trigger_index.row_upsert)
  obtain w3 where "Store_Delete (wh_store h) (Bearer token) (wd_ID flow) w2 = (Inl StoreNotFound, w3)"
    by (rule Store_Delete_tree [OF assms(1,5), of w2]) (use d(2) me(2) in auto)
  then have "Handler_Delete h (Some token) r (?db2, m2) w2 =
      (writeError (wh_codec h) 404 ''workflowNotFound'' ''the requested workflow was not found'', (?db2, m2), w3)"
    using assms(4,6) by (simp add: Handler_Delete_def token_context store_error_def)
  then show ?thesis using d(1) sync row by blast
qed

section \<open>Running\<close>

text \<open>A space and a record such that the record can be stored there.\<close>

definition recordable :: "'w Store \<Rightarrow> string \<Rightarrow> dav_tree \<Rightarrow> ExecutionRecord \<Rightarrow> bool" where
  "recordable s u t x = (space_ok s u t \<and> plain_id (xr_WorkflowID x) \<and> plain_id (xr_ID x)
     \<and> folder_or_free t (executionsDirURL s u (xr_WorkflowID x))
     \<and> t (executionPath s u (xr_WorkflowID x) (xr_ID x)) \<noteq> Some Collection
     \<and> reads_back s (enc_execution x) \<and> execution_simple x)"

text \<open>What the API answers once a record is on the server.\<close>

lemma get_recorded:
  assumes "dav_server (wh_store h) (Bearer token) u tree" "token \<noteq> []" "recordable (wh_store h) u t x"
    "tree w (executionPath (wh_store h) u (xr_WorkflowID x) (xr_ID x)) = Some (File (record_text (wh_store h) x))"
    "vget (rr_Params r) ''id'' = xr_WorkflowID x" "vget (rr_Params r) ''execId'' = xr_ID x"
  shows "fst (Handler_GetExecution h (Some token) r st w) = writeJSON (wh_codec h) 200 (enc_execution x)"
proof -
  obtain w1 where "GetExecution (wh_store h) (Bearer token) (xr_WorkflowID x) (xr_ID x) w = (Inr x, w1)"
    by (rule GetExecution_tree [OF assms(1), of "xr_WorkflowID x" "xr_ID x" w])
      (use assms(3,4) in \<open>auto simp: recordable_def decode_record_text\<close>)
  then show ?thesis using assms(2,5,6) by (simp add: Handler_GetExecution_def token_context)
qed

text \<open>
  C19. A manual run is recorded: a POST to the run of a stored workflow runs the stored definition with the
  caller's token, on the file whose path the body of the request gives, or on no file when the request announces no body. It answers 202 with the location of the record, and a GET of that execution answers 200 with exactly
  the record of this run, whatever the run itself did to the caller's files as long as the record can still be stored.
\<close>

theorem run_then_get_execution:
  assumes "dav_server (wh_store h) (Bearer token) u tree" "token \<noteq> []"
    "(if rr_ContentLength r > 0 then check_err (DecodeRequest (wh_codec h) r) dec_runRequest else Inr []) = Inr p"
    "vget (rr_Params r) ''id'' = wd_ID flow" "storable (wh_store h) u (tree w) flow"
    "tree w (definitionPath (wh_store h) u (wd_ID flow)) = Some (File (flow_text (wh_store h) flow))"
    "\<forall>w1 x w2. tree w1 = tree w \<and> wh_Run h (Bearer token) flow ''manual'' p w1 = (x, w2) \<longrightarrow>
       recordable (wh_store h) u (tree w2) x \<and> xr_WorkflowID x = wd_ID flow"
  shows "\<exists>x w1 w2 w3. wh_Run h (Bearer token) flow ''manual'' p w1 = (x, w2) \<and> tree w1 = tree w
    \<and> Handler_Run h (Some token) r st w =
        (writeHeader 202 [(''Location'', ''/me/workflows/'' @ wd_ID flow @ ''/executions/'' @ xr_ID x)], st, w3)
    \<and> (\<forall>r'. vget (rr_Params r') ''id'' = wd_ID flow \<and> vget (rr_Params r') ''execId'' = xr_ID x \<longrightarrow>
         fst (Handler_GetExecution h (Some token) r' st w3) = writeJSON (wh_codec h) 200 (enc_execution x))"
proof -
  obtain w1 where w1: "Store_Get (wh_store h) (Bearer token) (wd_ID flow) w = (Inr flow, w1)" "tree w1 = tree w"
    by (rule Store_Get_tree [OF assms(1), of "wd_ID flow" w])
      (use assms(5,6) in \<open>auto simp: storable_def decode_flow_text\<close>)
  obtain x w2 where x: "wh_Run h (Bearer token) flow ''manual'' p w1 = (x, w2)" by fastforce
  have ok: "recordable (wh_store h) u (tree w2) x" "xr_WorkflowID x = wd_ID flow" using assms(7) w1(2) x by blast+
  obtain w3 where w3: "PutExecution (wh_store h) (Bearer token) x w2 = (Inr (), w3)"
    "tree w3 = (with_history (wh_store h) u (xr_WorkflowID x) (tree w2))
       (executionPath (wh_store h) u (xr_WorkflowID x) (xr_ID x) \<mapsto> File (record_text (wh_store h) x))"
    by (rule PutExecution_tree [OF assms(1), of w2 x]) (use ok(1) in \<open>auto simp: recordable_def\<close>)
  have "Handler_Run h (Some token) r st w =
      (writeHeader 202 [(''Location'', ''/me/workflows/'' @ wd_ID flow @ ''/executions/'' @ xr_ID x)], st, w3)"
    using assms(2-4) w1(1) x w3(1) by (simp add: Handler_Run_def token_context)
  moreover have "fst (Handler_GetExecution h (Some token) r' st w3) = writeJSON (wh_codec h) 200 (enc_execution x)"
    if "vget (rr_Params r') ''id'' = wd_ID flow" "vget (rr_Params r') ''execId'' = xr_ID x" for r'
    by (rule get_recorded [OF assms(1,2) ok(1)]) (use w3(2) that ok(2) in auto)
  ultimately show ?thesis using x w1(2) by blast
qed

end
