(* ===== verification/EndToEnd.thy ===== *)
theory EndToEnd
  imports SystemInvariants WorkflowsApi
begin

text \<open>
  From a trigger to the answer of the API, across all components: the connection of a stream delivers an
  event, the dispatch finds the workflow in the trigger index, the goroutine it starts loads the definition from
  the user's space, runs it and stores the record, and the REST API serves that record; and the same for a
  schedule and a tick. The steps are those of \<open>sys_step\<close>, on a WebDAV server that keeps to the protocol.
\<close>

section \<open>A background run\<close>

text \<open>
  A stored workflow that can be run in the background: it is enabled, its definition is in the space,
  and whatever a run of it does there, its record can be stored afterwards.
\<close>

definition runnable_flow :: "Config \<Rightarrow> 'w outside \<Rightarrow> string \<Rightarrow> string \<Rightarrow> ('w \<Rightarrow> dav_tree) \<Rightarrow> string \<Rightarrow> string
    \<Rightarrow> WorkflowDefinition \<Rightarrow> dav_tree \<Rightarrow> bool" where
  "runnable_flow cfg out auth u tree triggeredBy path flow t =
     (wd_Enabled flow \<and> storable (the_store cfg out) u t flow
      \<and> t (definitionPath (the_store cfg out) u (wd_ID flow)) = Some (File (flow_text (the_store cfg out) flow))
      \<and> (\<forall>w x w1. tree w = t \<longrightarrow> Run (the_executor cfg out) auth flow triggeredBy path w = (x, w1) \<longrightarrow>
           recordable (the_store cfg out) u (tree w1) x))"

text \<open>The record of a run that started in the given circumstances.\<close>

definition record_of_run :: "Config \<Rightarrow> 'w outside \<Rightarrow> string \<Rightarrow> ('w \<Rightarrow> dav_tree) \<Rightarrow> string \<Rightarrow> string
    \<Rightarrow> WorkflowDefinition \<Rightarrow> dav_tree \<Rightarrow> ExecutionRecord \<Rightarrow> bool" where
  "record_of_run cfg out auth tree triggeredBy path flow t x =
     (xr_WorkflowID x = wd_ID flow \<and> xr_TriggeredBy x = triggeredBy
      \<and> (\<exists>w w1. tree w = t \<and> Run (the_executor cfg out) auth flow triggeredBy path w = (x, w1)))"

text \<open>Every caller who is this user for oCIS gets the record from the API.\<close>

definition record_served :: "Config \<Rightarrow> 'w outside \<Rightarrow> string \<Rightarrow> ('w \<Rightarrow> dav_tree) \<Rightarrow> ExecutionRecord \<Rightarrow> 'w System \<Rightarrow> bool" where
  "record_served cfg out u tree x s =
     (\<forall>token r. token \<noteq> [] \<and> dav_server (the_store cfg out) (Bearer token) u tree
        \<and> vget (rr_Params r) ''id'' = xr_WorkflowID x \<and> vget (rr_Params r) ''execId'' = xr_ID x \<longrightarrow>
      fst (Handler_GetExecution (op_Workflows (the_options cfg out)) (Some token) r (sy_db s, sy_mgr s) (sy_world s))
        = writeJSON (ou_codec out) 200 (enc_execution x))"

lemma Run_names: "Run ex auth flow by path w = (x, w1) \<Longrightarrow> xr_WorkflowID x = wd_ID flow \<and> xr_TriggeredBy x = by"
  by (auto simp: Run_def Let_def split: prod.splits)

lemma background_run:
  assumes "dav_server (the_store cfg out) auth u tree" "runnable_flow cfg out auth u tree by path flow (tree w)"
    "sy_world s' = load_and_run (the_engine cfg out) by auth (wd_ID flow) path w"
  obtains x where "record_of_run cfg out auth tree by path flow (tree w) x" "record_served cfg out u tree x s'"
proof -
  let ?s = "the_store cfg out"
  have flow: "wd_Enabled flow" "storable ?s u (tree w) flow"
    "tree w (definitionPath ?s u (wd_ID flow)) = Some (File (flow_text ?s flow))"
    using assms(2) by (simp_all add: runnable_flow_def)
  obtain w1 where w1: "Store_Get ?s auth (wd_ID flow) w = (Inr flow, w1)" "tree w1 = tree w"
    by (rule Store_Get_tree [OF assms(1), of "wd_ID flow" w])
      (use flow(2,3) in \<open>auto simp: storable_def decode_flow_text\<close>)
  obtain x w2 where x: "Run (the_executor cfg out) auth flow by path w1 = (x, w2)" by fastforce
  have ok: "recordable ?s u (tree w2) x" using assms(2) x w1(2) unfolding runnable_flow_def by blast
  obtain w3 where w3: "PutExecution ?s auth x w2 = (Inr (), w3)"
    "tree w3 = (with_history ?s u (xr_WorkflowID x) (tree w2))
       (executionPath ?s u (xr_WorkflowID x) (xr_ID x) \<mapsto> File (record_text ?s x))"
    by (rule PutExecution_tree [OF assms(1), of w2 x]) (use ok in \<open>auto simp: recordable_def\<close>)
  have "load_and_run (the_engine cfg out) by auth (wd_ID flow) path w = w3"
    using w1(1) x w3(1) flow(1) by (simp add: load_and_run_def the_engine_def)
  then have "tree (sy_world s') (executionPath ?s u (xr_WorkflowID x) (xr_ID x)) = Some (File (record_text ?s x))"
    using assms(3) w3(2) by simp
  moreover have "wh_store (op_Workflows (the_options cfg out)) = ?s" "wh_codec (op_Workflows (the_options cfg out)) = ou_codec out"
    by (simp_all add: the_options_def)
  ultimately have "record_served cfg out u tree x s'"
    unfolding record_served_def using get_recorded [of "op_Workflows (the_options cfg out)" _ u tree "tree w2" x] ok by auto
  moreover have "record_of_run cfg out auth tree by path flow (tree w) x"
    unfolding record_of_run_def using Run_names [OF x] x w1(2) by blast
  ultimately show thesis using that by blast
qed

section \<open>From an event\<close>

text \<open>The calls for the path of an item leave the stored files alone.\<close>

definition item_paths_quiet :: "'w engine \<Rightarrow> ('w \<Rightarrow> dav_tree) \<Rightarrow> bool" where
  "item_paths_quiet en tree = (\<forall>a sp i w. tree (snd (en_ItemPath en a sp i w)) = tree w)"

lemma handleEvent_quiet:
  assumes "item_paths_quiet en tree" "no_faults db"
  shows "\<exists>runs w1. handleEvent en c u a evt data db w = (runs, db, w1) \<and> tree w1 = tree w"
proof -
  have q: "tree (snd (event_path en a pl w)) = tree w" for pl
    using assms(1) unfolding item_paths_quiet_def event_path_def by (auto split: prod.split sum.split) (metis snd_conv)+
  show ?thesis
    using q by (auto simp: handleEvent_def handle_entries_spec ListEventTriggers_def listTriggers_def no_faults_query [OF assms(2)]
        split: option.split sum.split prod.split) (metis snd_conv)+
qed

lemma handleEvent_starts:
  assumes "no_faults db" "e \<in> set (db_triggers db)" "ti_TriggerType e = ''event''" "candidate u t e"
    "map_of eventTypeMap evt = Some t" "decode_payload c data = Inr pl" "\<forall>w. fst (event_path en a pl w) = p"
    "MatchesFilters e p (ep_SpaceID pl)" "\<not> IsInternalPath p"
  shows "(ti_WorkflowID e, p) \<in> set (fst (handleEvent en c u a evt data db w))"
proof -
  let ?es = "sql_select (\<lambda>e. ti_TriggerType e = ''event'') (db_triggers db)"
  have e: "e \<in> set ?es" using assms(2,3) by (simp add: sql_select_def)
  obtain w1 where "event_path en a pl w = (p, w1)" using assms(7) by (metis prod.collapse)
  moreover have "list_ex (candidate u t) ?es" using e assms(4) by (auto simp: list_ex_iff)
  moreover have "(ti_WorkflowID e, p) \<in> set (dispatched u t p (ep_SpaceID pl) ?es)"
    using e assms(4,8,9) by (auto simp: dispatched_def)
  ultimately show ?thesis
    using assms(5,6)
    by (simp add: handleEvent_def handle_entries_spec ListEventTriggers_def listTriggers_def no_faults_query [OF assms(1)])
qed

lemma handle_all_starts:
  assumes "item_paths_quiet en tree" "no_faults db" "\<forall>w. r \<in> set (fst (handleEvent en c u a evt data db w))"
  shows "\<exists>runs w1. handle_all en c u a evs db w = (runs, db, w1) \<and> tree w1 = tree w \<and> ((evt, data) \<in> set evs \<longrightarrow> r \<in> set runs)"
proof (induction evs arbitrary: w)
  case (Cons x evs)
  obtain evt' data' where x: "x = (evt', data')" by fastforce
  obtain runs w1 where h: "handleEvent en c u a evt' data' db w = (runs, db, w1)" "tree w1 = tree w"
    using handleEvent_quiet [OF assms(1,2)] by blast
  obtain runs' w2 where "handle_all en c u a evs db w1 = (runs', db, w2)" "tree w2 = tree w1"
    "(evt, data) \<in> set evs \<longrightarrow> r \<in> set runs'" using Cons by blast
  moreover have "r \<in> set runs" if "(evt, data) = x" using assms(3) h(1) x that by (metis fst_conv Pair_inject)
  ultimately show ?case using h x by (auto)
qed simp

text \<open>The next answer of the stream's endpoint carries the event, among any number of others, as finished blocks.\<close>

definition stream_carries :: "Config \<Rightarrow> 'w outside \<Rightarrow> string \<Rightarrow> ('w \<Rightarrow> dav_tree) \<Rightarrow> string \<Rightarrow> string \<Rightarrow> 'w \<Rightarrow> bool" where
  "stream_carries cfg out auth tree evt data w =
     (\<exists>ls ended w1 bs rest. sse_endpoint cfg out auth w = (Inr (200, render_lines ls, ended), w1) \<and> tree w1 = tree w
        \<and> map fst ls = concat (map block_lines bs) @ rest \<and> list_all line_ok ls \<and> list_all noise_ok bs \<and> [] \<notin> set rest
        \<and> data \<noteq> [] \<and> (\<exists>b \<in> set bs. TrimSpace (bk_event b) = evt \<and> TrimSpace (bk_data b) = data))"

lemma stream_starts:
  assumes "stream_carries cfg out auth tree evt data w" "item_paths_quiet en tree" "no_faults db"
    "\<forall>w. r \<in> set (fst (handleEvent en c u auth evt data db w))"
  shows "\<exists>err runs w1. streamOnce en c (sse_endpoint cfg out) u auth db w = (err, True, runs, db, w1)
    \<and> tree w1 = tree w \<and> r \<in> set runs"
proof -
  obtain ls ended w1 bs rest where s: "sse_endpoint cfg out auth w = (Inr (200, render_lines ls, ended), w1)"
    "tree w1 = tree w" "map fst ls = concat (map block_lines bs) @ rest" "list_all line_ok ls" "list_all noise_ok bs"
    "[] \<notin> set rest" "data \<noteq> []" "\<exists>b \<in> set bs. TrimSpace (bk_event b) = evt \<and> TrimSpace (bk_data b) = data"
    using assms(1) unfolding stream_carries_def by blast
  let ?evs = "[(TrimSpace (bk_event b), TrimSpace (bk_data b)). b \<leftarrow> bs, TrimSpace (bk_data b) \<noteq> []]"
  have "(evt, data) \<in> set ?evs" using s(7,8) by force
  then obtain runs w2 where h: "handle_all en c u auth ?evs db w1 = (runs, db, w2)" "tree w2 = tree w1" "r \<in> set runs"
    using handle_all_starts [OF assms(2-4), of ?evs w1] by blast
  show ?thesis using s(1-6) h by (simp add: streamOnce_def scan_lines_render scan_loop_blocks)
qed

lemma spawned_runs: "(i, p) \<in> set runs \<Longrightarrow> SpawnRun a i p \<in> set (spawn_runs a runs)"
  by (induction a runs rule: spawn_runs.induct) auto

text \<open>
  C3. An event ends as a record that the API serves: when the stream of a user carries an event of a known
  type (among any others), and the trigger index holds an entry of this user for that type whose filters accept the
  event's path, outside the service's own folder, the backend can reach a state, in two steps, in which the
  enabled workflow of that entry was run on exactly that path and the record of this run is what the API
  answers to the user.
\<close>

theorem event_leaves_record:
  assumes "(g, auth) \<in> set (sy_streams s)" "g \<in> set (mg_running (sy_mgr s))" "\<not> ctx_done (sy_mgr s) (go_ctx g)"
    "no_faults (sy_db s)" "e \<in> set (db_triggers (sy_db s))" "ti_TriggerType e = ''event''" "candidate (go_user g) t e"
    "stream_carries cfg out auth tree evt data (sy_world s)" "map_of eventTypeMap evt = Some t"
    "decode_payload (ou_codec out) data = Inr pl" "\<forall>w. fst (event_path (the_engine cfg out) auth pl w) = p"
    "MatchesFilters e p (ep_SpaceID pl)" "\<not> IsInternalPath p" "item_paths_quiet (the_engine cfg out) tree"
    "dav_server (the_store cfg out) auth (go_user g) tree" "wd_ID flow = ti_WorkflowID e"
    "runnable_flow cfg out auth (go_user g) tree ''event'' p flow (tree (sy_world s))"
  shows "\<exists>s1 s2 x. sys_step cfg out s s1 \<and> sys_step cfg out s1 s2
    \<and> record_of_run cfg out auth tree ''event'' p flow (tree (sy_world s)) x
    \<and> record_served cfg out (go_user g) tree x s2"
proof -
  have starts: "\<forall>w. (ti_WorkflowID e, p) \<in> set (fst (handleEvent (the_engine cfg out) (ou_codec out) (go_user g) auth evt data (sy_db s) w))"
    using handleEvent_starts [OF assms(4-7,9-13)] by blast
  obtain err runs w1 where st: "streamOnce (the_engine cfg out) (ou_codec out) (sse_endpoint cfg out) (go_user g) auth (sy_db s) (sy_world s)
      = (err, True, runs, sy_db s, w1)" "tree w1 = tree (sy_world s)" "(ti_WorkflowID e, p) \<in> set runs"
    using stream_starts [OF assms(8,14,4) starts] by blast
  let ?s1 = "s\<lparr>sy_db := sy_db s, sy_world := w1, sy_spawned := map (Pair (go_ctx g))
      ((if True then [SpawnReconcile (go_user g) auth] else []) @ spawn_runs auth runs) @ sy_spawned s\<rparr>"
  have step1: "sys_step cfg out s ?s1" by (rule sys_step.consumer_stream [OF assms(1-3) st(1)])
  let ?w2 = "load_and_run (the_engine cfg out) ''event'' auth (ti_WorkflowID e) p w1"
  let ?s2 = "?s1\<lparr>sy_spawned := remove1 (go_ctx g, SpawnRun auth (ti_WorkflowID e) p) (sy_spawned ?s1), sy_world := ?w2\<rparr>"
  have "(go_ctx g, SpawnRun auth (ti_WorkflowID e) p) \<in> set (sy_spawned ?s1)" using spawned_runs [OF st(3)] by simp
  then have step2: "sys_step cfg out ?s1 ?s2" by (rule sys_step.event_run) (simp add: SSEStream.runWorkflow_def)
  obtain x where "record_of_run cfg out auth tree ''event'' p flow (tree w1) x" "record_served cfg out (go_user g) tree x ?s2"
    by (rule background_run [OF assms(15), where w = w1 and flow = flow and s' = ?s2]) (use assms(16,17) st(2) in auto)
  then show ?thesis using step1 step2 st(2) by metis
qed

section \<open>From a schedule\<close>

text \<open>
  C4. A due schedule ends as a record that the API serves: when the scheduler runs, the tables are well
  formed (as they are in every reachable state), and it knows the last start of a workflow whose valid schedule has an
  occurrence since then that is due, one tick starts the workflow, and its run, with the credential stored for its
  owner, leaves the record that the API answers to the owner.
\<close>

theorem schedule_leaves_record:
  assumes "db_ok (sy_db s)"
    "ScheduleLoop \<in> set (sy_loops s)" "no_faults (sy_db s)" "e \<in> set (db_triggers (sy_db s))" "ti_TriggerType e = ''schedule''"
    "ou_cron out (ti_Schedule e) = Inr nxt" "sy_lastRun s (ti_WorkflowID e) = Some b"
    "pf_Now (ou_platform out) (sy_world s) = (now, w1)" "nxt b \<le> now" "tree w1 = tree (sy_world s)"
    "GetAutomation (ou_gcm out) (ti_UserID e) (sy_db s) = (Inr a, sy_db s)"
    "dav_server (the_store cfg out) (BasicAuth a) (ti_UserID e) tree" "wd_ID flow = ti_WorkflowID e"
    "runnable_flow cfg out (BasicAuth a) (ti_UserID e) tree ''schedule'' [] flow (tree (sy_world s))"
  shows "\<exists>s1 s2 x. sys_step cfg out s s1 \<and> sys_step cfg out s1 s2
    \<and> record_of_run cfg out (BasicAuth a) tree ''schedule'' [] flow (tree (sy_world s)) x
    \<and> record_served cfg out (ti_UserID e) tree x s2"
proof -
  let ?es = "sql_select (\<lambda>e. ti_TriggerType e = ''schedule'') (db_triggers (sy_db s))"
  have es: "distinct (map ti_WorkflowID ?es)" "e \<in> set ?es"
    using assms(1,4,5) by (auto simp: db_ok_def pk_ok_def sql_select_def distinct_map_filter)
  obtain lr started where te: "tick_entries (ou_cron out) now ?es (sy_lastRun s) = (lr, started)" by fastforce
  have "filter (\<lambda>f. ti_WorkflowID f = ti_WorkflowID e) started = [e]"
    using tick_entries_member [where parse = "ou_cron out" and now = now and lr = "sy_lastRun s", OF es assms(6)] te assms(7,9)
    by (simp add: step_one_def)
  then have e: "e \<in> set started" by (auto simp: filter_eq_Cons_iff)
  have "scheduler_Start (the_engine cfg out) (ou_cron out) TickerC (sy_db s) (sy_lastRun s) (sy_world s) = Some (sy_db s, lr, started, w1)"
    using te assms(8) by (simp add: tick_def ListScheduleTriggers_def listTriggers_def no_faults_query [OF assms(3)] the_engine_def)
  from sys_step.scheduler_tick [OF assms(2) this] obtain s1 where
    s1: "sys_step cfg out s s1" "s1 = s\<lparr>sy_db := sy_db s, sy_lastRun := lr, sy_scheduled := started @ sy_scheduled s, sy_world := w1\<rparr>"
    by blast
  let ?w2 = "load_and_run (the_engine cfg out) ''schedule'' (BasicAuth a) (ti_WorkflowID e) [] w1"
  let ?s2 = "s1\<lparr>sy_db := sy_db s, sy_scheduled := remove1 e (sy_scheduled s1), sy_world := ?w2\<rparr>"
  have run: "runOne (the_engine cfg out) e (sy_db s1) (sy_world s1) = (sy_db s, ?w2)"
    using assms(11) by (simp add: runOne_def s1(2) the_engine_def)
  have "e \<in> set (sy_scheduled s1)" using e by (simp add: s1(2))
  then have step2: "sys_step cfg out s1 ?s2" by (rule sys_step.scheduled_run [OF _ run])
  obtain x where "record_of_run cfg out (BasicAuth a) tree ''schedule'' [] flow (tree w1) x"
    "record_served cfg out (ti_UserID e) tree x ?s2"
    by (rule background_run [OF assms(12), where w = w1 and flow = flow and s' = ?s2]) (use assms(10,13,14) in auto)
  then show ?thesis using s1(1) step2 assms(10) by metis
qed

end
