(* ===== verification/SystemExample.thy ===== *)
theory SystemExample
  imports SystemInvariants
begin

text \<open>
  A concrete backend: one user, an oCIS that answers every request with one JSON document in which
  each client finds its field, a routing library that knows three paths, and a clock that stands still. From a fresh
  database the user connects automation through the API and creates a workflow with an event trigger; then the
  SSE manager starts a consumer, which reads the stored credential.
\<close>

definition demo_document :: json where
  "demo_document = JObj [(''id'', JStr ''u1''), (''onPremisesSamAccountName'', JStr ''alice''), (''token'', JStr ''pw''),
     (''userinfo_endpoint'', JStr ''https://idp/userinfo''), (''name'', JStr ''flow''), (''enabled'', JBool True),
     (''trigger'', JObj [(''type'', JStr ''event''), (''event'', JObj [(''type'', JStr ''upload'')])])]"

definition one_document :: codec where
  "one_document = \<lparr>json_Marshal = (\<lambda>j. []), json_Unmarshal = (\<lambda>s. Inr demo_document), json_Decode = (\<lambda>s. Inr demo_document)\<rparr>"

definition yes_http :: "unit http" where
  "yes_http = \<lparr>ht_ParseURL = (\<lambda>url. Inr ()),
     ht_Do = (\<lambda>req w. (Inr \<lparr>rs_Status = (if rq_Method req = ''PUT'' \<or> rq_Method req = ''MKCOL'' then 201 else 200),
        rs_Body = ([], None)\<rparr>, w))\<rparr>"

definition demo_mux :: mux where
  "demo_mux = \<lparr>mx_Cors = (\<lambda>allowed method r. (None, [])), mx_Mount = (\<lambda>prefix path. Some path),
     mx_Route = (\<lambda>table method path. if path = ''connect'' then Inr (9, []) else Inr (1, [])),
     mx_NotFound = \<lparr>rp_Status = 404, rp_Header = [], rp_Body = []\<rparr>\<rparr>"

definition unit_platform :: "unit platform" where
  "unit_platform = \<lparr>pf_Now = (\<lambda>w. (demo_now * second, w)), pf_NewUUID = (\<lambda>w. (''flow-1'', w)),
     pf_Nonce = (\<lambda>w. (Inr (replicate 12 CHR ''n''), w)), pf_CtxDone = (\<lambda>w. False), pf_RangeVars = (\<lambda>m w. (m, w)),
     pf_RangeKeys = (\<lambda>ks w. (ks, w))\<rparr>"

definition demo_outside :: "unit outside" where
  "demo_outside = \<lparr>ou_http = yes_http, ou_llm = yes_http, ou_codec = one_document, ou_xml = (\<lambda>s. Inl (Msg s)),
     ou_Parse = (\<lambda>s. Inr (''https'', s)), ou_sort = id, ou_docs = demo_libs,
     ou_notifier = \<lparr>no_Parse = (\<lambda>t. Inr (''https'', t)), no_Lookup = (\<lambda>h w. (Inr [], w)), no_Add = (\<lambda>t w. (Inr (), w)),
       no_Deliver = (\<lambda>t ti b w. (Inr (), w))\<rparr>,
     ou_platform = unit_platform, ou_gcm = demo_gcm, ou_cron = (\<lambda>s. Inl (Msg s)), ou_mux = demo_mux\<rparr>"

definition demo_cfg :: Config where
  "demo_cfg = \<lparr>cf_HTTPAddr = '':9280'', cf_DebugAddr = '':9281'', cf_OCISURL = ''https://ocis'', cf_OCISInsecure = False,
     cf_AllowedOrigin = ''https://web'', cf_LLMEndpoint = [], cf_LLMAPIKey = [], cf_LLMModel = [], cf_LLMMaxTokens = 4096,
     cf_DBPath = ''db'', cf_EncryptionKey = replicate 32 CHR ''k'', cf_LogLevel = ''info'', cf_encryptionKeyGenerated = False\<rparr>"

definition user_request :: ApiRequest where
  "user_request = \<lparr>rr_Origin = [], rr_Authorization = ''Bearer t'', rr_Params = [], rr_ContentLength = 0, rr_Body = ([], None)\<rparr>"

section \<open>Its requests\<close>

lemma out_sel [simp]: "ou_http demo_outside = yes_http" "ou_codec demo_outside = one_document" "ou_mux demo_outside = demo_mux"
    "ou_platform demo_outside = unit_platform" "ou_gcm demo_outside = demo_gcm"
  by (simp_all add: demo_outside_def)

lemma yes_send [simp]: "send yes_http method url hs body w =
    (Inr \<lparr>rs_Status = (if method = ''PUT'' \<or> method = ''MKCOL'' then 201 else 200), rs_Body = ([], None)\<rparr>, w)"
  by (simp add: send_def NewRequest_def yes_http_def)

lemma one_decode [simp]: "DecodeBody one_document \<lparr>rs_Status = c, rs_Body = b\<rparr> = Inr demo_document"
  by (simp add: DecodeBody_def one_document_def split: prod.split)

lemma demo_net [simp]: "ocis_net demo_outside = \<lparr>nt_http = yes_http, nt_codec = one_document, nt_xml = ou_xml demo_outside\<rparr>"
  by (simp add: ocis_net_def)

lemma demo_calls [simp]:
  "Me \<lparr>nt_http = yes_http, nt_codec = one_document, nt_xml = x\<rparr> b a w = (Inr ''u1'', w)"
  "Username \<lparr>nt_http = yes_http, nt_codec = one_document, nt_xml = x\<rparr> b a w = (Inr ''alice'', w)"
  "MintAppPassword \<lparr>nt_http = yes_http, nt_codec = one_document, nt_xml = x\<rparr> b a d l w = (Inr (''pw'', zero_time), w)"
  by (simp_all add: Me_def Username_def MintAppPassword_def dec_id_def dec_token_def demo_document_def json_fields)

lemma demo_platform_calls [simp]: "pf_Now unit_platform w = (demo_now * second, w)" "pf_NewUUID unit_platform w = (''flow-1'', w)"
    "pf_Nonce unit_platform w = (Inr (replicate 12 CHR ''n''), w)" "pf_RangeKeys unit_platform ks w = (ks, w)"
  by (simp_all add: unit_platform_def)

lemma demo_outside_ok: "range_ok (ou_platform demo_outside)" "gcm_ok (ou_gcm demo_outside)" "nonce_ok (ou_platform demo_outside)"
  by (simp_all add: range_ok_def nonce_ok_def NonceSize_def) (simp add: unit_platform_def)

lemma demo_authenticated:
  "Middleware (op_Validator (the_options demo_cfg demo_outside)) H user_request cached st w =
     (case H (Some ''t'') user_request st w of
        (res, st1, w1) \<Rightarrow> (res, if cached = [] then ''https://idp/userinfo'' else cached, st1, w1))"
  by (simp add: Middleware_def the_options_def NewValidator_def user_request_def OriginAllowed_def bearerToken_def
      HasPrefix_def TrimPrefix_def Validate_def discover_def demo_document_def json_fields split: prod.split)

section \<open>A run of it\<close>

definition fresh_db :: DB where
  "fresh_db = \<lparr>db_box = \<lparr>box_key = replicate 32 CHR ''k''\<rparr>, db_automations = [], db_triggers = [], db_cursors = [], db_faults = []\<rparr>"

definition fresh_credential :: Automation where
  "fresh_credential = \<lparr>am_UserID = ''u1'', am_Username = ''alice'', am_AppPassword = ''pw'', am_ExpiresAt = zero_time,
     am_ConnectedAt = demo_now * second\<rparr>"

definition connected_db :: DB where
  "connected_db = cred_put demo_gcm (replicate 12 CHR ''n'') fresh_credential fresh_db"

definition fresh_workflow :: WorkflowDefinition where
  "fresh_workflow = new_workflow ''flow-1'' ''flow'' (format_rfc3339_nano (demo_now * second))
     (zero_patch\<lparr>wp_Name := Some ''flow'', wp_Enabled := Some True,
        wp_Trigger := Some \<lparr>wt_Type = ''event'', wt_Schedule = [], wt_Event = Some \<lparr>et_Type = ''upload'', et_Filters = None\<rparr>\<rparr>\<rparr>)"

definition indexed_db :: DB where
  "indexed_db = snd (UpsertTriggerIndexEntry (trigger_entry ''u1'' fresh_workflow) connected_db)"

lemma fresh_open: "db_Open (cf_EncryptionKey demo_cfg) (Inr ()) [] [] = Inr fresh_db"
  using db_Open_clean [of "cf_EncryptionKey demo_cfg"] by (simp add: secretbox_New_def demo_cfg_def fresh_db_def)

lemma fresh_ok: "cred_ok demo_gcm fresh_db" "cred_fits (replicate 12 CHR ''n'') fresh_credential"
  by (simp_all add: cred_ok_def db_ok_def fresh_db_def pk_ok_def no_faults_def cred_fits_def fresh_credential_def
      NonceSize_def rfc_range_def zero_time_def)

lemma connected_ok: "cred_ok demo_gcm connected_db"
  unfolding connected_db_def by (rule creds.ok_put [OF fresh_ok])

lemma connect_request:
  "\<exists>res. serve demo_mux (the_options demo_cfg demo_outside) ''POST'' ''connect'' user_request [] (fresh_db, manager_New) () =
     (res, ''https://idp/userinfo'', (connected_db, Kick manager_New), ())"
proof -
  have nf: "no_faults fresh_db" using fresh_ok(1) by (simp add: cred_ok_def)
  have up: "UpsertAutomation demo_gcm (Inr (replicate 12 CHR ''n'')) fresh_credential fresh_db = (Inr (), connected_db)"
    using UpsertAutomation_no_faults [OF nf, of demo_gcm "replicate 12 CHR ''n''" fresh_credential]
    by (metis cred_put_def connected_db_def snd_conv)
  have c: "Connect (the_service demo_cfg demo_outside) (Bearer ''t'') manager_New fresh_db () =
      (Inr disconnected, Kick manager_New, connected_db, ())"
    using up by (simp add: Connect_def the_service_def fresh_credential_def toStatus_def before_def zero_time_def)
  have a: "api_router demo_mux (the_options demo_cfg demo_outside) ''POST'' ''connect'' (Some ''t'') user_request (fresh_db, manager_New) () =
      (writeJSON one_document 200 (enc_AutomationStatus disconnected), (connected_db, Kick manager_New), ())"
    using c by (simp add: api_router_def demo_mux_def routes_def the_options_def NewAutomationHandler_def Automation_Connect_def
        with_token_def TokenFromContext_def)
  show ?thesis using demo_authenticated [of "api_router demo_mux (the_options demo_cfg demo_outside) ''POST'' ''connect''"] a
    by (simp add: serve_def demo_mux_def)
qed

lemma create_request:
  "\<exists>res. serve demo_mux (the_options demo_cfg demo_outside) ''POST'' ''create'' user_request ''https://idp/userinfo''
     (connected_db, Kick manager_New) () = (res, ''https://idp/userinfo'', (indexed_db, Kick manager_New), ())"
proof -
  let ?h = "op_Workflows (the_options demo_cfg demo_outside)"
  have nf: "no_faults connected_db" using connected_ok by (simp add: cred_ok_def)
  have p: "check_err (DecodeRequest one_document user_request) (dec_patch zero_patch) =
      Inr (zero_patch\<lparr>wp_Name := Some ''flow'', wp_Enabled := Some True,
        wp_Trigger := Some \<lparr>wt_Type = ''event'', wt_Schedule = [], wt_Event = Some \<lparr>et_Type = ''upload'', et_Filters = None\<rparr>\<rparr>\<rparr>)"
    by (simp add: DecodeRequest_def demo_document_def dec_patch_def zero_patch_def json_fields dec_string_def dec_bool_def
        dec_trigger_def dec_event_def zero_trigger_def zero_event_def)
  have put: "Store_Put (wh_store ?h) (Bearer ''t'') flow w = (Inr (), w)" for flow w
    by (simp add: the_options_def the_store_def Store_New_def Store_Put_def caller_def ensureDirs_def mkcol_def)
  have i: "indexed fresh_workflow" "wt_Type (wd_Trigger fresh_workflow) = ''event''"
    by (simp_all add: indexed_def fresh_workflow_def new_workflow_def)
  have sync: "syncTriggerIndex ?h (Bearer ''t'') fresh_workflow (connected_db, Kick manager_New) w = ((indexed_db, Kick manager_New), w)" for w
    using i by (simp add: syncTriggerIndex_def the_options_def UpsertTriggerIndexEntry_def no_faults_exec [OF nf] indexed_db_def
        Kick_def manager_New_def)
  have h: "wh_codec ?h = one_document" "wh_platform ?h = unit_platform" by (simp_all add: the_options_def)
  have "Handler_Create ?h (Some ''t'') user_request (connected_db, Kick manager_New) () =
      (writeJSON one_document 201 (enc_workflow fresh_workflow), (indexed_db, Kick manager_New), ())"
    using p put sync by (simp add: Handler_Create_def with_token_def TokenFromContext_def h fresh_workflow_def)
  then have a: "api_router demo_mux (the_options demo_cfg demo_outside) ''POST'' ''create'' (Some ''t'') user_request
      (connected_db, Kick manager_New) () =
      (writeJSON one_document 201 (enc_workflow fresh_workflow), (indexed_db, Kick manager_New), ())"
    by (simp add: api_router_def demo_mux_def routes_def user_request_def)
  show ?thesis using demo_authenticated [of "api_router demo_mux (the_options demo_cfg demo_outside) ''POST'' ''create''"] a
    by (simp add: serve_def demo_mux_def)
qed

definition demo_consumer :: goroutine where
  "demo_consumer = \<lparr>go_user = ''u1'', go_ctx = 0, go_id = 1\<rparr>"

definition consumer_manager :: Manager where
  "consumer_manager = reconcile_wanted [''u1''] [''u1''] (Kick manager_New)"

lemma consumer_runs: "mg_running consumer_manager = [demo_consumer]" "mg_cancelled consumer_manager = []" "mg_contexts consumer_manager = 1"
    "\<not> mg_root consumer_manager"
  by (simp_all add: consumer_manager_def reconcile_wanted_def start_missing_def stop_unwanted_def Kick_def manager_New_def
      Let_def demo_consumer_def)

definition demo_state :: "unit System" where
  "demo_state = (sys_start fresh_db ())\<lparr>sy_db := indexed_db, sy_mgr := consumer_manager, sy_endpoint := ''https://idp/userinfo'',
     sy_streams := [(demo_consumer, BasicAuth (cred_norm fresh_credential))]\<rparr>"

lemma indexed_facts:
  "ListEventTriggers indexed_db = (Inr [trigger_entry ''u1'' fresh_workflow], indexed_db)"
  "GetAutomation demo_gcm ''u1'' indexed_db = (Inr (cred_norm fresh_credential), indexed_db)"
proof -
  have nf: "no_faults connected_db" using connected_ok by (simp add: cred_ok_def)
  have e: "ti_TriggerType (trigger_entry ''u1'' fresh_workflow) = ''event''"
    by (simp add: trigger_entry_def fresh_workflow_def new_workflow_def Let_def split: option.split)
  have up: "indexed_db = connected_db\<lparr>db_triggers := trigger_index_upsert (trigger_entry ''u1'' fresh_workflow) (db_triggers connected_db)\<rparr>"
    by (simp add: indexed_db_def UpsertTriggerIndexEntry_def no_faults_exec [OF nf])
  have t: "db_triggers connected_db = []"
    by (auto simp: connected_db_def cred_put_def fresh_db_def UpsertAutomation_def Seal_def db_exec_def db_stmt_def)
  have tabs: "db_automations indexed_db = db_automations connected_db" "db_box indexed_db = db_box connected_db"
    by (simp_all add: up)
  have nf2: "no_faults indexed_db" using nf by (simp add: up)
  show "ListEventTriggers indexed_db = (Inr [trigger_entry ''u1'' fresh_workflow], indexed_db)"
    using e by (simp add: ListEventTriggers_def listTriggers_def no_faults_query [OF nf2])
      (simp add: up t trigger_index_upsert_def sql_select_def)
  have "cred_get demo_gcm connected_db ''u1'' = Some (cred_norm fresh_credential)"
    using creds.get_put [OF fresh_ok, of "''u1''"] by (simp add: connected_db_def fresh_credential_def)
  then have "cred_get demo_gcm indexed_db ''u1'' = Some (cred_norm fresh_credential)"
    unfolding cred_get_def GetAutomation_def no_faults_query [OF nf] no_faults_query [OF nf2] tabs fst_conv .
  then show "GetAutomation demo_gcm ''u1'' indexed_db = (Inr (cred_norm fresh_credential), indexed_db)"
    using GetAutomation_no_faults [OF nf2, of demo_gcm "''u1''"] cred_get_Some by metis
qed

text \<open>The state after the two requests, before the manager takes notice.\<close>

definition indexed_state :: "unit System" where
  "indexed_state = (sys_start fresh_db ())\<lparr>sy_db := indexed_db, sy_mgr := Kick manager_New,
     sy_endpoint := ''https://idp/userinfo''\<rparr>"

lemma indexed_rows: "no_faults indexed_db" "trigger_entry ''u1'' fresh_workflow \<in> set (db_triggers indexed_db)"
proof -
  have nf: "no_faults connected_db" using connected_ok by (simp add: cred_ok_def)
  then show nf2: "no_faults indexed_db" by (simp add: indexed_db_def UpsertTriggerIndexEntry_def no_faults_exec)
  show "trigger_entry ''u1'' fresh_workflow \<in> set (db_triggers indexed_db)"
    using indexed_facts(1) by (auto simp: ListEventTriggers_def listTriggers_def no_faults_query [OF nf2] sql_select_def filter_eq_Cons_iff)
qed

lemma indexed_state_reached: "sys_reach demo_cfg demo_outside indexed_state"
proof -
  let ?s1 = "(sys_start fresh_db ())\<lparr>sy_endpoint := ''https://idp/userinfo'', sy_db := connected_db, sy_mgr := Kick manager_New\<rparr>"
  have r0: "sys_reach demo_cfg demo_outside (sys_start fresh_db ())" by (rule sys_reach.start [OF fresh_open])
  have "sys_step demo_cfg demo_outside (sys_start fresh_db ()) ?s1"
    using connect_request sys_step.request [of "sys_start fresh_db ()" demo_outside demo_cfg "''POST''" "''connect''" user_request]
    by (auto simp: sys_start_def all_loops_def)
  with r0 have r1: "sys_reach demo_cfg demo_outside ?s1" by (rule sys_reach.step)
  have "sys_step demo_cfg demo_outside ?s1 indexed_state"
    using create_request sys_step.request [of ?s1 demo_outside demo_cfg "''POST''" "''create''" user_request]
    by (auto simp: indexed_state_def sys_start_def all_loops_def)
  with r1 show ?thesis by (rule sys_reach.step)
qed

lemma demo_state_reached: "sys_reach demo_cfg demo_outside demo_state"
proof -
  let ?s3 = "indexed_state\<lparr>sy_mgr := consumer_manager\<rparr>"
  have "ti_UserID (trigger_entry ''u1'' fresh_workflow) = ''u1''" by (simp add: trigger_entry_def Let_def split: option.split)
  then have "manager_reconcile unit_platform indexed_db (Kick manager_New) () = (indexed_db, consumer_manager, ())"
    by (simp add: manager_reconcile_def indexed_facts(1) consumer_manager_def Let_def)
  then have "sys_step demo_cfg demo_outside indexed_state ?s3"
    using sys_step.manager_selects [of indexed_state TickerC demo_outside] by (simp add: indexed_state_def sys_start_def all_loops_def)
  with indexed_state_reached have r3: "sys_reach demo_cfg demo_outside ?s3" by (rule sys_reach.step)
  have "sys_step demo_cfg demo_outside ?s3 demo_state"
    using sys_step.consumer_started [of demo_consumer ?s3 demo_outside "cred_norm fresh_credential" indexed_db demo_cfg]
      indexed_facts(2) consumer_runs(1)
    by (simp add: indexed_state_def sys_start_def demo_state_def demo_consumer_def)
  with r3 show ?thesis by (rule sys_reach.step)
qed

section \<open>A waiting pass\<close>

text \<open>The stream of the consumer is opened, and the catch-up pass it starts waits for its slot.\<close>

definition waiting_pass :: pass where
  "waiting_pass = \<lparr>ps_ctx = 0, ps_user = ''u1'', ps_auth = BasicAuth (cred_norm fresh_credential), ps_point = Waiting\<rparr>"

definition waiting_state :: "unit System" where
  "waiting_state = demo_state\<lparr>sy_lastPass := [''u1'' \<mapsto> demo_now * second], sy_passes := [waiting_pass]\<rparr>"

lemma waiting_state_reached: "sys_reach demo_cfg demo_outside waiting_state"
proof -
  let ?auth = "BasicAuth (cred_norm fresh_credential)"
  let ?s1 = "demo_state\<lparr>sy_spawned := [(0, SpawnReconcile ''u1'' ?auth)]\<rparr>"
  have st: "\<exists>err. streamOnce (the_engine demo_cfg demo_outside) (ou_codec demo_outside) (sse_endpoint demo_cfg demo_outside)
      ''u1'' ?auth indexed_db () = (err, True, [], indexed_db, ())"
    by (simp add: streamOnce_def sse_endpoint_def scan_lines_def)
  have "sys_step demo_cfg demo_outside demo_state ?s1"
    using st sys_step.consumer_stream [of demo_consumer ?auth demo_state demo_cfg demo_outside _ True "[]" indexed_db "()"]
      consumer_runs
    by (auto simp: demo_state_def sys_start_def ctx_done_def demo_consumer_def)
  then have r1: "sys_reach demo_cfg demo_outside ?s1" by (rule sys_reach.step [OF demo_state_reached])
  have "sys_step demo_cfg demo_outside ?s1 waiting_state"
    using sys_step.pass_requested [of 0 "''u1''" ?auth ?s1 demo_outside True "[''u1'' \<mapsto> demo_now * second]" "()" demo_cfg]
    by (simp add: waiting_state_def waiting_pass_def demo_state_def sys_start_def shouldStartPass_def)
  with r1 show ?thesis by (rule sys_reach.step)
qed

end
