(* ===== verification/WorkflowsExample.thy ===== *)
theory WorkflowsExample
  imports WorkflowsApi
begin

text \<open>
  A concrete backend for the workflow handlers: the demonstration WebDAV server of WebdavExample with
  a codec given by a table of documents, a clock that stands still and one user. The properties of the
  handlers are run on it.
\<close>

definition table_codec :: "(json \<times> string) list \<Rightarrow> codec" where
  "table_codec t =
     (let dec = (\<lambda>s. case map_of (map (\<lambda>(j, s). (s, j)) t) s of None \<Rightarrow> Inl (Msg ''json: syntax error'') | Some j \<Rightarrow> Inr j)
      in \<lparr>json_Marshal = (\<lambda>j. case map_of t j of None \<Rightarrow> [] | Some s \<Rightarrow> s), json_Unmarshal = dec, json_Decode = dec\<rparr>)"

definition demo_patch :: WorkflowPatch where
  "demo_patch = zero_patch\<lparr>wp_Name := Some ''Mine''\<rparr>"

definition demo_created :: WorkflowDefinition where
  "demo_created = new_workflow ''flow-2'' ''Mine'' (format_rfc3339_nano 0) demo_patch"

definition rename_patch :: WorkflowPatch where
  "rename_patch = zero_patch\<lparr>wp_Name := Some ''Yours'', wp_Enabled := Some True,
     wp_Trigger := Some \<lparr>wt_Type = ''event'', wt_Schedule = [], wt_Event = Some \<lparr>et_Type = ''upload'', et_Filters = None\<rparr>\<rparr>\<rparr>"

definition demo_changed :: WorkflowDefinition where
  "demo_changed = (apply_patch rename_patch demo_created)\<lparr>wd_LastModifiedDateTime := format_rfc3339_nano 0\<rparr>"

definition demo_run :: ExecutionRecord where
  "demo_run = demo_record\<lparr>xr_WorkflowID := ''flow-2''\<rparr>"

definition create_body :: json where
  "create_body = JObj [(''name'', JStr ''Mine'')]"

definition rename_body :: json where
  "rename_body = JObj [(''name'', JStr ''Yours''), (''enabled'', JBool True),
     (''trigger'', JObj [(''type'', JStr ''event''), (''event'', JObj [(''type'', JStr ''upload'')])])]"

definition run_body :: json where
  "run_body = JObj [(''resourcePath'', JStr ''/in/a.txt'')]"

definition api_codec :: codec where
  "api_codec = table_codec [(enc_workflow demo_created, ''created''), (enc_workflow demo_changed, ''changed''),
     (enc_execution demo_run, ''run''), (create_body, ''create''), (rename_body, ''rename''), (JObj [], ''empty''), (run_body, ''on-file'')]"

definition api_store :: "nodes Store" where
  "api_store = demo_store\<lparr>st_net := \<lparr>nt_http = demo_dav, nt_codec = api_codec, nt_xml = demo_xml\<rparr>\<rparr>"

definition still_platform :: "nodes platform" where
  "still_platform = \<lparr>pf_Now = (\<lambda>w. (0, w)), pf_NewUUID = (\<lambda>w. (''flow-2'', w)), pf_Nonce = (\<lambda>w. (Inr [], w)),
     pf_CtxDone = (\<lambda>w. False), pf_RangeVars = (\<lambda>m w. (m, w)), pf_RangeKeys = (\<lambda>ks w. (ks, w))\<rparr>"

definition demo_handler :: "nodes WorkflowsHandler" where
  "demo_handler = \<lparr>wh_store = api_store, wh_Run = (\<lambda>a f t p w. (demo_run, w)), wh_Me = (\<lambda>a w. (Inr ''u1'', w)),
     wh_kick = True, wh_platform = still_platform, wh_codec = api_codec\<rparr>"

text \<open>A request with a path parameter and a body.\<close>

definition api_request :: "string \<Rightarrow> string \<Rightarrow> ApiRequest" where
  "api_request i body = \<lparr>rr_Origin = [], rr_Authorization = ''Bearer t'', rr_Params = [(''id'', i)],
     rr_ContentLength = int (length body), rr_Body = (body, None)\<rparr>"

definition stored_space :: nodes where
  "stored_space = [(davBase demo_store ''u1'', Collection), (rootURL demo_store ''u1'', Collection),
     (definitionsURL demo_store ''u1'', Collection), (definitionPath demo_store ''u1'' ''flow-2'', File ''created'')]"

section \<open>Its pieces\<close>

lemma api_urls [simp]: "davBase api_store u = davBase demo_store u" "definitionPath api_store u i = definitionPath demo_store u i"
    "rootURL api_store u = rootURL demo_store u" "definitionsURL api_store u = definitionsURL demo_store u"
    "executionsURL api_store u = executionsURL demo_store u"
    "executionsDirURL api_store u i = executionsDirURL demo_store u i" "executionPath api_store u i j = executionPath demo_store u i j"
  by (simp_all add: api_store_def davBase_def definitionPath_def rootURL_def definitionsURL_def executionsURL_def executionsDirURL_def
      executionPath_def)

lemma api_pieces: "st_client api_store = demo_client" "st_net api_store = \<lparr>nt_http = demo_dav, nt_codec = api_codec, nt_xml = demo_xml\<rparr>"
  by (simp_all add: api_store_def demo_store_def Store_New_def)

lemma api_server: "dav_server api_store a ''u1'' map_of"
  unfolding dav_server_def api_pieces by (rule demo_contract)

lemma created_facts [simp]: "wd_ID demo_created = ''flow-2''" "wd_Name demo_created = ''Mine''" "wd_Graph demo_created = zero_graph"
  by (simp_all add: demo_created_def new_workflow_def demo_patch_def zero_patch_def)

lemma changed_facts [simp]: "wd_ID demo_changed = ''flow-2''" "wd_Name demo_changed = ''Yours''" "wd_Graph demo_changed = zero_graph"
    "wd_Enabled demo_changed" "wd_Trigger demo_changed = \<lparr>wt_Type = ''event'', wt_Schedule = [],
       wt_Event = Some \<lparr>et_Type = ''upload'', et_Filters = None\<rparr>\<rparr>"
  by (simp_all add: demo_changed_def apply_patch_def rename_patch_def zero_patch_def Let_def)

lemma demo_patch_sel: "wp_Name demo_patch = Some ''Mine''"
  by (simp add: demo_patch_def)

lemma rename_patch_sel: "wp_Name rename_patch = Some ''Yours''" "wp_Enabled rename_patch = Some True"
    "wp_Description rename_patch = None" "wp_Graph rename_patch = None" "wp_Trigger rename_patch = Some (wd_Trigger demo_changed)"
  by (simp_all add: rename_patch_def demo_changed_def apply_patch_def zero_patch_def Let_def)

lemma demo_changed_eq: "demo_changed = \<lparr>wd_ID = ''flow-2'', wd_Name = ''Yours'', wd_Description = wd_Description demo_created,
    wd_Enabled = True, wd_Trigger = \<lparr>wt_Type = ''event'', wt_Schedule = [], wt_Event = Some \<lparr>et_Type = ''upload'', et_Filters = None\<rparr>\<rparr>, wd_Graph = zero_graph,
    wd_CreatedDateTime = wd_CreatedDateTime demo_created, wd_LastModifiedDateTime = format_rfc3339_nano 0\<rparr>"
  by (simp add: demo_changed_def apply_patch_def rename_patch_def zero_patch_def Let_def)

lemma documents_differ: "enc_workflow demo_created \<noteq> enc_workflow demo_changed" "enc_workflow d \<noteq> enc_execution x"
    "enc_execution x \<noteq> enc_workflow d"
  by (simp_all add: enc_workflow_def enc_execution_def)

lemma api_reads: "reads_back api_store (enc_workflow demo_created)" "reads_back api_store (enc_workflow demo_changed)"
    "reads_back api_store (enc_execution demo_run)"
  using documents_differ by (simp_all add: reads_back_def api_store_def api_codec_def table_codec_def Let_def)

lemma created_text: "flow_text api_store demo_created = ''created''"
  by (simp add: flow_text_def api_store_def api_codec_def table_codec_def Let_def)

lemma api_bodies:
  "check_err (DecodeRequest api_codec (api_request i ''create'')) (dec_patch zero_patch) = Inr demo_patch"
  "check_err (DecodeRequest api_codec (api_request i ''rename'')) (dec_patch zero_patch) = Inr rename_patch"
  "check_err (DecodeRequest api_codec (api_request i ''empty'')) (dec_patch zero_patch) = Inr zero_patch"
  by (simp_all add: DecodeRequest_def DecodeBody_def api_request_def api_codec_def table_codec_def Let_def
      create_body_def rename_body_def dec_patch_def zero_patch_def demo_patch_def rename_patch_def json_fields
      dec_trigger_def dec_event_def zero_trigger_def zero_event_def dec_string_def dec_bool_def)

lemma api_params [simp]: "vget (rr_Params (api_request i b)) ''id'' = i"
  by (simp add: api_request_def vget_def)

lemma plain_flow_2: "plain_id ''flow-2''"
  by (simp add: plain_id_def url_plain_def unreserved_def)

lemma demo_handler_sel [simp]: "wh_store demo_handler = api_store" "wh_codec demo_handler = api_codec"
    "wh_platform demo_handler = still_platform" "wh_kick demo_handler" "wh_Me demo_handler a w = (Inr ''u1'', w)"
  by (simp_all add: demo_handler_def)

lemma still_clock [simp]: "pf_Now still_platform w = (0, w)" "pf_NewUUID still_platform w = (''flow-2'', w)"
  by (simp_all add: still_platform_def)

lemma demo_quiet: "quiet demo_handler a map_of"
  by (simp add: quiet_def)

lemma run_request: "check_err (DecodeRequest api_codec (api_request i ''on-file'')) dec_runRequest = Inr ''/in/a.txt''"
  by (simp add: DecodeRequest_def DecodeBody_def api_request_def api_codec_def table_codec_def Let_def run_body_def
      create_body_def rename_body_def dec_runRequest_def json_fields enc_workflow_def enc_execution_def)

lemma simple_zero [simp]: "graph_simple zero_graph"
  by (simp add: graph_simple_def zero_graph_def)

lemma stored_space_lookup:
  "map_of stored_space (definitionPath demo_store ''u1'' ''flow-2'') = Some (File ''created'')"
  "space_ok api_store ''u1'' (map_of stored_space)"
  by (simp_all add: stored_space_def demo_urls space_ok_def folder_or_free_def)

lemma api_storable:
  "storable api_store ''u1'' (map_of demo_home) demo_created"
  "storable api_store ''u1'' (map_of stored_space) demo_created"
  "storable api_store ''u1'' (map_of stored_space) demo_changed"
  using stored_space_lookup(1) api_reads plain_flow_2 demo_home_other [of "definitionPath demo_store ''u1'' ''flow-2''"]
  by (simp_all add: storable_def) (simp add: definitionPath_def)

section \<open>The handlers on it\<close>

theorem create_then_get_witness:
  "\<exists>st' w' w''. Handler_Create demo_handler (Some ''t'') (api_request [] ''create'') (demo_db, manager_New) demo_home =
      (writeJSON api_codec 201 (enc_workflow demo_created), st', w')
    \<and> Handler_Get demo_handler (Some ''t'') (api_request ''flow-2'' []) st' w' =
      (writeJSON api_codec 200 (enc_workflow demo_created), st', w'')"
  unfolding demo_created_def
  using create_then_get [of demo_handler "''t''" "''u1''" map_of "api_request [] ''create''" demo_patch "''Mine''" demo_home
      0 demo_home "''flow-2''" demo_home "api_request ''flow-2'' []" "(demo_db, manager_New)"]
    api_server demo_quiet api_bodies demo_home_space api_storable(1)
  by (simp add: demo_created_def demo_patch_sel space_ok_def)

theorem patch_then_get_witness:
  "\<exists>st' w' w''. Handler_Patch demo_handler (Some ''t'') (api_request ''flow-2'' ''rename'') (demo_db, manager_New) stored_space =
      (writeJSON api_codec 200 (enc_workflow demo_changed), st', w')
    \<and> Handler_Get demo_handler (Some ''t'') (api_request ''flow-2'' ''rename'') st' w' =
      (writeJSON api_codec 200 (enc_workflow demo_changed), st', w'')"
  using patch_then_get [of demo_handler "''t''" "''u1''" map_of "api_request ''flow-2'' ''rename''" rename_patch demo_created
      stored_space 0 "(demo_db, manager_New)"]
    api_server demo_quiet api_bodies(2) stored_space_lookup api_storable(2,3)
  by (simp add: demo_changed_def [symmetric] created_text rename_patch_sel) (simp add: demo_changed_eq)

theorem failed_request_keeps_index_witness:
  "\<exists>res w'. Handler_Create demo_handler (Some ''t'') (api_request [] ''empty'') (demo_db, manager_New) demo_home =
     (res, (demo_db, manager_New), w') \<and> rp_Status res = 400"
proof -
  obtain res st' w' where h: "Handler_Create demo_handler (Some ''t'') (api_request [] ''empty'') (demo_db, manager_New) demo_home
      = (res, st', w')" by (metis prod_cases3)
  have "rp_Status res = 400"
    using h api_bodies(3) by (auto simp: Handler_Create_def token_context zero_patch_def)
  then show ?thesis using failed_request_keeps_index [of "Handler_Create demo_handler" demo_handler, OF _ h] h
    by (auto simp: handlers_def)
qed

theorem saved_workflow_indexed_witness:
  "\<exists>res db' m' w'. Handler_Patch demo_handler (Some ''t'') (api_request ''flow-2'' ''rename'') (demo_db, manager_New) stored_space =
      (res, (db', m'), w')
    \<and> (\<exists>flow. res = writeJSON api_codec 200 (enc_workflow flow)
         \<and> trigger_index_row (db_triggers db') (wd_ID flow) = (if indexed flow then Some (trigger_entry ''u1'' flow) else None))"
proof -
  obtain st' w' where p: "Handler_Patch demo_handler (Some ''t'') (api_request ''flow-2'' ''rename'') (demo_db, manager_New) stored_space =
      (writeJSON api_codec 200 (enc_workflow demo_changed), st', w')"
    by (rule patch_stores [of demo_handler "''t''" "''u1''" map_of "api_request ''flow-2'' ''rename''" rename_patch demo_created
          stored_space 0 demo_changed "(demo_db, manager_New)"])
      (use api_server demo_quiet api_bodies(2) stored_space_lookup api_storable(2,3) created_text
        in \<open>simp_all add: demo_changed_def\<close>)
  obtain db' m' where st: "st' = (db', m')" by fastforce
  show ?thesis
    using saved_workflow_indexed [of "Handler_Patch demo_handler" demo_handler, OF _ p [unfolded st] demo_db_ok(1)] p st
    by (auto simp: db_stmt_def demo_db_def)
qed

theorem delete_then_gone_witness:
  "rp_Status (fst (Handler_Delete demo_handler (Some ''t'') (api_request ''flow-2'' []) (demo_db, manager_New) stored_space)) = 204"
proof -
  have "map_of stored_space (definitionPath (wh_store demo_handler) ''u1'' (vget (rr_Params (api_request ''flow-2'' [])) ''id''))
      = Some (File ''created'')"
    by (simp add: stored_space_lookup)
  then obtain db' w' where "Handler_Delete demo_handler (Some ''t'') (api_request ''flow-2'' []) (demo_db, manager_New) stored_space
      = (writeHeader 204 [], (db', manager_New), w')"
    using delete_then_gone [of demo_handler "''t''" "''u1''" map_of "api_request ''flow-2'' []" stored_space "''created''" demo_db manager_New]
      api_server plain_flow_2 demo_db_ok by auto
  then show ?thesis by simp
qed

theorem run_then_get_execution_witness:
  "\<exists>w3. Handler_Run demo_handler (Some ''t'') (api_request ''flow-2'' ''on-file'') (demo_db, manager_New) stored_space =
      (writeHeader 202 [(''Location'', ''/me/workflows/flow-2/executions/run-1'')], (demo_db, manager_New), w3)
    \<and> fst (Handler_GetExecution demo_handler (Some ''t'') ((api_request ''flow-2'' [])\<lparr>rr_Params := [(''id'', ''flow-2''), (''execId'', ''run-1'')]\<rparr>)
        (demo_db, manager_New) w3) = writeJSON api_codec 200 (enc_execution demo_run)"
proof -
  have run: "wh_Run demo_handler a f t p w = (demo_run, w)" for a f t p w by (simp add: demo_handler_def)
  have x: "xr_WorkflowID demo_run = ''flow-2''" "xr_ID demo_run = ''run-1''" "execution_simple demo_run"
    by (simp_all add: demo_run_def execution_simple_def)
  have "map_of stored_space (executionsDirURL demo_store ''u1'' ''flow-2'') = None"
    "map_of stored_space (executionPath demo_store ''u1'' ''flow-2'' ''run-1'') = None"
    by (simp_all add: stored_space_def demo_urls)
  then have "recordable api_store ''u1'' (map_of stored_space) demo_run"
    using stored_space_lookup(2) plain_flow_2 demo_ids(2) api_reads(3) x by (simp add: recordable_def folder_or_free_def)
  then show ?thesis
    using run_then_get_execution [of demo_handler "''t''" "''u1''" map_of "api_request ''flow-2'' ''on-file''" "''/in/a.txt''" demo_created stored_space
        "(demo_db, manager_New)"] api_server api_storable(2) stored_space_lookup(1) created_text x run_request [of "''flow-2''"]
    by (auto simp: run api_request_def vget_def)
qed

end
