(* ===== verification/EndToEndExample.thy ===== *)
theory EndToEndExample
  imports EndToEnd SystemExample WorkflowsExample
begin

text \<open>
  A concrete oCIS for the way from a trigger to the record: below the DAV path the server of WebdavExample,
  at the notification endpoint a stream with one event, and elsewhere one JSON document in which each client finds
  its field. The properties of EndToEnd are run on it, for an event and for a schedule.
\<close>

definition live_document :: json where
  "live_document = JObj [(''id'', JStr ''u1''), (''name'', JStr ''a.pdf''), (''parentReference'', JObj [(''path'', JStr ''/in'')])]"

definition live_event :: json where
  "live_event = JObj [(''itemid'', JStr ''i1''), (''spaceid'', JStr ''sp'')]"

definition live_record :: "string \<Rightarrow> ExecutionRecord" where
  "live_record triggeredBy = \<lparr>xr_ID = ''flow-2'', xr_WorkflowID = ''flow-2'', xr_TriggeredBy = triggeredBy, xr_Status = ''succeeded'',
     xr_StartedDateTime = format_rfc3339_nano 0, xr_CompletedDateTime = format_rfc3339_nano 0, xr_NodeResults = [], xr_Error = None\<rparr>"

definition live_codec :: codec where
  "live_codec = table_codec [(live_document, ''me''), (live_event, ''event''), (enc_workflow demo_changed, ''changed''),
     (enc_execution (live_record ''event''), ''ran''), (enc_execution (live_record ''schedule''), ''ticked'')]"

definition live_lines :: "(string \<times> bool) list" where
  "live_lines = [(''event: postprocessing-finished'', False), (''data: event'', False), ([], False)]"

definition live_http :: "nodes http" where
  "live_http = \<lparr>ht_ParseURL = (\<lambda>url. Inr ()),
     ht_Do = (\<lambda>req w. if HasPrefix (rq_URL req) ''https://ocis/remote.php/dav/files/u1/'' then ht_Do demo_dav req w
       else (Inr \<lparr>rs_Status = 200, rs_Body =
         (if HasPrefix (rq_URL req) ''https://ocis/ocs/'' then render_lines live_lines else ''me'', None)\<rparr>, w))\<rparr>"

definition live_outside :: "nodes outside" where
  "live_outside = \<lparr>ou_http = live_http, ou_llm = live_http, ou_codec = live_codec, ou_xml = demo_xml,
     ou_Parse = (\<lambda>s. Inr (''https'', s)), ou_sort = sort_records, ou_docs = demo_libs,
     ou_notifier = \<lparr>no_Parse = (\<lambda>t. Inr (''https'', t)), no_Lookup = (\<lambda>h w. (Inr [], w)), no_Add = (\<lambda>t w. (Inr (), w)),
       no_Deliver = (\<lambda>t ti b w. (Inr (), w))\<rparr>,
     ou_platform = still_platform\<lparr>pf_Nonce := (\<lambda>w. (Inr (replicate 12 CHR ''n''), w))\<rparr>, ou_gcm = demo_gcm,
     ou_cron = (\<lambda>s. Inr (\<lambda>t. t + hour)), ou_mux = demo_mux\<rparr>"

abbreviation live_store :: "nodes Store" where
  "live_store \<equiv> the_store demo_cfg live_outside"

definition live_space :: nodes where
  "live_space = [(davBase demo_store ''u1'', Collection), (rootURL demo_store ''u1'', Collection),
     (definitionsURL demo_store ''u1'', Collection), (definitionPath demo_store ''u1'' ''flow-2'', File ''changed'')]"

section \<open>Its pieces\<close>

lemma live_sel [simp]: "ou_http live_outside = live_http" "ou_codec live_outside = live_codec" "ou_xml live_outside = demo_xml"
    "ou_gcm live_outside = demo_gcm" "pf_Now (ou_platform live_outside) w = (0, w)"
    "pf_NewUUID (ou_platform live_outside) w = (''flow-2'', w)" "ou_cron live_outside s = Inr (\<lambda>t. t + hour)"
    "cf_OCISURL demo_cfg = ''https://ocis''"
  by (simp_all add: live_outside_def demo_cfg_def)

lemma live_ok: "range_ok (ou_platform live_outside)" "nonce_ok (ou_platform live_outside)"
  by (simp_all add: live_outside_def range_ok_def nonce_ok_def NonceSize_def still_platform_def)

lemma live_net [simp]: "ocis_net live_outside = \<lparr>nt_http = live_http, nt_codec = live_codec, nt_xml = demo_xml\<rparr>" "ocis_URL demo_cfg = ''https://ocis''"
  by (simp_all add: ocis_net_def ocis_URL_def Client_New_def TrimRight_def)

lemma live_urls [simp]: "davBase live_store u = davBase demo_store u" "definitionPath live_store u i = definitionPath demo_store u i"
    "rootURL live_store u = rootURL demo_store u" "definitionsURL live_store u = definitionsURL demo_store u"
    "executionsURL live_store u = executionsURL demo_store u"
    "executionsDirURL live_store u i = executionsDirURL demo_store u i" "executionPath live_store u i j = executionPath demo_store u i j"
  by (simp_all add: demo_urls) (simp_all add: the_store_def Store_New_def davBase_def TrimRight_def demo_urls)

lemma live_documents_differ: "live_document \<noteq> live_event" "live_document \<noteq> enc_workflow d" "live_event \<noteq> enc_workflow d"
    "live_document \<noteq> enc_execution x" "live_event \<noteq> enc_execution x" "enc_workflow d \<noteq> enc_execution x"
    "enc_execution (live_record ''event'') \<noteq> enc_execution (live_record ''schedule'')"
  by (simp_all add: live_document_def live_event_def enc_workflow_def enc_execution_def live_record_def)

lemma live_decode: "json_Decode live_codec ''me'' = Inr live_document" "json_Unmarshal live_codec ''event'' = Inr live_event"
    "json_Unmarshal live_codec ''changed'' = Inr (enc_workflow demo_changed)" "json_Marshal live_codec (enc_workflow demo_changed) = ''changed''"
  using live_documents_differ live_documents_differ [symmetric] by (simp_all add: live_codec_def table_codec_def Let_def)

lemma live_reads: "reads_back live_store (enc_workflow demo_changed)"
    "t \<in> {''event'', ''schedule''} \<Longrightarrow> reads_back live_store (enc_execution (live_record t))"
  using live_documents_differ live_documents_differ [symmetric]
  by (auto simp: reads_back_def the_store_def Store_New_def live_codec_def table_codec_def Let_def)

lemma live_graph_call:
  "\<not> HasPrefix url ''https://ocis/remote.php/dav/files/u1/'' \<Longrightarrow> \<not> HasPrefix url ''https://ocis/ocs/'' \<Longrightarrow>
   send live_http m url hs b w = (Inr \<lparr>rs_Status = 200, rs_Body = (''me'', None)\<rparr>, w)"
  by (simp add: send_request live_http_def)

lemma live_Me: "Me \<lparr>nt_http = live_http, nt_codec = live_codec, nt_xml = x\<rparr> ''https://ocis'' a w = (Inr ''u1'', w)"
  by (simp add: Me_def live_graph_call HasPrefix_def DecodeBody_def live_decode live_document_def dec_id_def json_fields)

lemma live_ItemPath: "ItemPath \<lparr>nt_http = live_http, nt_codec = live_codec, nt_xml = x\<rparr> ''https://ocis'' a sp i w = (Inr ''/in/a.pdf'', w)"
  by (simp add: ItemPath_def live_graph_call HasPrefix_def DecodeBody_def live_decode live_document_def dec_item_def json_fields TrimRight_def)

lemma live_dav_answers:
  assumes "HasPrefix (rq_URL req) (davBase demo_store ''u1'' @ ''/'')"
  shows "\<exists>res w1. ht_Do live_http req w = (Inr res, w1) \<and> (rs_Status res, map_of w1) = dav_effect req (map_of w)
      \<and> dav_body \<lparr>nt_http = live_http, nt_codec = live_codec, nt_xml = demo_xml\<rparr> req (map_of w) res"
proof -
  have d: "ht_Do live_http req w = ht_Do demo_dav req w" using assms by (simp add: live_http_def davBase_demo)
  obtain res w1 where r: "ht_Do demo_dav req w = (Inr res, w1)" "(rs_Status res, map_of w1) = dav_effect req (map_of w)"
    "dav_body \<lparr>nt_http = demo_dav, nt_codec = live_codec, nt_xml = demo_xml\<rparr> req (map_of w) res"
    using demo_dav_answers [of req w live_codec] by blast
  have "dav_body \<lparr>nt_http = live_http, nt_codec = live_codec, nt_xml = demo_xml\<rparr> req (map_of w) res"
    using r(3) by (simp add: dav_body_def lists_members_def)
  then show ?thesis using r(1,2) d by auto
qed

lemma live_server: "dav_server live_store a ''u1'' map_of"
proof -
  have p: "st_net live_store = \<lparr>nt_http = live_http, nt_codec = live_codec, nt_xml = demo_xml\<rparr>"
    "st_client live_store = \<lparr>nt_http = live_http, nt_codec = live_codec, nt_xml = demo_xml\<rparr>" "st_clientURL live_store = ''https://ocis''"
    by (simp_all add: the_store_def Store_New_def)
  have "ht_ParseURL live_http url = Inr ()" for url by (simp add: live_http_def)
  then show ?thesis
    unfolding dav_server_def dav_contract_def p live_urls using live_dav_answers by (simp add: live_Me)
qed

lemma live_space_lookup: "map_of live_space (definitionPath demo_store ''u1'' ''flow-2'') = Some (File ''changed'')"
    "space_ok live_store ''u1'' (map_of live_space)" "folder_or_free (map_of live_space) (executionsDirURL demo_store ''u1'' ''flow-2'')"
    "map_of live_space (executionPath demo_store ''u1'' ''flow-2'' ''flow-2'') = None"
  by (simp_all add: live_space_def demo_urls space_ok_def folder_or_free_def)

text \<open>A run of the workflow, whose graph is empty: it reads the target file, if there is one, and reports success.\<close>

lemma live_get_quiet:
  "map_of (snd (fc_GetContent (ex_files (the_executor demo_cfg live_outside)) a p w)) = map_of w"
proof -
  let ?c = "FilesClient_New ''https://ocis'' (ocis_net live_outside) ''https://ocis'' (ocis_net live_outside)"
  have b: "files_base ?c u = davBase live_store u" for u
    by (simp add: files_base_def FilesClient_New_def davBase_def the_store_def Store_New_def)
  let ?req = "request ''GET'' (davURL ?c ''u1'' p) (bearer a) []"
  have n: "nt_http (wf_net ?c) = live_http" by (simp add: FilesClient_New_def)
  have "HasPrefix (rq_URL ?req) (davBase demo_store ''u1'' @ ''/'')" unfolding request_sel davURL_base b live_urls HasPrefix_iff by simp
  from live_dav_answers [OF this] obtain res w1 where
    r: "ht_Do live_http ?req w = (Inr res, w1)" "(rs_Status res, map_of w1) = dav_effect ?req (map_of w)" by blast
  then have g: "send (nt_http (wf_net ?c)) ''GET'' (davURL ?c ''u1'' p) (bearer a) [] w = (Inr res, w1)"
    "map_of w1 = snd (dav_effect ?req (map_of w))"
    unfolding n by (simp_all add: send_request live_http_def) (metis snd_conv)
  have "map_of w1 = map_of w" by (simp add: g(2) dav_effect_def Let_def split: option.split dav_node.split)
  moreover have "files_caller ?c a w = (Inr ''u1'', w)" by (simp add: files_caller_def FilesClient_New_def live_Me)
  ultimately show ?thesis
    using g(1) by (simp add: the_executor_def file_client_def GetContent_def)
qed

lemma live_run:
  "\<exists>w1. Run (the_executor demo_cfg live_outside) a demo_changed by p w = (live_record by, w1) \<and> map_of w1 = map_of w"
proof -
  let ?ex = "the_executor demo_cfg live_outside"
  obtain m w1 where iv: "initial_vars ?ex a p w = (m, w1)" by fastforce
  moreover have "map_of w1 = map_of w"
    using iv live_get_quiet [of a p w] by (auto simp: initial_vars_def split: prod.splits sum.splits if_splits)
  moreover have "ex_platform ?ex = ou_platform live_outside" by (simp add: the_executor_def)
  moreover have "orderedNodes zero_graph = []" by code_simp
  ultimately show ?thesis by (simp add: Run_def live_record_def)
qed

lemma live_runnable:
  assumes "t \<in> {''event'', ''schedule''}"
  shows "runnable_flow demo_cfg live_outside a ''u1'' map_of t p demo_changed (map_of live_space)"
proof -
  have x: "xr_WorkflowID (live_record t) = ''flow-2''" "xr_ID (live_record t) = ''flow-2''" "execution_simple (live_record t)"
    by (simp_all add: live_record_def execution_simple_def)
  have "recordable live_store ''u1'' (map_of live_space) (live_record t)"
    using live_space_lookup plain_flow_2 live_reads(2) [OF assms] x by (simp add: recordable_def)
  moreover have "flow_text live_store demo_changed = ''changed''"
    by (simp add: flow_text_def the_store_def Store_New_def live_decode)
  ultimately show ?thesis
    using live_space_lookup plain_flow_2 live_reads(1) live_run [of a t p]
    by (auto simp: runnable_flow_def storable_def) (metis Pair_inject)
qed

section \<open>An event\<close>

definition live_state :: "nodes System" where
  "live_state = (sys_start (demo_db\<lparr>db_triggers := [trigger_entry ''u1'' demo_changed]\<rparr>) live_space)\<lparr>sy_mgr := consumer_manager,
     sy_streams := [(demo_consumer, ''Basic x'')]\<rparr>"

lemma live_entry: "ti_WorkflowID (trigger_entry ''u1'' demo_changed) = ''flow-2''"
    "ti_TriggerType (trigger_entry ''u1'' demo_changed) = ''event''" "candidate ''u1'' ''upload'' (trigger_entry ''u1'' demo_changed)"
    "MatchesFilters (trigger_entry ''u1'' demo_changed) p sp"
  by (simp_all add: trigger_entry_def Let_def candidate_def MatchesFilters_def)

lemma live_stream: "stream_carries demo_cfg live_outside a map_of ''postprocessing-finished'' ''event'' w"
proof -
  let ?b = "\<lparr>bk_event = '' postprocessing-finished'', bk_data = '' event'', bk_data_first = False, bk_noise = ([], [], [])\<rparr>"
  have s: "sse_endpoint demo_cfg live_outside a w = (Inr (200, render_lines live_lines, None), w)"
    by (simp add: sse_endpoint_def send_request live_http_def TrimRight_def HasPrefix_def)
  have l: "map fst live_lines = concat (map block_lines [?b]) @ []" "list_all line_ok live_lines" "list_all noise_ok [?b]"
    by (simp_all add: live_lines_def block_lines_def line_ok_def maxScanTokenSize_def noise_ok_def)
  have t: "TrimSpace '' postprocessing-finished'' = ''postprocessing-finished''" "TrimSpace '' event'' = ''event''" by code_simp+
  show ?thesis
    unfolding stream_carries_def using s l t
    by (intro exI [of _ live_lines] exI [of _ None] exI [of _ w] exI [of _ "[?b]"] exI [of _ "[]"]) simp
qed

lemma live_paths: "item_paths_quiet (the_engine demo_cfg live_outside) map_of"
    "event_path (the_engine demo_cfg live_outside) a \<lparr>ep_ItemID = ''i1'', ep_SpaceID = ''sp''\<rparr> w = (''/in/a.pdf'', w)"
  by (simp_all add: item_paths_quiet_def event_path_def the_engine_def live_ItemPath)

lemma live_payload: "decode_payload live_codec ''event'' = Inr \<lparr>ep_ItemID = ''i1'', ep_SpaceID = ''sp''\<rparr>"
  by (simp add: decode_payload_def live_decode live_event_def json_fields)

theorem event_leaves_record_witness:
  "\<exists>s1 s2. sys_step demo_cfg live_outside live_state s1 \<and> sys_step demo_cfg live_outside s1 s2
    \<and> fst (Handler_GetExecution (op_Workflows (the_options demo_cfg live_outside)) (Some ''t'')
        ((api_request ''flow-2'' [])\<lparr>rr_Params := [(''id'', ''flow-2''), (''execId'', ''flow-2'')]\<rparr>) (sy_db s2, sy_mgr s2) (sy_world s2))
      = writeJSON live_codec 200 (enc_execution (live_record ''event''))"
proof -
  have st: "(demo_consumer, ''Basic x'') \<in> set (sy_streams live_state)" "demo_consumer \<in> set (mg_running (sy_mgr live_state))"
    "\<not> ctx_done (sy_mgr live_state) (go_ctx demo_consumer)" "no_faults (sy_db live_state)" "go_user demo_consumer = ''u1''"
    "trigger_entry ''u1'' demo_changed \<in> set (db_triggers (sy_db live_state))" "sy_world live_state = live_space"
    using consumer_runs by (simp_all add: live_state_def sys_start_def ctx_done_def demo_consumer_def)
  have p: "\<not> IsInternalPath ''/in/a.pdf''" by (simp add: IsInternalPath_def TrimPrefix_def rootDir_def)
  obtain s1 s2 x where r: "sys_step demo_cfg live_outside live_state s1" "sys_step demo_cfg live_outside s1 s2"
    "record_of_run demo_cfg live_outside ''Basic x'' map_of ''event'' ''/in/a.pdf'' demo_changed (map_of live_space) x"
    "record_served demo_cfg live_outside ''u1'' map_of x s2"
    using event_leaves_record [OF st(1-4,6) live_entry(2), of "''upload''" demo_cfg live_outside map_of "''postprocessing-finished''" "''event''"
        "\<lparr>ep_ItemID = ''i1'', ep_SpaceID = ''sp''\<rparr>" "''/in/a.pdf''" demo_changed]
      live_entry live_stream live_payload live_paths p live_server live_runnable st(5,7) by (auto simp: eventTypeMap_def)
  have "x = live_record ''event''" using r(3) live_run [of "''Basic x''" "''event''" "''/in/a.pdf''"] by (auto simp: record_of_run_def) (metis Pair_inject)
  then have "xr_WorkflowID x = ''flow-2''" "xr_ID x = ''flow-2''" by (simp_all add: live_record_def)
  then have "fst (Handler_GetExecution (op_Workflows (the_options demo_cfg live_outside)) (Some ''t'')
        ((api_request ''flow-2'' [])\<lparr>rr_Params := [(''id'', ''flow-2''), (''execId'', ''flow-2'')]\<rparr>) (sy_db s2, sy_mgr s2) (sy_world s2))
      = writeJSON (ou_codec live_outside) 200 (enc_execution x)"
    using live_server by (intro r(4) [unfolded record_served_def, rule_format]) (simp add: vget_def)
  then show ?thesis using r(1,2) \<open>x = _\<close> by auto
qed

section \<open>A schedule\<close>

definition live_schedule :: TriggerIndexEntry where
  "live_schedule = \<lparr>ti_WorkflowID = ''flow-2'', ti_UserID = ''u1'', ti_TriggerType = ''schedule'', ti_Schedule = ''@hourly'',
     ti_EventType = [], ti_PathPrefix = [], ti_Extension = [], ti_SpaceID = []\<rparr>"

definition hourly_state :: "nodes System" where
  "hourly_state = (sys_start (indexed_db\<lparr>db_triggers := [live_schedule]\<rparr>) live_space)\<lparr>sy_lastRun := [''flow-2'' \<mapsto> - hour]\<rparr>"

lemma hourly_facts: "db_ok (sy_db hourly_state)" "no_faults (sy_db hourly_state)" "db_triggers (sy_db hourly_state) = [live_schedule]"
    "GetAutomation demo_gcm ''u1'' (sy_db hourly_state) = (Inr (cred_norm fresh_credential), sy_db hourly_state)"
proof -
  have "cred_ok demo_gcm connected_db" by (rule connected_ok)
  then have "db_ok connected_db" by (simp add: cred_ok_def)
  moreover have nf: "no_faults connected_db" using \<open>cred_ok demo_gcm connected_db\<close> by (simp add: cred_ok_def)
  moreover have t: "db_automations indexed_db = db_automations connected_db" "db_cursors indexed_db = db_cursors connected_db"
    by (simp_all add: indexed_db_def UpsertTriggerIndexEntry_def no_faults_exec [OF nf])
  ultimately show "db_ok (sy_db hourly_state)" by (simp add: hourly_state_def sys_start_def db_ok_def pk_ok_def t)
  show nf2: "no_faults (sy_db hourly_state)" using indexed_rows(1) by (simp add: hourly_state_def sys_start_def)
  have same: "db_automations (sy_db hourly_state) = db_automations indexed_db" "db_box (sy_db hourly_state) = db_box indexed_db"
    by (simp_all add: hourly_state_def sys_start_def)
  show "db_triggers (sy_db hourly_state) = [live_schedule]" by (simp add: hourly_state_def sys_start_def)
  show "GetAutomation demo_gcm ''u1'' (sy_db hourly_state) = (Inr (cred_norm fresh_credential), sy_db hourly_state)"
    using indexed_facts(2) unfolding GetAutomation_def no_faults_query [OF indexed_rows(1)] no_faults_query [OF nf2] same by simp
qed

theorem schedule_leaves_record_witness:
  "\<exists>s1 s2. sys_step demo_cfg live_outside hourly_state s1 \<and> sys_step demo_cfg live_outside s1 s2
    \<and> fst (Handler_GetExecution (op_Workflows (the_options demo_cfg live_outside)) (Some ''t'')
        ((api_request ''flow-2'' [])\<lparr>rr_Params := [(''id'', ''flow-2''), (''execId'', ''flow-2'')]\<rparr>) (sy_db s2, sy_mgr s2) (sy_world s2))
      = writeJSON live_codec 200 (enc_execution (live_record ''schedule''))"
proof -
  let ?a = "cred_norm fresh_credential"
  have st: "ScheduleLoop \<in> set (sy_loops hourly_state)" "sy_lastRun hourly_state ''flow-2'' = Some (- hour)"
    "sy_world hourly_state = live_space"
    by (simp_all add: hourly_state_def sys_start_def all_loops_def)
  have e: "ti_WorkflowID live_schedule = ''flow-2''" "ti_UserID live_schedule = ''u1''" "ti_TriggerType live_schedule = ''schedule''"
    by (simp_all add: live_schedule_def)
  obtain s1 s2 x where r: "sys_step demo_cfg live_outside hourly_state s1" "sys_step demo_cfg live_outside s1 s2"
    "record_of_run demo_cfg live_outside (BasicAuth ?a) map_of ''schedule'' [] demo_changed (map_of live_space) x"
    "record_served demo_cfg live_outside ''u1'' map_of x s2"
    using schedule_leaves_record [OF hourly_facts(1) st(1) hourly_facts(2), of live_schedule live_outside "\<lambda>t. t + hour" "- hour"
        0 live_space map_of ?a demo_cfg demo_changed] st e hourly_facts(3,4) live_server live_runnable by auto
  have x: "x = live_record ''schedule''" using r(3) live_run [of "BasicAuth ?a" "''schedule''" "[]"]
    by (auto simp: record_of_run_def) (metis Pair_inject)
  then have "xr_WorkflowID x = ''flow-2''" "xr_ID x = ''flow-2''" by (simp_all add: live_record_def)
  then have "fst (Handler_GetExecution (op_Workflows (the_options demo_cfg live_outside)) (Some ''t'')
        ((api_request ''flow-2'' [])\<lparr>rr_Params := [(''id'', ''flow-2''), (''execId'', ''flow-2'')]\<rparr>) (sy_db s2, sy_mgr s2) (sy_world s2))
      = writeJSON (ou_codec live_outside) 200 (enc_execution x)"
    using live_server by (intro r(4) [unfolded record_served_def, rule_format]) (simp add: vget_def)
  then show ?thesis using r(1,2) x by auto
qed

end
