(* ===== verification/CommandLine.thy ===== *)
theory CommandLine
  imports SystemInvariants
begin

text \<open>
  The program around the backend: cmd/workflows/main.go, command/root.go (the choice of the command),
  command/health.go (the container's health check), server/debug/server.go (the endpoint it asks) and
  logging/logging.go. The two commands meet over the network: \<open>health\<close> is another process that asks the debug
  server of the one that runs \<open>server\<close>.
\<close>

section \<open>Logging\<close>

datatype log_level = LevelDebug | LevelInfo | LevelWarn | LevelError

definition logging_New :: "string \<Rightarrow> log_level" where
  "logging_New level =
     (if level = ''debug'' then LevelDebug
      else if level = ''warn'' then LevelWarn
      else if level = ''error'' then LevelError
      else LevelInfo)"

section \<open>The debug server\<close>

text \<open>
  The one handler of the mux. Other paths (\<open>None\<close>) are answered by the mux itself, with a redirect to the clean
  path or with 404; the method does not matter.
\<close>

definition debug_New :: "string \<Rightarrow> ApiResponse option" where
  "debug_New path = (if path = ''/healthz'' then Some \<lparr>rp_Status = 200, rp_Header = [], rp_Body = ''ok''\<rparr> else None)"

section \<open>The commands\<close>

definition RunHealth :: "'w http \<Rightarrow> Config \<Rightarrow> 'w \<Rightarrow> unit result \<times> 'w" where
  "RunHealth ht cfg w =
     (case send ht ''GET'' (''http://'' @ cf_DebugAddr cfg @ ''/healthz'') [] [] w of
        (Inl err, w1) \<Rightarrow> (Inl (Wrap ''health check request failed'' err), w1)
      | (Inr res, w1) \<Rightarrow>
          (if rs_Status res \<noteq> 200 then Inl (Msg (''health check returned status '' @ show_int (rs_Status res)))
           else Inr (), w1))"

text \<open>
  \<open>RunServer\<close> opens the database and starts the group; the backend then goes on from the state it returns, by
  the steps of System. Whether the key was drawn for this run is what the warning at its start tells.
\<close>

definition EncryptionKeyGenerated :: "Config \<Rightarrow> bool" where
  "EncryptionKeyGenerated cfg = cf_encryptionKeyGenerated cfg"

record 'w launch =
  la_Config :: Config
  la_LogLevel :: log_level
  la_KeyWarning :: bool
  la_System :: "'w System"

definition RunServer :: "Config \<Rightarrow> unit result \<Rightarrow> schema \<Rightarrow> go_error option list \<Rightarrow> DB \<Rightarrow> 'w \<Rightarrow> 'w launch result" where
  "RunServer cfg opened sch faults file w =
     (case fst (db_Open_file (cf_EncryptionKey cfg) opened sch faults file) of
        Inl err \<Rightarrow> Inl (Wrap ''open local database'' err)
      | Inr db \<Rightarrow> Inr \<lparr>la_Config = cfg, la_LogLevel = logging_New (cf_LogLevel cfg), la_KeyWarning = EncryptionKeyGenerated cfg,
          la_System = sys_start db w\<rparr>)"

text \<open>A command that ends has a result; the server runs on.\<close>

datatype 'w execution = Returns "unit result" 'w | Serves "'w launch"

text \<open>
  What the process is given: its environment, randomness, network, and the database file: whether the driver
  opens it, its schema and its rows, and which statements on it will fail.
\<close>

record 'w process =
  pr_env :: env
  pr_rand :: "'w \<Rightarrow> string result \<times> 'w"
  pr_http :: "'w http"
  pr_opened :: "unit result"
  pr_schema :: schema
  pr_file :: DB
  pr_faults :: "go_error option list"

definition Execute :: "'w process \<Rightarrow> string list \<Rightarrow> 'w \<Rightarrow> 'w execution" where
  "Execute pr args w =
     (case args of
        [] \<Rightarrow> Returns (Inl (Msg ''usage: workflows <server|health>'')) w
      | command # _ \<Rightarrow>
          (case FromEnv (pr_env pr) (pr_rand pr) w of
             (Inl err, w1) \<Rightarrow> Returns (Inl (Wrap ''load config'' err)) w1
           | (Inr cfg, w1) \<Rightarrow>
               if command = ''server'' then
                 (case RunServer cfg (pr_opened pr) (pr_schema pr) (pr_faults pr) (pr_file pr) w1 of
                    Inl err \<Rightarrow> Returns (Inl err) w1
                  | Inr la \<Rightarrow> Serves la)
               else if command = ''health'' then (case RunHealth (pr_http pr) cfg w1 of (r, w2) \<Rightarrow> Returns r w2)
               else Returns (Inl (Msg (''unknown command '' @ Quote command @ '': usage: workflows <server|health>''))) w1))"

text \<open>The exit status of \<^verbatim>\<open>main\<close>, once the command has returned; an error is printed to the standard error.\<close>

definition main_exit :: "'w execution \<Rightarrow> nat option" where
  "main_exit x = (case x of Returns (Inl err) w \<Rightarrow> Some 1 | Returns (Inr _) w \<Rightarrow> Some 0 | Serves la \<Rightarrow> None)"

lemma usage_errors:
  "main_exit (Execute pr [] w) = Some 1"
  "c \<noteq> ''server'' \<Longrightarrow> c \<noteq> ''health'' \<Longrightarrow> main_exit (Execute pr (c # args) w) = Some 1"
  by (auto simp: Execute_def main_exit_def split: prod.split sum.split)

section \<open>The server command\<close>

text \<open>
  With randomness that gives 32 bytes, a process whose configuration loads and whose database file opens and
  migrates serves, and what it serves are the reachable states of the model, on a database file without rows and on
  the one any earlier run with this key left.
\<close>

lemma server_command_serves:
  fixes pr :: "'w process"
  assumes "\<And>key w1. pr_rand pr w = (Inr key, w1) \<Longrightarrow> length key = 32" "FromEnv (pr_env pr) (pr_rand pr) w = (Inr cfg, w1)"
    "pr_opened pr = Inr ()" "fst (migrate (pr_schema pr, pr_faults pr)) = Inr ()"
  obtains la where "Execute pr (''server'' # args) w = Serves la" "la_Config la = cfg"
    "\<And>(out :: 'w outside). db_automations (pr_file pr) = [] \<Longrightarrow> db_triggers (pr_file pr) = [] \<Longrightarrow> db_cursors (pr_file pr) = [] \<Longrightarrow>
       sys_reach cfg out (la_System la)"
    "\<And>(out :: 'w outside) s. sys_reach cfg out s \<Longrightarrow> pr_file pr = sy_db s \<Longrightarrow> sys_reach cfg out (la_System la)"
proof -
  have "length (cf_EncryptionKey cfg) = 32"
    using config_usable [of "pr_rand pr" w "pr_env pr", OF assms(1)] assms(2) by simp
  then obtain b where b: "secretbox_New (cf_EncryptionKey cfg) = Inr b" by (auto simp: secretbox_New_def)
  obtain sch' fs where m: "migrate (pr_schema pr, pr_faults pr) = (Inr (), sch', fs)"
    using assms(4) by (cases "migrate (pr_schema pr, pr_faults pr)") auto
  define db where "db = (pr_file pr)\<lparr>db_box := b, db_faults := fs\<rparr>"
  have o: "fst (db_Open_file (cf_EncryptionKey cfg) (Inr ()) (pr_schema pr) (pr_faults pr) (pr_file pr)) = Inr db"
    using b m by (simp add: db_Open_file_def db_def)
  show thesis
  proof (rule that)
    show "Execute pr (''server'' # args) w = Serves \<lparr>la_Config = cfg, la_LogLevel = logging_New (cf_LogLevel cfg),
        la_KeyWarning = EncryptionKeyGenerated cfg, la_System = sys_start db w1\<rparr>"
      using assms(2,3) o by (simp add: Execute_def RunServer_def)
    fix out :: "'w outside" assume "db_automations (pr_file pr) = []" "db_triggers (pr_file pr) = []" "db_cursors (pr_file pr) = []"
    then have "db_Open (cf_EncryptionKey cfg) (Inr ()) (pr_schema pr) (pr_faults pr) = Inr db"
      using b m by (simp add: db_Open_def db_Open_file_def db_def)
    then show "sys_reach cfg out (la_System \<lparr>la_Config = cfg, la_LogLevel = logging_New (cf_LogLevel cfg),
        la_KeyWarning = EncryptionKeyGenerated cfg, la_System = sys_start db w1\<rparr>)"
      using sys_reach.start by simp
  next
    fix out :: "'w outside" and s assume "sys_reach cfg out s" "pr_file pr = sy_db s"
    then show "sys_reach cfg out (la_System \<lparr>la_Config = cfg, la_LogLevel = logging_New (cf_LogLevel cfg),
        la_KeyWarning = EncryptionKeyGenerated cfg, la_System = sys_start db w1\<rparr>)"
      using sys_reach.restart o by simp
  qed simp
qed

section \<open>The health check\<close>

text \<open>As long as no signal came and no server failed, every function of the group runs.\<close>

lemma sys_step_loops:
  assumes "sys_step cfg out s s'" "\<not> mg_root (sy_mgr s) \<longrightarrow> sy_loops s = all_loops"
  shows "\<not> mg_root (sy_mgr s') \<longrightarrow> sy_loops s' = all_loops"
  using assms(1)
proof (cases rule: sys_step.cases)
  case (request meth p r res ep db m w)
  then show ?thesis using request_evolves [OF request(3)] assms(2)
    by (cases "mg_kick (sy_mgr s)") (auto simp: Kick_def)
next
  case (manager_selects c db m w)
  have "mg_root m = mg_root (sy_mgr s)"
    using manager_selects(4)
    by (cases c) (auto simp: manager_reconcile_def reconcile_wanted_def fold_start_missing stop_unwanted_def Let_def
      split: prod.splits sum.splits)
  then show ?thesis using manager_selects(1) assms(2) by simp
qed (use assms(2) in \<open>auto simp: returned_def deactivate_def stopAll_def split: option.splits\<close>)

lemma sys_reach_loops: "sys_reach cfg out s \<Longrightarrow> \<not> mg_root (sy_mgr s) \<longrightarrow> sy_loops s = all_loops"
proof (induction rule: sys_reach.induct)
  case (step s s')
  show ?case by (rule sys_step_loops [OF step(2,3)])
qed (simp_all add: sys_start_def)

text \<open>
  The network between the two processes: a request below the address of the debug server gets the answer of its
  handler while the debug server runs, and an error otherwise.
\<close>

definition asks_debug_server :: "Config \<Rightarrow> 'w http \<Rightarrow> 'w System \<Rightarrow> bool" where
  "asks_debug_server cfg ht s =
     (\<forall>req w path answer. rq_URL req = ''http://'' @ cf_DebugAddr cfg @ path \<and> debug_New path = Some answer \<longrightarrow>
        ht_ParseURL ht (rq_URL req) = Inr ()
        \<and> (if DebugServer \<in> set (sy_loops s)
           then fst (ht_Do ht req w) = Inr \<lparr>rs_Status = rp_Status answer, rs_Body = (rp_Body answer, None)\<rparr>
           else isl (fst (ht_Do ht req w))))"

text \<open>
  C33. The health check tells the truth: asked of a reachable state of the backend, with the same debug
  address, \<^verbatim>\<open>workflows health\<close> exits with 0 exactly when the debug server runs, and it does so in every state in
  which no signal came and no server failed; it never keeps running.
\<close>

theorem health_reports_backend:
  assumes "sys_reach cfg out s" "FromEnv (pr_env pr) (pr_rand pr) w = (Inr probe, w1)" "cf_DebugAddr probe = cf_DebugAddr cfg"
    "asks_debug_server cfg (pr_http pr) s"
  shows "main_exit (Execute pr (''health'' # args) w) = Some (if DebugServer \<in> set (sy_loops s) then 0 else 1)
    \<and> (\<not> mg_root (sy_mgr s) \<longrightarrow> main_exit (Execute pr (''health'' # args) w) = Some 0)"
proof -
  let ?url = "''http://'' @ cf_DebugAddr cfg @ ''/healthz''"
  have net: "ht_ParseURL (pr_http pr) ?url = Inr ()"
    "if DebugServer \<in> set (sy_loops s) then fst (ht_Do (pr_http pr) (request ''GET'' ?url [] []) w1) = Inr \<lparr>rs_Status = 200, rs_Body = (''ok'', None)\<rparr>
     else isl (fst (ht_Do (pr_http pr) (request ''GET'' ?url [] []) w1))"
    using assms(4) unfolding asks_debug_server_def
    by (auto simp: debug_New_def dest: spec [of _ "request ''GET'' ?url [] []"])
  obtain r w2 where r: "ht_Do (pr_http pr) (request ''GET'' ?url [] []) w1 = (r, w2)" by fastforce
  have "main_exit (Execute pr (''health'' # args) w) = Some (if DebugServer \<in> set (sy_loops s) then 0 else 1)"
    using assms(2) net(2) r send_request [OF net(1), of "''GET''" "[]" "[]" w1]
    by (cases r) (auto simp: Execute_def RunHealth_def assms(3) main_exit_def split: if_splits)
  moreover have "DebugServer \<in> set (sy_loops s)" if "\<not> mg_root (sy_mgr s)"
    using sys_reach_loops [OF assms(1)] that by (simp add: all_loops_def)
  ultimately show ?thesis by simp
qed

end
