(* ===== verification/FakeLlm.thy ===== *)
theory FakeLlm
  imports Llm RestApi
begin

text \<open>
  backend/cmd/fakellm: the endpoint that stands in for an LLM provider in the test setups, and what the client of
  Llm makes of its reply.
\<close>

definition fakeReply :: string where
  "fakeReply = ''This is a fake LLM response for testing.''"

definition enc_chatResponse :: "Message list \<Rightarrow> json" where
  "enc_chatResponse ms = JObj [(''choices'', JArr (map (\<lambda>m. JObj [(''message'', enc_message m)]) ms))]"

text \<open>
  The one handler. It decodes the request, ignores whether that worked, and always writes the same document with
  status 200; other paths (\<open>None\<close>) are answered by the mux.
\<close>

definition fakellm :: "codec \<Rightarrow> string \<Rightarrow> ApiResponse option" where
  "fakellm c path =
     (if path = ''/v1/chat/completions''
      then Some (writeJSON c 200 (enc_chatResponse [\<lparr>ms_Role = ''assistant'', ms_Content = fakeReply\<rparr>]))
      else None)"

text \<open>The reply of \<open>fakellm\<close> is what the client reads, with one message per choice, in their order.\<close>

lemma chatResponse_decodes: "dec_chatResponse (enc_chatResponse ms) = Inr ms"
  by (simp add: dec_chatResponse_def enc_chatResponse_def dec_struct_def dec_slice_def key_matches_def ascii_lower_def
      dec_elements_map dec_message_def enc_message_def)

text \<open>The network serves the program below a base URL.\<close>

definition serves_fakellm :: "codec \<Rightarrow> string \<Rightarrow> 'w http \<Rightarrow> bool" where
  "serves_fakellm c base ht =
     (\<forall>req w path answer. rq_URL req = base @ path \<and> fakellm c path = Some answer \<longrightarrow>
        ht_ParseURL ht (rq_URL req) = Inr ()
        \<and> fst (ht_Do ht req w) = Inr \<lparr>rs_Status = rp_Status answer, rs_Body = (rp_Body answer, None)\<rparr>)"

lemma fakellm_completes:
  assumes "serves_fakellm k base ht" "\<And>j. json_simple j \<Longrightarrow> json_Decode k (json_Marshal k j @ [CHR 0x0A]) = Inr j"
  shows "fst (Complete (Some (LlmClient_New (base @ ''/v1'') key model cap ht k)) ms override n w) = Inr fakeReply"
proof -
  let ?url = "base @ ''/v1/chat/completions''"
  let ?doc = "json_Marshal k (enc_chatResponse [\<lparr>ms_Role = ''assistant'', ms_Content = fakeReply\<rparr>]) @ [CHR 0x0A]"
  have t: "TrimRight (CHR ''/'') (base @ ''/v1'') = base @ ''/v1''"
    using TrimRight_snoc [of "CHR ''/''" "base @ ''/v''" "CHR ''1''"] by simp
  have s: "\<exists>w1. send ht ''POST'' ?url hs body w = (Inr \<lparr>rs_Status = 200, rs_Body = (?doc, None)\<rparr>, w1)" for hs body w
  proof -
    have p: "ht_ParseURL ht ?url = Inr ()" "fst (ht_Do ht (request ''POST'' ?url hs body) w) = Inr \<lparr>rs_Status = 200, rs_Body = (?doc, None)\<rparr>"
      using assms(1) unfolding serves_fakellm_def
      by (auto simp: fakellm_def writeJSON_def dest: spec [of _ "request ''POST'' ?url hs body"])
    then show ?thesis using send_request [OF p(1), of "''POST''" hs body w] by (metis prod.collapse)
  qed
  let ?c = "LlmClient_New (base @ ''/v1'') key model cap ht k"
  let ?body = "json_Marshal k (enc_chatRequest (if override \<noteq> [] then override else model) ms (clamp_tokens (lc_maxTokens ?c) n))"
  obtain w1 where w1: "send ht ''POST'' ?url (chat_headers ?c) ?body w = (Inr \<lparr>rs_Status = 200, rs_Body = (?doc, None)\<rparr>, w1)"
    using s by blast
  have "json_simple (enc_chatResponse [\<lparr>ms_Role = ''assistant'', ms_Content = fakeReply\<rparr>])"
    by (simp add: enc_chatResponse_def enc_message_def)
  then have d: "DecodeBody k \<lparr>rs_Status = 200, rs_Body = (?doc, None)\<rparr> = Inr (enc_chatResponse [\<lparr>ms_Role = ''assistant'', ms_Content = fakeReply\<rparr>])"
    using assms(2) by (simp add: DecodeBody_def)
  have c: "lc_endpoint ?c = base @ ''/v1''" "lc_http ?c = ht" "lc_codec ?c = k" "lc_model ?c = model" "Configured (Some ?c)"
    by (simp_all add: LlmClient_New_def Configured_def t)
  show ?thesis
    using w1 unfolding Complete_def by (cases "override = []") (simp_all add: c d chatResponse_decodes Let_def)
qed

end
