(* ===== verification/DbSpec.thy ===== *)
theory DbSpec
  imports LocalDB
begin

text \<open>
  What backend/pkg/localdb promises, without rows, encryption and texts: three partial functions, and the
  effect and the answer of every operation on them. The operations of LocalDB refine it by the abstraction
  \<open>abs_db\<close>, call by call, for every schedule of failing statements: a call that fails changes nothing.
\<close>

section \<open>The specification\<close>

record Spec =
  sp_credentials :: "string \<Rightarrow> Automation option"
  sp_index :: "string \<Rightarrow> TriggerIndexEntry option"
  sp_cursors :: "string \<times> string \<Rightarrow> EventCursor option"

text \<open>The operations of the package. The first argument of the first one is what the random source gives for a nonce.\<close>

datatype db_call =
    CallUpsertAutomation "string result" Automation
  | CallGetAutomation string
  | CallDeleteAutomation string
  | CallListAutomations
  | CallUpsertTriggerIndexEntry TriggerIndexEntry
  | CallDeleteTriggerIndexEntry string
  | CallListScheduleTriggers
  | CallListEventTriggers
  | CallGetEventCursor string string
  | CallUpsertEventCursor EventCursor
  | CallDeleteEventCursors string
  | CallGetReliability string

text \<open>The answers; the order of a list of rows is left open.\<close>

datatype db_answer =
    Done
  | Failed go_error
  | TheCredential Automation
  | TheCredentials "Automation set"
  | TheEntries "TriggerIndexEntry set"
  | TheCursor EventCursor
  | TheStatus string

text \<open>Instants are kept to the second.\<close>

definition stored_credential :: "Automation \<Rightarrow> Automation" where
  "stored_credential a = a\<lparr>am_ExpiresAt := whole_second (am_ExpiresAt a), am_ConnectedAt := whole_second (am_ConnectedAt a)\<rparr>"

definition stored_cursor :: "EventCursor \<Rightarrow> EventCursor" where
  "stored_cursor c = c\<lparr>ec_LastChecked := whole_second (ec_LastChecked c)\<rparr>"

fun spec_call :: "db_call \<Rightarrow> Spec \<Rightarrow> db_answer \<times> Spec" where
  "spec_call (CallUpsertAutomation (Inl e) a) s = (Failed (Wrap ''encrypt app password'' e), s)"
| "spec_call (CallUpsertAutomation (Inr n) a) s =
     (Done, s\<lparr>sp_credentials := (sp_credentials s)(am_UserID a \<mapsto> stored_credential a)\<rparr>)"
| "spec_call (CallGetAutomation u) s =
     (case sp_credentials s u of None \<Rightarrow> Failed DbNotFound | Some a \<Rightarrow> TheCredential a, s)"
| "spec_call (CallDeleteAutomation u) s = (Done, s\<lparr>sp_credentials := (sp_credentials s)(u := None)\<rparr>)"
| "spec_call CallListAutomations s = (TheCredentials (ran (sp_credentials s)), s)"
| "spec_call (CallUpsertTriggerIndexEntry e) s = (Done, s\<lparr>sp_index := (sp_index s)(ti_WorkflowID e \<mapsto> e)\<rparr>)"
| "spec_call (CallDeleteTriggerIndexEntry i) s = (Done, s\<lparr>sp_index := (sp_index s)(i := None)\<rparr>)"
| "spec_call CallListScheduleTriggers s = (TheEntries {e \<in> ran (sp_index s). ti_TriggerType e = ''schedule''}, s)"
| "spec_call CallListEventTriggers s = (TheEntries {e \<in> ran (sp_index s). ti_TriggerType e = ''event''}, s)"
| "spec_call (CallGetEventCursor u i) s =
     (case sp_cursors s (u, i) of None \<Rightarrow> Failed DbNotFound | Some c \<Rightarrow> TheCursor c, s)"
| "spec_call (CallUpsertEventCursor c) s =
     (Done, s\<lparr>sp_cursors := (sp_cursors s)((ec_UserID c, ec_DriveID c) \<mapsto> stored_cursor c)\<rparr>)"
| "spec_call (CallDeleteEventCursors u) s = (Done, s\<lparr>sp_cursors := (\<lambda>k. if fst k = u then None else sp_cursors s k)\<rparr>)"
| "spec_call (CallGetReliability u) s =
     (TheStatus (if \<exists>c \<in> ran (sp_cursors s). ec_UserID c = u \<and> ec_LastStatus c = ''sse-only''
        then ''sse-only'' else ''full''), s)"

text \<open>A sequence of calls with their answers, some of which may fail.\<close>

inductive spec_runs :: "db_call list \<Rightarrow> db_answer list \<Rightarrow> Spec \<Rightarrow> Spec \<Rightarrow> bool" where
  nothing: "spec_runs [] [] s s"
| answered: "spec_call c s = (r, s1) \<Longrightarrow> spec_runs cs rs s1 s2 \<Longrightarrow> spec_runs (c # cs) (r # rs) s s2"
| failed: "spec_runs cs rs s s2 \<Longrightarrow> spec_runs (c # cs) (Failed e # rs) s s2"

fun spec_run :: "db_call list \<Rightarrow> Spec \<Rightarrow> db_answer list \<times> Spec" where
  "spec_run [] s = ([], s)"
| "spec_run (c # cs) s = (let (r, s1) = spec_call c s; (rs, s2) = spec_run cs s1 in (r # rs, s2))"

section \<open>The operations\<close>

definition answer :: "('a \<Rightarrow> db_answer) \<Rightarrow> 'a result \<times> DB \<Rightarrow> db_answer \<times> DB" where
  "answer f x = (case fst x of Inl e \<Rightarrow> Failed e | Inr y \<Rightarrow> f y, snd x)"

fun run_call :: "gcm \<Rightarrow> db_call \<Rightarrow> DB \<Rightarrow> db_answer \<times> DB" where
  "run_call g (CallUpsertAutomation n a) d = answer (\<lambda>_. Done) (UpsertAutomation g n a d)"
| "run_call g (CallGetAutomation u) d = answer TheCredential (GetAutomation g u d)"
| "run_call g (CallDeleteAutomation u) d = answer (\<lambda>_. Done) (DeleteAutomation u d)"
| "run_call g CallListAutomations d = answer (\<lambda>as. TheCredentials (set as)) (ListAutomations g d)"
| "run_call g (CallUpsertTriggerIndexEntry e) d = answer (\<lambda>_. Done) (UpsertTriggerIndexEntry e d)"
| "run_call g (CallDeleteTriggerIndexEntry i) d = answer (\<lambda>_. Done) (DeleteTriggerIndexEntry i d)"
| "run_call g CallListScheduleTriggers d = answer (\<lambda>es. TheEntries (set es)) (ListScheduleTriggers d)"
| "run_call g CallListEventTriggers d = answer (\<lambda>es. TheEntries (set es)) (ListEventTriggers d)"
| "run_call g (CallGetEventCursor u i) d = answer TheCursor (GetEventCursor u i d)"
| "run_call g (CallUpsertEventCursor c) d = answer (\<lambda>_. Done) (UpsertEventCursor c d)"
| "run_call g (CallDeleteEventCursors u) d = answer (\<lambda>_. Done) (DeleteEventCursors u d)"
| "run_call g (CallGetReliability u) d = answer TheStatus (GetReliability u d)"

fun run_calls :: "gcm \<Rightarrow> db_call list \<Rightarrow> DB \<Rightarrow> db_answer list \<times> DB" where
  "run_calls g [] d = ([], d)"
| "run_calls g (c # cs) d = (let (r, d1) = run_call g c d; (rs, d2) = run_calls g cs d1 in (r # rs, d2))"

section \<open>The abstraction\<close>

definition row_credential :: "gcm \<Rightarrow> Box \<Rightarrow> automation_row \<Rightarrow> Automation option" where
  "row_credential g b r = (case scan_automation g b r of Inl e \<Rightarrow> None | Inr a \<Rightarrow> Some a)"

definition row_cursor :: "cursor_row \<Rightarrow> EventCursor" where
  "row_cursor c = \<lparr>ec_UserID = cr_user_id c, ec_DriveID = cr_drive_id c,
     ec_LastChecked = parse_or_zero (cr_last_checked c), ec_LastStatus = cr_last_status c\<rparr>"

definition abs_db :: "gcm \<Rightarrow> DB \<Rightarrow> Spec" where
  "abs_db g d = \<lparr>sp_credentials = (\<lambda>u. Option.bind (automations_row (db_automations d) u) (row_credential g (db_box d))),
     sp_index = trigger_index_row (db_triggers d),
     sp_cursors = (\<lambda>k. map_option row_cursor (event_cursors_row (db_cursors d) k))\<rparr>"

text \<open>The states the abstraction speaks of: keys are distinct and every credential opens.\<close>

definition readable :: "gcm \<Rightarrow> DB \<Rightarrow> bool" where
  "readable g d = (\<forall>r \<in> set (db_automations d). \<exists>a. scan_automation g (db_box d) r = Inr a)"

definition spec_ok :: "gcm \<Rightarrow> DB \<Rightarrow> bool" where
  "spec_ok g d = (db_ok d \<and> readable g d)"

text \<open>The calls it speaks of: instants with a four-digit year, nonces of the cipher's length.\<close>

fun call_fits :: "db_call \<Rightarrow> bool" where
  "call_fits (CallUpsertAutomation n a) =
     ((case n of Inl e \<Rightarrow> True | Inr x \<Rightarrow> length x = NonceSize) \<and> rfc_range (am_ExpiresAt a) \<and> rfc_range (am_ConnectedAt a))"
| "call_fits (CallUpsertEventCursor c) = rfc_range (ec_LastChecked c)"
| "call_fits _ = True"

section \<open>Simulation\<close>

text \<open>The abstraction depends on the tables and the key only, so a statement that fails leaves it alone.\<close>

lemma abs_db_stmt:
  obtains (ok) d1 where "db_stmt d = (None, d1)" "abs_db g d1 = abs_db g d" "spec_ok g d1 = spec_ok g d" "db_box d1 = db_box d"
  | (fault) e d1 where "db_stmt d = (Some e, d1)" "abs_db g d1 = abs_db g d" "spec_ok g d1 = spec_ok g d" "\<not> no_faults d"
proof (cases rule: db_stmt_cases [of d])
  case (ok d1)
  then show ?thesis using that(1) [of d1] by (simp add: abs_db_def spec_ok_def db_ok_def readable_def)
next
  case (fault e d1)
  then have "\<not> no_faults d" using no_faults_stmt by force
  then show ?thesis using that(2) [of e d1] fault by (simp add: abs_db_def spec_ok_def db_ok_def readable_def)
qed

named_theorems abs_simps \<open>the abstraction of an updated database\<close>

lemma abs_credential_put [abs_simps]:
  assumes "gcm_ok g" "spec_ok g d" "length n = NonceSize" "Seal g (db_box d) (Inr n) (am_AppPassword a) = Inr enc"
    "rfc_range (am_ExpiresAt a)" "rfc_range (am_ConnectedAt a)"
  defines "r \<equiv> \<lparr>ar_user_id = am_UserID a, ar_username = am_Username a, ar_encrypted = enc,
      ar_expires_at = format_rfc3339 (am_ExpiresAt a), ar_connected_at = format_rfc3339 (am_ConnectedAt a)\<rparr>"
  shows "abs_db g (d\<lparr>db_automations := automations_upsert r (db_automations d)\<rparr>) =
      (abs_db g d)\<lparr>sp_credentials := (sp_credentials (abs_db g d))(am_UserID a \<mapsto> stored_credential a)\<rparr>"
    "spec_ok g (d\<lparr>db_automations := automations_upsert r (db_automations d)\<rparr>)"
proof -
  have keys: "pk_ok ar_user_id (db_automations d)" using assms(2) by (simp add: spec_ok_def db_ok_def)
  have scan: "scan_automation g (db_box d) r = Inr (stored_credential a)"
    using scan_sealed [OF assms(1,3,4,5,6)] by (simp add: r_def stored_credential_def)
  then have "row_credential g (db_box d) r = Some (stored_credential a)" "ar_user_id r = am_UserID a"
    by (simp_all add: row_credential_def r_def)
  then show "abs_db g (d\<lparr>db_automations := automations_upsert r (db_automations d)\<rparr>) =
      (abs_db g d)\<lparr>sp_credentials := (sp_credentials (abs_db g d))(am_UserID a \<mapsto> stored_credential a)\<rparr>"
    by (simp add: abs_db_def automations.row_upsert [OF keys] fun_eq_iff)
  show "spec_ok g (d\<lparr>db_automations := automations_upsert r (db_automations d)\<rparr>)"
    using assms(2) scan automations.keys_ok_upsert
    by (auto simp: spec_ok_def db_ok_def readable_def automations.in_upsert_iff)
qed

lemma abs_credential_drop [abs_simps]:
  assumes "spec_ok g d"
  shows "abs_db g (d\<lparr>db_automations := automations_delete u (db_automations d)\<rparr>) =
      (abs_db g d)\<lparr>sp_credentials := (sp_credentials (abs_db g d))(u := None)\<rparr>"
    "spec_ok g (d\<lparr>db_automations := automations_delete u (db_automations d)\<rparr>)"
  using assms automations.keys_ok_remove
  by (auto simp: abs_db_def spec_ok_def db_ok_def readable_def automations.row_remove automations.in_remove_iff fun_eq_iff)

lemma abs_index [abs_simps]:
  assumes "spec_ok g d"
  shows "abs_db g (d\<lparr>db_triggers := trigger_index_upsert e (db_triggers d)\<rparr>) =
      (abs_db g d)\<lparr>sp_index := (sp_index (abs_db g d))(ti_WorkflowID e \<mapsto> e)\<rparr>"
    "spec_ok g (d\<lparr>db_triggers := trigger_index_upsert e (db_triggers d)\<rparr>)"
    "abs_db g (d\<lparr>db_triggers := trigger_index_delete i (db_triggers d)\<rparr>) =
      (abs_db g d)\<lparr>sp_index := (sp_index (abs_db g d))(i := None)\<rparr>"
    "spec_ok g (d\<lparr>db_triggers := trigger_index_delete i (db_triggers d)\<rparr>)"
  using assms trigger_index.keys_ok_upsert trigger_index.keys_ok_remove
  by (simp_all add: abs_db_def spec_ok_def db_ok_def readable_def trigger_index.row_upsert trigger_index.row_remove)

lemma sql_first_by_user:
  "sql_first (\<lambda>c. cursor_key c = k) (sql_delete (\<lambda>c. cr_user_id c = u) rows) =
     (if fst k = u then None else sql_first (\<lambda>c. cursor_key c = k) rows)"
  by (induction rows) (auto simp: sql_delete_def)

lemma abs_cursors [abs_simps]:
  assumes "spec_ok g d"
  shows "rfc_range (ec_LastChecked c) \<Longrightarrow> abs_db g (d\<lparr>db_cursors := event_cursors_upsert (cursor_row_of c) (db_cursors d)\<rparr>) =
      (abs_db g d)\<lparr>sp_cursors := (sp_cursors (abs_db g d))((ec_UserID c, ec_DriveID c) \<mapsto> stored_cursor c)\<rparr>"
    "spec_ok g (d\<lparr>db_cursors := event_cursors_upsert (cursor_row_of c) (db_cursors d)\<rparr>)"
    "abs_db g (d\<lparr>db_cursors := sql_delete (\<lambda>c. cr_user_id c = u) (db_cursors d)\<rparr>) =
      (abs_db g d)\<lparr>sp_cursors := (\<lambda>k. if fst k = u then None else sp_cursors (abs_db g d) k)\<rparr>"
    "spec_ok g (d\<lparr>db_cursors := sql_delete (\<lambda>c. cr_user_id c = u) (db_cursors d)\<rparr>)"
  using assms event_cursors.keys_ok_upsert
  by (auto simp: abs_db_def spec_ok_def db_ok_def readable_def event_cursors.row_upsert cursor_row_of_def row_cursor_def
      stored_cursor_def event_cursors_row_def sql_first_by_user pk_ok_sql_delete fun_eq_iff)

text \<open>What the queries read.\<close>

lemma abs_credential_get:
  assumes "spec_ok g d"
  shows "(case automations_row (db_automations d) u of None \<Rightarrow> Inl DbNotFound
     | Some r \<Rightarrow> (case scan_automation g (db_box d) r of Inl e \<Rightarrow> Inl (Wrap ''decrypt app password'' e) | Inr a \<Rightarrow> Inr a)) =
     (case sp_credentials (abs_db g d) u of None \<Rightarrow> Inl DbNotFound | Some a \<Rightarrow> Inr a)"
proof (cases "automations_row (db_automations d) u")
  case (Some r)
  then have "r \<in> set (db_automations d)" by (auto simp: automations_row_def dest: sql_first_SomeD)
  then obtain a where "scan_automation g (db_box d) r = Inr a" using assms by (auto simp: spec_ok_def readable_def)
  then show ?thesis using Some by (simp add: abs_db_def row_credential_def)
qed (simp add: abs_db_def)

lemma abs_cursor_get:
  "(case event_cursors_row (db_cursors d) (u, i) of None \<Rightarrow> Inl DbNotFound
     | Some c \<Rightarrow> Inr \<lparr>ec_UserID = cr_user_id c, ec_DriveID = cr_drive_id c,
         ec_LastChecked = parse_or_zero (cr_last_checked c), ec_LastStatus = cr_last_status c\<rparr>) =
   (case sp_cursors (abs_db g d) (u, i) of None \<Rightarrow> Inl DbNotFound | Some c \<Rightarrow> Inr c)"
  by (simp add: abs_db_def row_cursor_def split: option.split)

lemma scan_automations_all:
  "\<forall>r \<in> set rows. \<exists>a. scan_automation g b r = Inr a \<Longrightarrow>
   \<exists>as. scan_automations g b rows = Inr as \<and> set as = {a. \<exists>r \<in> set rows. scan_automation g b r = Inr a}"
proof (induction rows)
  case (Cons r rows)
  then obtain a as where "scan_automation g b r = Inr a" "scan_automations g b rows = Inr as"
    "set as = {a. \<exists>r \<in> set rows. scan_automation g b r = Inr a}" by auto
  then show ?case by auto
qed simp

lemma abs_credential_list:
  assumes "spec_ok g d"
  shows "\<exists>as. scan_automations g (db_box d) (db_automations d) = Inr as \<and> set as = ran (sp_credentials (abs_db g d))"
proof -
  have keys: "pk_ok ar_user_id (db_automations d)" using assms by (simp add: spec_ok_def db_ok_def)
  obtain as where as: "scan_automations g (db_box d) (db_automations d) = Inr as"
    "set as = {a. \<exists>r \<in> set (db_automations d). scan_automation g (db_box d) r = Inr a}"
    using scan_automations_all assms unfolding spec_ok_def readable_def by blast
  have scan: "row_credential g (db_box d) r = Some a \<longleftrightarrow> scan_automation g (db_box d) r = Inr a" for r a
    by (auto simp: row_credential_def split: sum.split)
  have "a \<in> ran (sp_credentials (abs_db g d)) \<longleftrightarrow> (\<exists>r \<in> set (db_automations d). scan_automation g (db_box d) r = Inr a)" for a
    unfolding ran_def abs_db_def by (simp add: bind_eq_Some_conv scan automations.row_iff [OF keys]) blast
  then have "ran (sp_credentials (abs_db g d)) = {a. \<exists>r \<in> set (db_automations d). scan_automation g (db_box d) r = Inr a}"
    by blast
  then show ?thesis using as by simp
qed

lemma abs_index_list:
  assumes "spec_ok g d"
  shows "set (sql_select (\<lambda>e. ti_TriggerType e = t) (db_triggers d)) = {e \<in> ran (sp_index (abs_db g d)). ti_TriggerType e = t}"
proof -
  have "pk_ok ti_WorkflowID (db_triggers d)" using assms by (simp add: spec_ok_def db_ok_def)
  from trigger_index.row_iff [OF this] show ?thesis by (auto simp: ran_def abs_db_def sql_select_def)
qed

lemma abs_reliability:
  assumes "spec_ok g d"
  shows "(\<exists>c \<in> set (db_cursors d). cr_user_id c = u \<and> cr_last_status c = st) \<longleftrightarrow>
    (\<exists>c \<in> ran (sp_cursors (abs_db g d)). ec_UserID c = u \<and> ec_LastStatus c = st)"
proof -
  have "pk_ok cursor_key (db_cursors d)" using assms by (simp add: spec_ok_def db_ok_def)
  from event_cursors.row_iff [OF this] have "ran (sp_cursors (abs_db g d)) = row_cursor ` set (db_cursors d)"
    by (auto simp: ran_def abs_db_def image_iff)
  then show ?thesis by (auto simp: row_cursor_def)
qed

section \<open>Refinement\<close>

lemma answer_exec: "answer (\<lambda>_. Done) (db_exec f d) =
    (case db_stmt d of (Some e, d1) \<Rightarrow> (Failed e, d1) | (None, d1) \<Rightarrow> (Done, f d1))"
  by (simp add: answer_def db_exec_def split: prod.split option.split)

lemma answer_query: "answer h (db_query f d) =
    (case db_stmt d of (Some e, d1) \<Rightarrow> (Failed e, d1)
     | (None, d1) \<Rightarrow> (case f d1 of Inl e \<Rightarrow> Failed e | Inr x \<Rightarrow> h x, d1))"
  by (simp add: answer_def db_query_def split: prod.split option.split)

lemmas run_call_defs = UpsertAutomation_def GetAutomation_def DeleteAutomation_def ListAutomations_def
  UpsertTriggerIndexEntry_def DeleteTriggerIndexEntry_def ListScheduleTriggers_def ListEventTriggers_def
  listTriggers_def GetEventCursor_def UpsertEventCursor_def DeleteEventCursors_def GetReliability_def

text \<open>One call: it fails and changes nothing, which needs a failing statement, or it does what the specification says.\<close>

lemma call_refines:
  assumes "gcm_ok g" "spec_ok g d" "call_fits c" "run_call g c d = (r, d1)"
  shows "spec_ok g d1 \<and> ((\<not> no_faults d \<and> (\<exists>e. r = Failed e) \<and> abs_db g d1 = abs_db g d)
    \<or> spec_call c (abs_db g d) = (r, abs_db g d1))"
proof (cases rule: abs_db_stmt [of d g])
  case (fault e d2)
  then show ?thesis
  proof (cases c)
    case (CallUpsertAutomation n a)
    then show ?thesis using fault assms
      by (cases n; cases "Seal g (db_box d) n (am_AppPassword a)")
        (simp_all add: UpsertAutomation_def Seal_def answer_exec, auto simp: answer_def)
  qed (use fault assms in \<open>auto simp: run_call_defs answer_exec answer_query\<close>)
next
  case (ok d2)
  note ok2 = ok(3) [THEN iffD2, OF assms(2)]
  show ?thesis
  proof (cases c)
    case (CallUpsertAutomation n a)
    show ?thesis
    proof (cases n)
      case (Inl e)
      then show ?thesis using CallUpsertAutomation assms by (auto simp: UpsertAutomation_def Seal_error answer_def)
    next
      case (Inr x)
      obtain enc where enc: "Seal g (db_box d) (Inr x) (am_AppPassword a) = Inr enc" using Seal_total by blast
      have f: "length x = NonceSize" "rfc_range (am_ExpiresAt a)" "rfc_range (am_ConnectedAt a)"
        using assms(3) CallUpsertAutomation Inr by simp_all
      show ?thesis
        using assms(4) ok CallUpsertAutomation Inr enc abs_credential_put [OF assms(1) ok2 f(1) _ f(2,3), of enc]
        by (auto simp: UpsertAutomation_def answer_exec)
    qed
  next
    case (CallGetAutomation u)
    then show ?thesis using assms(4) ok ok2
      by (auto simp: GetAutomation_def answer_query abs_credential_get [OF ok2] split: option.splits)
  next
    case CallListAutomations
    then show ?thesis using assms(4) ok ok2 abs_credential_list [OF ok2] by (auto simp: ListAutomations_def answer_query)
  next
    case (CallGetEventCursor u i)
    then show ?thesis using assms(4) ok ok2
      by (auto simp: GetEventCursor_def answer_query abs_cursor_get [of d2 u i g] split: option.splits)
  next
    case (CallGetReliability u)
    then show ?thesis using assms(4) ok ok2
      by (auto simp: GetReliability_def answer_query GetReliability_select abs_reliability [OF ok2])
  qed (use assms(3,4) ok ok2 in \<open>auto simp: run_call_defs answer_exec answer_query abs_simps abs_index_list [OF ok2]
    cong: if_cong\<close>)
qed

lemma run_call_no_faults:
  assumes "no_faults d" "run_call g c d = (r, d1)"
  shows "no_faults d1"
proof (cases c)
  case (CallUpsertAutomation n a)
  then show ?thesis using assms
    by (cases "Seal g (db_box d) n (am_AppPassword a)") (auto simp: UpsertAutomation_def answer_def no_faults_exec)
qed (use assms in \<open>auto simp: run_call_defs answer_def no_faults_exec no_faults_query\<close>)

text \<open>
  C12. The database refines its specification: for every sequence of calls and every schedule of failing
  statements, the answers and the final state are what the specification allows, in which a failed
  call changes nothing; when no statement fails, they are exactly what it computes. Credentials
  come back decrypted, whatever the cipher, and instants come back cut to the second.
\<close>

theorem localdb_refines:
  assumes "gcm_ok g" "spec_ok g d" "\<forall>c \<in> set cs. call_fits c" "run_calls g cs d = (rs, d')"
  shows "spec_ok g d' \<and> spec_runs cs rs (abs_db g d) (abs_db g d')
    \<and> (no_faults d \<longrightarrow> spec_run cs (abs_db g d) = (rs, abs_db g d'))"
  using assms(2-4)
proof (induction cs arbitrary: d rs)
  case Nil
  then show ?case by (simp add: spec_runs.nothing)
next
  case (Cons c cs)
  obtain r d1 where c: "run_call g c d = (r, d1)" by fastforce
  obtain rs1 where rest: "run_calls g cs d1 = (rs1, d')" "rs = r # rs1"
    using Cons.prems(3) c by (auto split: prod.splits)
  note one = call_refines [OF assms(1) Cons.prems(1) _ c] 
  have IH: "spec_ok g d' \<and> spec_runs cs rs1 (abs_db g d1) (abs_db g d')
      \<and> (no_faults d1 \<longrightarrow> spec_run cs (abs_db g d1) = (rs1, abs_db g d'))"
    using Cons.IH [OF _ _ rest(1)] one Cons.prems(2) by simp
  have "spec_runs (c # cs) rs (abs_db g d) (abs_db g d')"
    using one Cons.prems(2) IH rest(2) by (auto intro: spec_runs.answered spec_runs.failed)
  moreover have "spec_run (c # cs) (abs_db g d) = (rs, abs_db g d')" if "no_faults d"
    using one Cons.prems(2) IH rest(2) run_call_no_faults [OF that c] that by simp
  ultimately show ?case using IH by blast
qed

theorem localdb_refines_witness:
  "fst (run_calls demo_gcm [CallUpsertAutomation (Inr (replicate 12 CHR ''n'')) demo_automation, CallGetAutomation ''u1'',
      CallGetReliability ''u1''] demo_db) =
   [Done, TheCredential (demo_automation\<lparr>am_ExpiresAt := 1724166769 * second\<rparr>), TheStatus ''full'']"
proof -
  let ?cs = "[CallUpsertAutomation (Inr (replicate 12 CHR ''n'')) demo_automation, CallGetAutomation ''u1'', CallGetReliability ''u1'']"
  have ok: "spec_ok demo_gcm demo_db" by (simp add: spec_ok_def) (simp add: readable_def demo_db_def)
  have fits: "\<forall>c \<in> set ?cs. call_fits c" by (simp add: NonceSize_def demo_automation_def rfc_range_def)
  obtain rs d' where r: "run_calls demo_gcm ?cs demo_db = (rs, d')" by fastforce
  have "spec_run ?cs (abs_db demo_gcm demo_db) = (rs, abs_db demo_gcm d')"
    using localdb_refines [OF demo_gcm_ok ok fits r] demo_db_ok(2) by blast
  moreover have "sp_cursors (abs_db demo_gcm demo_db) k = None" for k
    by (simp add: abs_db_def demo_db_def event_cursors_row_def)
  ultimately have "rs = [Done, TheCredential (stored_credential demo_automation), TheStatus ''full'']"
    by (auto simp: demo_automation_def ran_def)
  then show ?thesis unfolding r by (simp add: demo_automation_def stored_credential_def whole_second_def)
qed

end
