(* ===== verification/Spec2Isabelle.thy ===== *)
theory Spec2Isabelle
  imports EndToEndExample CommandLine FakeLlm DbSpec
begin

text \<open>
  \<^bold>\<open>A model of the oCIS Workflows backend\<close> (the Go service under src/backend).

  \<^bold>\<open>The program.\<close> The service lets users run workflows on their files in an ownCloud Infinite Scale (oCIS)
  instance. A workflow is a graph of nodes (LLM prompts, text extraction, file actions) with a
  trigger: manual, a cron schedule, or a file event. Definitions and execution records are JSON files in
  the folder .workflows of the user's own space, reached over WebDAV with the user's own credentials. The
  service itself keeps one SQLite database: encrypted app-passwords for background runs, an index of
  triggers, and cursors into oCIS's activity log. Runs start from the REST API, from the scheduler, from a stream
  of server-sent events per user, or from the reconciler, which catches up from the activity log after a stream
  was down.

  \<^bold>\<open>Conventions.\<close> Go strings are byte strings, so are Isabelle strings here. An error is a \<open>go_error\<close> and a call
  that can fail returns \<open>go_error + 'a\<close>. Instants and durations are integers in nanoseconds; Go's
  saturating subtraction is \<open>time_sub\<close>. The outside (oCIS, the LLM, the clock, randomness, other processes) is a state of an
  arbitrary type \<open>'w\<close>, passed through every operation that reaches it; a client of the outside is a record of
  functions on it. Libraries that are not part of the repository are parameters: the HTTP transport, the JSON text codec,
  the XML, zip and PDF readers, AES-GCM, the cron parser, the notification library, the chi router with CORS. What is
  assumed of one stands as a named predicate (\<open>gcm_ok\<close>, \<open>range_ok\<close>, \<open>nonce_ok\<close>, \<open>sort_ok\<close>, \<open>dav_server\<close>) in the theorems that need it.

  \<^bold>\<open>Theories and sources\<close> (paths below src/backend/pkg; cmd/ is below src/backend):
  \<^item> GoPrelude, GoTime, GoBase64, GoJson, Http: what the code uses of Go's library: strings, errors, time
    and RFC 3339, base64, JSON values and struct tags, requests and responses.
  \<^item> Model, ModelJson: model/workflow.go, the resources and their JSON form; decoding an encoded resource gives
    it back (the lemmas collected in \<open>enc_dec\<close>).
  \<^item> SecretBox, LocalDB, DbSpec, DbEvolution: secretbox/, localdb/localdb.go. Tables are row lists, a statement succeeds or
    fails as the schedule \<open>db_faults\<close> says; \<open>keyed_table\<close> is the contract of a table with a primary key. DbSpec is the
    abstract specification of the package, three partial functions, which LocalDB refines. DbEvolution says how
    the database may change at all, for the invariants.
  \<^item> World, Runtime, InternalPath: the interfaces of the background engines, the step that loads, runs and records
    a workflow, and the test for the service's own folder (webdavstore/store.go).
  \<^item> TextExtract, GraphWalk, Templates, Executor: textextract/, executor/executor.go. The walk over the graph, the
    substitution of variables, every kind of node, and the loop over the nodes.
  \<^item> Scheduler: scheduler/scheduler.go. SSEStream, SSEManager: sse/manager.go, the event parser and dispatch, and the
    manager with its consumer goroutines as a step relation. Reconciler, PassSteps: reconcile/, a catch-up pass as a
    function and step by step. AutomationService, RenewSteps: automation/,
    with the contract \<open>credential_store\<close> between the service and the database, and the renewal sweep step by step.
  \<^item> OcisClient: ocisclient/. WebdavStore, WebdavServer, WebdavExample: webdavstore/store.go, the contract of a
    WebDAV server, and one such server for concrete runs. WebdavFile: webdavfile/webdavfile.go. Llm: llm/client.go.
    Notify: notify/notify.go.
  \<^item> Config: config/config.go. RestApi, Auth: auth/auth.go and the response helpers. WorkflowsHandler,
    WorkflowsApi, WorkflowsExample, ServiceHandlers: service/. HttpServer: server/http/server.go. System, SystemInvariants,
    SystemExample: command/server.go, the wiring of all components, the loops that \<^verbatim>\<open>RunServer\<close> starts, their interleaving
    with all goroutines as the step relation \<open>sys_step\<close>, and its invariants.
  \<^item> EndToEnd, EndToEndExample: from a reported event, or a due schedule, to the execution record that the API serves,
    through all components. CommandLine: cmd/workflows/main.go, command/root.go, command/health.go, server/debug/server.go and
    logging/logging.go. FakeLlm: cmd/fakellm/main.go, the LLM endpoint of the test setups.

  \<^bold>\<open>What is shown.\<close> Per component, its functional behaviour on every branch that matters: which workflows an event or an
  activity starts and where both paths agree; that passes leave no gap in the activity log; that
  schedules are followed; what an execution record reports; that the graph walk ends and covers what is
  reachable; that credentials survive renewal and come back from the database; that definitions and records come back from
  WebDAV and from the REST API; that moves never overwrite and comments accumulate; that notification targets
  inside private networks, IPv4 or IPv6, are refused; that the token limit of a completion is kept. For the whole: the
  invariants of every reachable state of the backend, here below, that the semaphore is safe and fair, that an event trigger
  gets its stream, that after the shutdown no work comes in, and that no request reaches another user's rows. The
  states reached include those after a crash or a restart on the same database file. Across the components: an event that matches
  a trigger, and a schedule that is due, leave an execution record that the API serves to the owner, and the health check of the
  command line tells whether the backend serves. The database refines its specification call by call. Lemmas
  relate the grains of the model: the steps of a catch-up pass and of a renewal sweep, run without interruption, are the pass
  and the sweep as one function.

  \<^bold>\<open>Bounds and fuel.\<close> The graph walk and all loops over data terminate by measure. The one loop that may run for ever, the
  consumer of a user's stream, takes a number of turns; the properties hold for every number. The id counter of
  the SSE manager is a 64-bit word, and the statements that rely on its ids say that fewer than 2^64 consumers were started.

  \<^bold>\<open>Granularity.\<close> In \<open>sys_step\<close> a request, a tick, and one workflow run are one step each; a stream delivers its events one by one
  (or, in a rule of its own, all at once), and handling an event is one step; a
  catch-up pass takes one step per wait: for its slot, for each call to the database or to oCIS, and for each workflow it
  runs; a renewal sweep takes one step per call to oCIS or the database. Interleavings inside one of
  the coarse steps are not modelled, except that the world may change between any two calls, because it is a parameter. The context of the server's group is done from some point on, when a signal
  comes or a server fails, as its library documents; a loop whose context is done may still take a tick before it
  returns, because select takes any ready case. After all functions of the
  server have returned, work that was already under way (scheduled runs, spawned goroutines, catch-up passes) may go on, because
  the code does not wait for it; the model leaves it running as long as the process lives. The races of the code that were found are run by hand in lemmas:
  \<open>deleted_between_put_and_sync\<close>, \<open>overlapping_passes_dispatch_twice\<close>, \<open>disconnected_during_renewal\<close>. Panics, logging, metrics, deadlines, and the connection
  pools of the HTTP clients are left out.

  \<^bold>\<open>Not modelled.\<close> What is logged: of the logger, only its level. The frontend is TypeScript. The SQL engine, the cipher and the parsers named above are not in the
  repository.
\<close>

section \<open>The whole backend\<close>

text \<open>
  C7. The invariants of the running backend: from a fresh database, however requests, ticks, streams,
  runs, catch-up passes, renewals, failing statements, shutdowns, crashes and restarts on the same
  database interleave, the primary keys of
  all three tables stay distinct, and a user never has two consumers whose contexts are both alive, as long as fewer
  than 2^64 consumers were started.
\<close>

theorem system_invariant:
  assumes "sys_reach cfg out s" "range_ok (ou_platform out)" "gcm_ok (ou_gcm out)" "nonce_ok (ou_platform out)"
    "mg_contexts (sy_mgr s) < 2 ^ 64" "{g, h} \<subseteq> set (mg_running (sy_mgr s))"
    "go_ctx g \<notin> set (mg_cancelled (sy_mgr s))" "go_ctx h \<notin> set (mg_cancelled (sy_mgr s))" "go_user g = go_user h"
  shows "db_ok (sy_db s) \<and> g = h"
proof -
  have ok: "sys_ok cfg out s" by (rule sys_reach_ok [OF assms(2-4,1)])
  then have "mgr_ok (sy_mgr s)" using mgr_reach_ok assms(5) by (simp add: sys_ok_def)
  then show ?thesis using live_unique [of "sy_mgr s" g h] ok assms(6-9) by (simp add: sys_ok_def)
qed

text \<open>
  C2. Background work acts for its owner only: in every reachable state of the backend, a credential
  read from the database for a user is one that oCIS minted for a bearer it names as this user, or for the credential
  the user had before; and every open stream and every catch-up pass of a user sends the header of such a
  credential.
\<close>

theorem background_acts_for_owner:
  assumes "sys_reach cfg out s" "range_ok (ou_platform out)" "gcm_ok (ou_gcm out)" "nonce_ok (ou_platform out)"
  shows "(\<forall>u a db'. GetAutomation (ou_gcm out) u (sy_db s) = (Inr a, db') \<longrightarrow> own_header (the_service cfg out) u (BasicAuth a))
    \<and> (\<forall>(g, auth) \<in> set (sy_streams s). own_header (the_service cfg out) (go_user g) auth)
    \<and> (\<forall>p \<in> set (sy_passes s). own_header (the_service cfg out) (ps_user p) (ps_auth p))"
proof -
  have ok: "sys_ok cfg out s" by (rule sys_reach_ok [OF assms(2-4,1)])
  then have c: "creds_all (ou_gcm out) (own_credential (the_service cfg out)) (sy_db s)" by (simp add: sys_ok_def)
  show ?thesis
    using ok creds_all_get [OF c] by (fastforce simp: sys_ok_def owners_ok_def own_header_def)
qed

text \<open>
  C11. The rows of the database are well typed in every reachable state: an index entry is a schedule without the
  fields of an event or an event without a schedule, a cursor's status is "full" or "sse-only", and every stored
  instant is an RFC 3339 text.
\<close>

theorem rows_well_typed:
  assumes "sys_reach cfg out s" "range_ok (ou_platform out)" "gcm_ok (ou_gcm out)" "nonce_ok (ou_platform out)"
  shows "rows_typed (sy_db s)"
  using sys_reach_ok [OF assms(2-4,1)] by (simp add: sys_ok_def)

text \<open>
  C8. The semaphore of the catch-up passes: in every reachable state of the backend at most ten passes are past
  its wait, and no pass is locked out: from every reachable state in which a pass waits for a slot, the backend
  can go on so that this pass gets one, because the passes that hold the slots can always run to their end.
\<close>

theorem semaphore_fair:
  assumes "sys_reach cfg out s"
  shows "length (holding (sy_passes s)) \<le> 10
    \<and> (\<forall>p \<in> set (sy_passes s). ps_point p = Waiting \<longrightarrow>
         (\<exists>s'. (sys_step cfg out)\<^sup>*\<^sup>* s s' \<and> p\<lparr>ps_point := Listing\<rparr> \<in> set (sy_passes s')))"
  using sys_reach_slots [OF assms] waiting_pass_starts [of _ s cfg out]
  by (simp add: the_reconciler_def reconcileMaxConcurrent_def)

text \<open>
  C10. An event trigger comes to life: from every reachable state in which the manager's loop runs, the trigger index
  holds an event trigger and the credential of its user can be read, two steps lead to a state in which a consumer of
  this user runs with a live context and has the header for its stream.
\<close>

theorem event_trigger_gets_stream:
  assumes "sys_reach cfg out s" "range_ok (ou_platform out)" "ManagerLoop \<in> set (sy_loops s)" "\<not> mg_root (sy_mgr s)"
    "mg_contexts (sy_mgr s) < 2 ^ 64" "no_faults (sy_db s)" "e \<in> set (db_triggers (sy_db s))" "ti_TriggerType e = ''event''"
    "fst (GetAutomation (ou_gcm out) (ti_UserID e) (sy_db s)) = Inr a"
  shows "\<exists>s' g auth. (sys_step cfg out)\<^sup>*\<^sup>* s s' \<and> (g, auth) \<in> set (sy_streams s') \<and> go_user g = ti_UserID e
    \<and> g \<in> set (mg_running (sy_mgr s')) \<and> \<not> ctx_done (sy_mgr s') (go_ctx g)"
proof -
  obtain m w g where m: "sys_step cfg out s (s\<lparr>sy_mgr := m, sy_world := w\<rparr>)" "g \<in> set (mg_running m)"
    "\<not> ctx_done m (go_ctx g)" "go_user g = ti_UserID e" by (rule manager_turn [OF assms(1-8)])
  let ?s1 = "s\<lparr>sy_mgr := m, sy_world := w\<rparr>"
  show ?thesis
  proof (cases "g \<in> fst ` set (sy_streams s)")
    case True
    then obtain auth where "(g, auth) \<in> set (sy_streams ?s1)" by auto
    then show ?thesis using m(2-4) r_into_rtranclp [of "sys_step cfg out", OF m(1)] by (intro exI [of _ ?s1] exI [of _ g] exI [of _ auth]) simp
  next
    case False
    have a: "GetAutomation (ou_gcm out) (go_user g) (sy_db ?s1) = (Inr a, sy_db s)"
      using assms(6,9) m(4) by (simp add: GetAutomation_def no_faults_query)
    have st: "sys_step cfg out ?s1 (?s1\<lparr>sy_db := sy_db s, sy_streams := (g, BasicAuth a) # sy_streams ?s1\<rparr>)"
      by (rule consumer_started [OF _ _ a]) (use m(2) False in simp_all)
    then have "(sys_step cfg out)\<^sup>*\<^sup>* s (?s1\<lparr>sy_db := sy_db s, sy_streams := (g, BasicAuth a) # sy_streams ?s1\<rparr>)"
      using m(1) by (meson rtranclp.rtrancl_into_rtrancl r_into_rtranclp)
    then show ?thesis using m(2-4)
      by (intro exI [of _ "?s1\<lparr>sy_db := sy_db s, sy_streams := (g, BasicAuth a) # sy_streams ?s1\<rparr>"] exI [of _ g] exI [of _ "BasicAuth a"]) simp
  qed
qed

text \<open>
  C9. The shutdown: once the group's context is done, all functions of the server can return. When they have,
  no user has a consumer, the context of every consumer goroutine that still runs is done, and no new work comes in:
  the runs of the scheduler, the goroutines spawned by streams, and the catch-up passes, asked for or admitted, that
  are there at any later point were there when the functions returned, each at most as often; no stored credential and no
  index entry changes any more. Work that was there may go on until the process exits: the code does not wait for it, so
  a scheduled run may still run, and a pass that was asked for may still be admitted and run its workflows.
\<close>

theorem stopped_backend_quiet:
  assumes "sys_reach cfg out s" "mg_root (sy_mgr s)"
  shows "(\<exists>s'. (sys_step cfg out)\<^sup>*\<^sup>* s s' \<and> sy_loops s' = [])
    \<and> (sy_loops s = [] \<longrightarrow> mg_active (sy_mgr s) = [] \<and> (\<forall>g \<in> set (mg_running (sy_mgr s)). ctx_done (sy_mgr s) (go_ctx g))
        \<and> (\<forall>s'. (sys_step cfg out)\<^sup>*\<^sup>* s s' \<longrightarrow>
             db_automations (sy_db s') = db_automations (sy_db s) \<and> db_triggers (sy_db s') = db_triggers (sy_db s)
             \<and> mset (sy_scheduled s') \<subseteq># mset (sy_scheduled s) \<and> mset (sy_spawned s') \<subseteq># mset (sy_spawned s)
             \<and> catch_up s' \<subseteq># catch_up s))"
proof -
  have st: "stopped s" if "sy_loops s = []"
    using sys_reach_idle [OF assms(1)] sys_reach_asleep [OF assms(1)] that by (simp add: stopped_def)
  have after: "db_automations (sy_db s') = db_automations (sy_db s) \<and> db_triggers (sy_db s') = db_triggers (sy_db s)
      \<and> mset (sy_scheduled s') \<subseteq># mset (sy_scheduled s) \<and> mset (sy_spawned s') \<subseteq># mset (sy_spawned s)
      \<and> catch_up s' \<subseteq># catch_up s"
    if "sy_loops s = []" "(sys_step cfg out)\<^sup>*\<^sup>* s s'" for s'
    using stopped_steps [OF that(2) st [OF that(1)]] by (simp add: same_rows_def no_more_work_def)
  have now: "mg_active (sy_mgr s) = [] \<and> (\<forall>g \<in> set (mg_running (sy_mgr s)). ctx_done (sy_mgr s) (go_ctx g))"
    if "sy_loops s = []"
    using st [OF that] by (simp add: stopped_def mgr_idle_def ctx_done_def)
  have "\<exists>s'. (sys_step cfg out)\<^sup>*\<^sup>* s s' \<and> sy_loops s' = []" using shutdown_completes [OF assms(2)] by blast
  then show ?thesis using after now by blast
qed

text \<open>A path at which the service keeps a file of its own.\<close>

definition own_path :: "string \<Rightarrow> bool" where
  "own_path p = (\<exists>i j. p \<in> {''/'' @ rootDir @ ''/'' @ definitionsDir @ ''/'' @ i @ ''.json'',
     ''/'' @ rootDir @ ''/'' @ executionsDir @ ''/'' @ i @ ''/'' @ j @ ''.json'', ''/'' @ sidecarPath i})"

lemma own_path_internal: "own_path p \<Longrightarrow> IsInternalPath p"
  using internal_below(2) [of "definitionsDir @ _"] internal_below(2) [of "executionsDir @ _"]
  by (auto simp: own_path_def sidecarPath_def IsInternalPath_def TrimPrefix_def rootDir_def HasPrefix_def)

text \<open>
  C29. What an event or a logged activity on a file that the service keeps (a definition, an execution record, a comment
  file) starts. The catch-up pass starts nothing, whether oCIS finds the path of the item or not. The live stream starts
  nothing when the path is found, whatever the triggers are. When it is not found, the guard against the service's
  own files sees an empty path and lets the event through: the live stream then starts workflows of the user on an empty
  path, though only those whose trigger asks for no path and no extension.
\<close>

theorem own_files_trigger_nothing:
  assumes "own_path p" "en_ItemPath en auth space item w = (found, w1)" "found = Inr p \<or> isl found"
    "decode_payload c data = Inr \<lparr>ep_ItemID = item, ep_SpaceID = space\<rparr>" "splitResourceID (ac_ResourceID a) = Some (sp, item)"
  shows "dispatch en entries u auth space a w \<in> {w, w1}
    \<and> (if space \<noteq> [] \<and> item \<noteq> [] \<and> found = Inr p then fst (handleEvent en c u auth evt data db w) = []
       else \<forall>(i, q) \<in> set (fst (handleEvent en c u auth evt data db w)). q = []
         \<and> (\<exists>e \<in> set (db_triggers db). ti_WorkflowID e = i \<and> ti_UserID e = u \<and> ti_PathPrefix e = [] \<and> ti_Extension e = []))"
proof -
  let ?pl = "\<lparr>ep_ItemID = item, ep_SpaceID = space\<rparr>"
  have i: "IsInternalPath p" by (rule own_path_internal [OF assms(1)])
  have d: "dispatch en entries u auth space a w \<in> {w, w1}"
    using assms(2,3,5) i by (cases found) (auto simp: dispatch_def split: option.split)
  obtain q w2 where e: "event_path en auth ?pl w = (q, w2)" by (cases "event_path en auth ?pl w")
  then have q: "q = (if space \<noteq> [] \<and> item \<noteq> [] \<and> found = Inr p then p else [])"
    using assms(2,3) by (cases found) (auto simp: event_path_def split: if_splits)
  have live: "x \<in> set (fst (handleEvent en c u auth evt data db w)) \<Longrightarrow>
      \<exists>t es. (\<exists>db1. ListEventTriggers db = (Inr es, db1)) \<and> x \<in> set (dispatched u t q space es)" for x
    using assms(4) e by (auto simp: handleEvent_def handle_entries_spec split: option.splits sum.splits prod.splits if_splits)
  show ?thesis
  proof (cases "space \<noteq> [] \<and> item \<noteq> [] \<and> found = Inr p")
    case True
    then have "fst (handleEvent en c u auth evt data db w) = []"
      using live q i by (cases "fst (handleEvent en c u auth evt data db w)") (auto simp: dispatched_def)
    then show ?thesis using d True by simp
  next
    case False
    then have "q = []" using q by auto
    have "snd x = [] \<and> (\<exists>e \<in> set (db_triggers db). ti_WorkflowID e = fst x \<and> ti_UserID e = u \<and> ti_PathPrefix e = [] \<and> ti_Extension e = [])"
      if x: "x \<in> set (fst (handleEvent en c u auth evt data db w))" for x
    proof -
      obtain t es db1 where es: "ListEventTriggers db = (Inr es, db1)" "x \<in> set (dispatched u t [] space es)"
        using live [OF x] \<open>q = []\<close> by blast
      have "set es \<subseteq> set (db_triggers db)"
        using es(1) by (auto simp: ListEventTriggers_def listTriggers_def db_query_def db_stmt_def sql_select_def split: prod.splits option.splits list.splits)
      then show ?thesis using es(2) by (auto simp: dispatched_unresolved candidate_def)
    qed
    then show ?thesis using d False by auto
  qed
qed

section \<open>Concrete runs\<close>

theorem system_invariant_witness:
  "db_ok (sy_db demo_state) \<and> mg_running (sy_mgr demo_state) = [demo_consumer]"
  using system_invariant [OF demo_state_reached demo_outside_ok, of demo_consumer demo_consumer] consumer_runs
  by (simp add: demo_state_def)

theorem background_acts_for_owner_witness:
  "own_header (the_service demo_cfg demo_outside) ''u1'' (BasicAuth (cred_norm fresh_credential))
   \<and> sy_streams waiting_state = [(demo_consumer, BasicAuth (cred_norm fresh_credential))]
   \<and> sy_passes waiting_state = [waiting_pass]"
  using background_acts_for_owner [OF waiting_state_reached demo_outside_ok]
  by (simp add: waiting_state_def demo_state_def demo_consumer_def)

theorem rows_well_typed_witness: "rows_typed (sy_db demo_state) \<and> db_triggers (sy_db demo_state) \<noteq> []"
proof -
  have "ListEventTriggers (sy_db demo_state) = (Inr [trigger_entry ''u1'' fresh_workflow], indexed_db)"
    using indexed_facts(1) by (simp add: demo_state_def)
  then have "db_triggers indexed_db \<noteq> []"
    by (auto simp: ListEventTriggers_def listTriggers_def db_query_def sql_select_def split: prod.splits option.splits)
  then have "db_triggers (sy_db demo_state) \<noteq> []" by (simp add: demo_state_def)
  then show ?thesis using rows_well_typed [OF demo_state_reached demo_outside_ok] by simp
qed

theorem semaphore_fair_witness:
  "sy_passes waiting_state = [waiting_pass] \<and>
   (\<exists>s. (sys_step demo_cfg demo_outside)\<^sup>*\<^sup>* waiting_state s \<and> waiting_pass\<lparr>ps_point := Listing\<rparr> \<in> set (sy_passes s))"
proof -
  have "sy_passes waiting_state = [waiting_pass]" "ps_point waiting_pass = Waiting"
    by (simp_all add: waiting_state_def waiting_pass_def)
  then show ?thesis using semaphore_fair [OF waiting_state_reached] by simp
qed

theorem event_trigger_gets_stream_witness:
  "sy_streams indexed_state = [] \<and> (\<exists>s g auth. (sys_step demo_cfg demo_outside)\<^sup>*\<^sup>* indexed_state s
     \<and> (g, auth) \<in> set (sy_streams s) \<and> go_user g = ''u1'')"
proof -
  have e: "ti_TriggerType (trigger_entry ''u1'' fresh_workflow) = ''event''" "ti_UserID (trigger_entry ''u1'' fresh_workflow) = ''u1''"
    by (simp_all add: trigger_entry_def fresh_workflow_def new_workflow_def)
  have s: "sy_db indexed_state = indexed_db" "ManagerLoop \<in> set (sy_loops indexed_state)" "\<not> mg_root (sy_mgr indexed_state)"
    "mg_contexts (sy_mgr indexed_state) < 2 ^ 64" "sy_streams indexed_state = []"
    by (simp_all add: indexed_state_def sys_start_def all_loops_def Kick_def manager_New_def)
  show ?thesis
    using event_trigger_gets_stream [OF indexed_state_reached demo_outside_ok(1) s(2-4), of "trigger_entry ''u1'' fresh_workflow"]
      indexed_facts indexed_rows e s by fastforce
qed

theorem stopped_backend_quiet_witness:
  "\<exists>s. sys_reach demo_cfg demo_outside s \<and> sy_loops s = [] \<and> mg_running (sy_mgr s) = [demo_consumer]
     \<and> mg_active (sy_mgr s) = [] \<and> ctx_done (sy_mgr s) (go_ctx demo_consumer)"
proof -
  let ?s1 = "demo_state\<lparr>sy_mgr := (sy_mgr demo_state)\<lparr>mg_root := True\<rparr>\<rparr>"
  have r1: "sys_reach demo_cfg demo_outside ?s1" by (rule sys_reach.step [OF demo_state_reached signalled])
  obtain s where s: "(sys_step demo_cfg demo_outside)\<^sup>*\<^sup>* ?s1 s" "sy_loops s = []" "mg_running (sy_mgr s) = mg_running (sy_mgr ?s1)"
    using shutdown_completes [of ?s1 demo_cfg demo_outside] by auto
  have r: "sys_reach demo_cfg demo_outside s" by (rule sys_reach_steps [OF s(1) r1])
  have root: "mg_root (sy_mgr s)" using sys_reach_idle [OF r] s(2) by (simp add: mgr_idle_def)
  have run: "mg_running (sy_mgr s) = [demo_consumer]" using s(3) consumer_runs(1) by (simp add: demo_state_def)
  show ?thesis using stopped_backend_quiet [OF r root] r s(2) run by auto
qed

text \<open>The network between the demo backend and its health check: the debug server answers on its one path, or the connection is refused.\<close>

definition debug_http :: "bool \<Rightarrow> unit http" where
  "debug_http up = \<lparr>ht_ParseURL = (\<lambda>url. Inr ()),
     ht_Do = (\<lambda>req w. (if up then (case debug_New (drop (length ''http://:9281'') (rq_URL req)) of
          Some a \<Rightarrow> Inr \<lparr>rs_Status = rp_Status a, rs_Body = (rp_Body a, None)\<rparr>
        | None \<Rightarrow> Inr \<lparr>rs_Status = 404, rs_Body = ([], None)\<rparr>) else Inl (Msg ''connection refused''), w))\<rparr>"

definition health_process :: "bool \<Rightarrow> unit process" where
  "health_process up = \<lparr>pr_env = [''WORKFLOWS_DEBUG_ADDR'' \<mapsto> '':9281''], pr_rand = (\<lambda>w. (Inr (replicate 32 CHR ''r''), w)),
     pr_http = debug_http up, pr_opened = Inr (), pr_schema = [], pr_file = fresh_db, pr_faults = []\<rparr>"

theorem health_reports_backend_witness:
  "main_exit (Execute (health_process True) [''health''] ()) = Some 0 \<and> main_exit (Execute (health_process False) [''health''] ()) = Some 1"
proof -
  have cfg: "\<exists>probe. FromEnv (pr_env (health_process up)) (pr_rand (health_process up)) () = (Inr probe, ())
      \<and> cf_DebugAddr probe = cf_DebugAddr demo_cfg" for up
    by (simp add: health_process_def FromEnv_def getEnv_def getEnvBool_def getEnvInt_def loadOrGenerateEncryptionKey_def Let_def demo_cfg_def)
  have net: "asks_debug_server demo_cfg (pr_http (health_process up)) s" if "up \<longleftrightarrow> DebugServer \<in> set (sy_loops s)" for up and s :: "unit System"
    using that by (auto simp: asks_debug_server_def health_process_def debug_http_def demo_cfg_def)
  obtain s where s: "(sys_step demo_cfg demo_outside)\<^sup>*\<^sup>* (demo_state\<lparr>sy_mgr := (sy_mgr demo_state)\<lparr>mg_root := True\<rparr>\<rparr>) s" "sy_loops s = []"
    using shutdown_completes [of "demo_state\<lparr>sy_mgr := (sy_mgr demo_state)\<lparr>mg_root := True\<rparr>\<rparr>" demo_cfg demo_outside] by auto
  have r: "sys_reach demo_cfg demo_outside s"
    by (rule sys_reach_steps [OF s(1) sys_reach.step [OF demo_state_reached signalled]])
  have up: "DebugServer \<in> set (sy_loops demo_state)"
    by (simp add: demo_state_def indexed_state_def sys_start_def all_loops_def)
  obtain p where p: "FromEnv (pr_env (health_process True)) (pr_rand (health_process True)) () = (Inr p, ())" "cf_DebugAddr p = cf_DebugAddr demo_cfg"
    using cfg by blast
  obtain q where q: "FromEnv (pr_env (health_process False)) (pr_rand (health_process False)) () = (Inr q, ())" "cf_DebugAddr q = cf_DebugAddr demo_cfg"
    using cfg by blast
  show ?thesis
    using health_reports_backend [OF demo_state_reached p net, where args = "[]"]
      health_reports_backend [OF r q net, where args = "[]"] up s(2) by simp
qed

theorem own_files_trigger_nothing_witness:
  "fst (handleEvent (demo_engine\<lparr>en_ItemPath := (\<lambda>a s i w. (Inr ''/.workflows/definitions/w4.json'', w))\<rparr>) demo_codec ''u1'' ''auth''
     ''postprocessing-finished'' ''sp!op'' (demo_db\<lparr>db_triggers := demo_triggers\<rparr>) 0) = []
   \<and> dispatch lost_engine demo_triggers ''u1'' ''auth'' ''sp'' ((demo_activity ''a1'')\<lparr>ac_ResourceID := ''sp!op''\<rparr>) 0 \<in> {0, 1}"
proof -
  let ?en = "demo_engine\<lparr>en_ItemPath := (\<lambda>a s i w. (Inr ''/.workflows/definitions/w4.json'', w))\<rparr>"
  have p: "own_path ''/.workflows/definitions/w4.json''"
    unfolding own_path_def by (rule exI [of _ "''w4''"]) (simp add: rootDir_def definitionsDir_def)
  have s: "splitResourceID (ac_ResourceID ((demo_activity ''a1'')\<lparr>ac_ResourceID := ''sp!op''\<rparr>)) = Some (''sp'', ''sp!op'')"
    by (simp add: splitResourceID_def)
  have d: "decode_payload demo_codec ''sp!op'' = Inr \<lparr>ep_ItemID = ''sp!op'', ep_SpaceID = ''sp''\<rparr>"
    by (rule demo_decode) simp
  have f: "en_ItemPath ?en ''auth'' ''sp'' ''sp!op'' 0 = (Inr ''/.workflows/definitions/w4.json'', 0)"
    "en_ItemPath lost_engine ''auth'' ''sp'' ''sp!op'' 0 = (Inl (Msg ''404''), 1)"
    by (simp_all add: lost_engine_def)
  show ?thesis
    using own_files_trigger_nothing [OF p f(1) _ d s] own_files_trigger_nothing [OF p f(2) _ d s] by simp
qed

theorem api_isolates_users_witness:
  "private_part ''u2'' connected_db = private_part ''u2'' fresh_db \<and> db_ok connected_db"
proof -
  obtain res where r: "serve demo_mux (the_options demo_cfg demo_outside) ''POST'' ''connect'' user_request [] (fresh_db, manager_New) () =
      (res, ''https://idp/userinfo'', (connected_db, Kick manager_New), ())" using connect_request by blast
  have ok: "db_ok fresh_db" using fresh_ok(1) by (simp add: cred_ok_def)
  have "''u2'' \<notin> identities (the_service demo_cfg demo_outside) h" for h by (simp add: identities_def the_service_def)
  then show ?thesis using api_isolates_users [OF ok r, unfolded automation_of_options] by blast
qed

end
